(* ===== verification/OnSip_Prelude.thy ===== *)
theory OnSip_Prelude
  imports Main "HOL-Library.Word" "HOL-Library.Monad_Syntax" "HOL-Library.Multiset"
    "HOL-Library.Sublist"
begin

text \<open>
  Shared vocabulary of the development: the machine types of the Win32 build, the
  \<open>std::string\<close> operations the sources use, and the generic facts on lists, options and
  words that several components need.

  A C++ \<open>long\<close>, \<open>int\<close> or \<open>DWORD\<close> of the Win32 build is a 32-bit word; a signed
  comparison of the code reads it with \<^const>\<open>sint\<close>, an unsigned one with \<^const>\<open>unat\<close>.
  A computation that can dereference a null pointer (or call \<open>front()\<close> on an empty list)
  returns an option; \<^const>\<open>None\<close> is that undefined behaviour, and \<^const>\<open>Option.bind\<close>
  propagates it the way the crash of the process does.
\<close>

type_synonym long = "32 word"
type_synonym dword = "32 word"
type_synonym tstring = string

named_theorems str_simps \<open>evaluation of the string operations\<close>
named_theorems machine_simps \<open>unfolding of the state machine operations\<close>
named_theorems keeps \<open>an operation keeps an invariant or a field\<close>

section \<open>Characters and strings\<close>

definition is_tdigit :: "char \<Rightarrow> bool" where
  "is_tdigit c \<longleftrightarrow> 48 \<le> (of_char c :: nat) \<and> (of_char c :: nat) \<le> 57"

text \<open>\<open>tolower\<close> and \<open>toupper\<close> of the C locale.\<close>

definition lower_char :: "char \<Rightarrow> char" where
  "lower_char c =
     (let n = (of_char c :: nat) in if 65 \<le> n \<and> n \<le> 90 then char_of (n + 32) else c)"

definition upper_char :: "char \<Rightarrow> char" where
  "upper_char c =
     (let n = (of_char c :: nat) in if 97 \<le> n \<and> n \<le> 122 then char_of (n - 32) else c)"

text \<open>
  \<open>str.find(pat)\<close>, \<open>str.find(pat, pos)\<close> and \<open>str.rfind(pat)\<close>; \<^const>\<open>None\<close> is
  \<open>npos\<close>.
\<close>

fun sfind :: "'a list \<Rightarrow> 'a list \<Rightarrow> nat option" where
  "sfind pat [] = (if pat = [] then Some 0 else None)"
| "sfind pat (c # cs) =
     (if prefix pat (c # cs) then Some 0 else map_option Suc (sfind pat cs))"

definition sfind_from :: "'a list \<Rightarrow> 'a list \<Rightarrow> nat \<Rightarrow> nat option" where
  "sfind_from pat str pos =
     (if length str < pos then None else map_option ((+) pos) (sfind pat (drop pos str)))"

definition srfind :: "'a list \<Rightarrow> 'a list \<Rightarrow> nat option" where
  "srfind pat str =
     map_option (\<lambda>i. length str - length pat - i) (sfind (rev pat) (rev str))"

text \<open>
  \<open>str.find_first_of(set, pos)\<close>, \<open>str.find_first_not_of(set, pos)\<close> and
  \<open>str.find_last_not_of(set)\<close>. A position of \<open>npos\<close> (or past the end) finds nothing.
\<close>

fun first_index :: "('a \<Rightarrow> bool) \<Rightarrow> 'a list \<Rightarrow> nat option" where
  "first_index P [] = None"
| "first_index P (c # cs) = (if P c then Some 0 else map_option Suc (first_index P cs))"

definition index_from :: "('a \<Rightarrow> bool) \<Rightarrow> 'a list \<Rightarrow> nat option \<Rightarrow> nat option" where
  "index_from P str pos =
     (case pos of None \<Rightarrow> None | Some p \<Rightarrow> map_option ((+) p) (first_index P (drop p str)))"

definition find_first_of :: "'a list \<Rightarrow> 'a list \<Rightarrow> nat option \<Rightarrow> nat option" where
  "find_first_of chs = index_from (\<lambda>c. c \<in> set chs)"

definition find_first_not_of :: "'a list \<Rightarrow> 'a list \<Rightarrow> nat option \<Rightarrow> nat option" where
  "find_first_not_of chs = index_from (\<lambda>c. c \<notin> set chs)"

definition find_last_not_of :: "'a list \<Rightarrow> 'a list \<Rightarrow> nat option" where
  "find_last_not_of chs str =
     map_option (\<lambda>i. length str - 1 - i) (first_index (\<lambda>c. c \<notin> set chs) (rev str))"

text \<open>Decimal rendering of the \<open>%ld\<close> and \<open>%08ld\<close> conversions.\<close>

fun digits_of :: "nat \<Rightarrow> string" where
  "digits_of n = (if n < 10 then [char_of (48 + n)] else digits_of (n div 10) @ [char_of (48 + n mod 10)])"

declare digits_of.simps [simp del]

definition pad_zero :: "nat \<Rightarrow> string \<Rightarrow> string" where
  "pad_zero k s = replicate (k - length s) (CHR ''0'') @ s"

definition format_ld :: "long \<Rightarrow> string" where
  "format_ld x = (if sint x < 0 then ''-'' @ digits_of (nat (- sint x)) else digits_of (nat (sint x)))"

definition format_08ld :: "long \<Rightarrow> string" where
  "format_08ld x =
     (if sint x < 0 then ''-'' @ pad_zero 7 (digits_of (nat (- sint x)))
      else pad_zero 8 (digits_of (nat (sint x))))"

section \<open>Generic lemmas\<close>

lemmas char_eval = char_of_def drop_bit_eq_div bit_iff_odd

lemma first_index_None [simp]: "first_index P xs = None \<longleftrightarrow> (\<forall>x \<in> set xs. \<not> P x)"
  by (induction xs) auto

lemma first_index_Some:
  "first_index P xs = Some i \<Longrightarrow>
     i < length xs \<and> P (xs ! i) \<and> (\<forall>x \<in> set (take i xs). \<not> P x)"
  by (induction xs arbitrary: i) (auto split: if_splits)

lemma first_index_append:
  "(\<forall>x \<in> set xs. \<not> P x) \<Longrightarrow> first_index P (xs @ ys) = map_option ((+) (length xs)) (first_index P ys)"
  by (induction xs) (auto simp: option.map_comp comp_def option.map_ident_strong intro: option.map_cong0)

lemma sfind_Some:
  "sfind pat str = Some i \<Longrightarrow> i \<le> length str \<and> prefix pat (drop i str)"
  by (induction pat str arbitrary: i rule: sfind.induct) (auto split: if_splits)

lemma sfind_None_iff: "sfind pat str = None \<longleftrightarrow> \<not> sublist pat str"
  by (induction pat str rule: sfind.induct)
    (auto simp: sublist_Cons_right)

lemma sfind_0_iff: "sfind pat str = Some 0 \<longleftrightarrow> prefix pat str"
  by (cases str) auto

lemma sfind_singleton: "sfind [c] str = first_index (\<lambda>x. x = c) str"
  by (induction str) auto

lemma find_SomeD: "find P xs = Some x \<Longrightarrow> x \<in> set xs \<and> P x"
  by (induction xs) (auto split: if_splits)

lemma sint_of_small_nat: "n < 2 ^ 31 \<Longrightarrow> sint (word_of_nat n :: long) = int n"
  by (simp add: signed_of_nat signed_take_bit_int_eq_self)

lemma Ex_bool [simp]: "\<exists>b. b" "\<exists>b. \<not> b"
  by auto

end
