(* ===== verification/Utils.thy ===== *)
theory Utils
  imports OnSip_Prelude
begin

text \<open>
  \<open>OnSipCommon/Utils.cpp\<close> and \<open>Utils.h\<close>: the string helpers of class \<open>Strings\<close>, the
  SIP address parser, the unique-id generator (also \<open>UniqueId_ts\<close> of \<open>Threads.h\<close>) and
  the elapsed-time classes. ATL's Base64 is not under the repository: it is a pair of
  parameters. Conversions between \<open>string\<close> and \<open>wstring\<close> (identity in the ANSI build
  the README prescribes) and the \<open>strftime\<close> formatting are left out.
\<close>

section \<open>Class Strings\<close>

definition SPACES :: string where
  "SPACES = '' '' @ [CHR 0x09, CHR 0x0D, CHR 0x0A]"

definition toStrip :: string where
  "toStrip = '' '' @ [CHR 0x0A, CHR 0x0D, CHR 0x09]"

text \<open>
  \<open>Strings::split\<close>. The two positions of the loop are optional (\<open>npos\<close>). \<open>substr\<close>
  throws \<open>out_of_range\<close> when its start is \<open>npos\<close>: the result \<^const>\<open>None\<close>.
\<close>

function split_loop ::
  "string \<Rightarrow> string \<Rightarrow> nat option \<Rightarrow> nat option \<Rightarrow> string list \<Rightarrow> string list option" where
  "split_loop str delims lastPos pos tokens =
     (if pos = None \<and> lastPos = None then Some tokens
      else
        case lastPos of
          None \<Rightarrow> None
        | Some l \<Rightarrow>
            let tok = (case pos of None \<Rightarrow> drop l str | Some p \<Rightarrow> take (p - l) (drop l str));
                lastPos' = find_first_not_of delims str pos;
                pos' = find_first_of delims str lastPos'
            in split_loop str delims lastPos' pos' (tokens @ [tok]))"
  by pat_completeness auto

definition split_measure :: "string \<Rightarrow> nat option \<Rightarrow> nat option \<Rightarrow> nat" where
  "split_measure str lastPos pos =
     (case pos of
        None \<Rightarrow> (case lastPos of None \<Rightarrow> 0 | Some l \<Rightarrow> 1)
      | Some p \<Rightarrow> Suc (Suc (length str - p)))"

lemma index_from_Some:
  assumes "index_from P str (Some p) = Some q"
  shows "p \<le> q \<and> q < length str \<and> P (str ! q) \<and> (\<forall>x \<in> set (take (q - p) (drop p str)). \<not> P x)"
  using assms
  by (auto simp: index_from_def add.commute dest!: first_index_Some)

lemma index_from_None [simp]: "index_from P str None = None"
  by (simp add: index_from_def)

lemma find_first_npos [simp]:
  "find_first_of chs str None = None" "find_first_not_of chs str None = None"
  by (simp_all add: find_first_of_def find_first_not_of_def)

lemma split_measure_decr:
  assumes "lastPos = Some l"
    and "l' = find_first_not_of delims str pos" and "p' = find_first_of delims str l'"
  shows "split_measure str l' p' < split_measure str lastPos pos"
proof (cases pos)
  case None
  with assms show ?thesis by (simp add: split_measure_def)
next
  case (Some p)
  show ?thesis
  proof (cases p')
    case None
    with Some show ?thesis by (simp add: split_measure_def split: option.split)
  next
    case (Some q)
    then obtain k where k: "l' = Some k" using assms(3) by (cases l') auto
    have lk: "p \<le> k" "k < length str" "str ! k \<notin> set delims"
      using index_from_Some [of _ str p k] assms(2) k \<open>pos = Some p\<close>
      by (auto simp: find_first_not_of_def)
    have kq: "k \<le> q" "q < length str" "str ! q \<in> set delims"
      using index_from_Some [of _ str k q] assms(3) k \<open>p' = Some q\<close>
      by (auto simp: find_first_of_def)
    from lk kq have "k \<noteq> q" by auto
    with lk kq have "p < q" by simp
    with kq Some \<open>pos = Some p\<close> show ?thesis by (simp add: split_measure_def)
  qed
qed

termination split_loop
  by (relation "measure (\<lambda>(str, delims, lastPos, pos, tokens). split_measure str lastPos pos)")
    (simp_all add: split_measure_decr)

declare split_loop.simps [simp del]

definition split :: "string \<Rightarrow> string \<Rightarrow> string list option" where
  "split str delimiters =
     (let lastPos = find_first_not_of delimiters str (Some 0);
          pos = find_first_of delimiters str lastPos
      in split_loop str delimiters lastPos pos [])"

definition trim_right :: "string \<Rightarrow> string \<Rightarrow> string" where
  "trim_right s t =
     (case find_last_not_of t s of None \<Rightarrow> '''' | Some i \<Rightarrow> take (i + 1) s)"

text \<open>\<open>erase(0, npos)\<close> erases everything.\<close>

definition trim_left :: "string \<Rightarrow> string \<Rightarrow> string" where
  "trim_left s t =
     (case find_first_not_of t s (Some 0) of None \<Rightarrow> '''' | Some i \<Rightarrow> drop i s)"

definition trim :: "string \<Rightarrow> string \<Rightarrow> string" where
  "trim s t = trim_left (trim_right s t) t"

definition tolower :: "string \<Rightarrow> string" where
  "tolower s = map lower_char s"

definition toupper :: "string \<Rightarrow> string" where
  "toupper s = map upper_char s"

text \<open>
  \<open>Strings::replace\<close>. The loop searches from \<open>pos\<close>, splices the replacement in place and
  goes on behind it.
\<close>

function replace_loop :: "string \<Rightarrow> string \<Rightarrow> string \<Rightarrow> nat \<Rightarrow> string" where
  "replace_loop target replacement str pos =
     (if target = [] then str
      else case sfind_from target str pos of
          None \<Rightarrow> str
        | Some found \<Rightarrow>
            replace_loop target replacement
              (take found str @ replacement @ drop (found + length target) str)
              (found + length replacement))"
  by pat_completeness auto

lemma sfind_from_Some:
  assumes "sfind_from pat str pos = Some i"
  shows "pos \<le> i \<and> i + length pat \<le> length str \<and> prefix pat (drop i str)"
proof -
  from assms obtain k where k: "i = pos + k" "sfind pat (drop pos str) = Some k" "pos \<le> length str"
    by (auto simp: sfind_from_def split: if_splits)
  from sfind_Some [OF k(2)] have pre: "k \<le> length str - pos" "prefix pat (drop i str)"
    using k(1) by (simp_all add: add.commute)
  then have "length pat \<le> length str - i" using prefix_length_le by fastforce
  with k pre show ?thesis by auto
qed

termination replace_loop
proof (relation "measure (\<lambda>(target, replacement, str, pos). length str - pos)", goal_cases)
  case (2 target replacement str pos found)
  from sfind_from_Some [OF 2(2)] 2(1) show ?case by (auto simp: neq_Nil_conv)
qed simp

declare replace_loop.simps [simp del]

definition replace :: "string \<Rightarrow> string \<Rightarrow> string \<Rightarrow> string" where
  "replace source target replacement =
     (if 0 < length target then replace_loop target replacement source 0 else source)"

text \<open>\<open>stripNonNumeric\<close> walks the buffer up to the first NUL.\<close>

fun stripNonNumeric :: "string \<Rightarrow> string" where
  "stripNonNumeric [] = []"
| "stripNonNumeric (c # cs) =
     (if c = CHR 0x00 then []
      else if is_tdigit c then c # stripNonNumeric cs else stripNonNumeric cs)"

text \<open>A \<open>c_str()\<close> handed to a C function ends at its first NUL.\<close>

definition c_str :: "string \<Rightarrow> string" where
  "c_str s = takeWhile (\<lambda>c. c \<noteq> CHR 0x00) s"

definition stringsSame :: "string \<Rightarrow> string \<Rightarrow> bool" where
  "stringsSame str1 str2 \<longleftrightarrow> tolower (c_str str1) = tolower (c_str str2)"

definition startsWith :: "string \<Rightarrow> string \<Rightarrow> bool" where
  "startsWith str chars \<longleftrightarrow> sfind chars str = Some 0"

text \<open>
  The subtraction of the two lengths is unsigned: it can only equal a found position when it
  does not wrap, since a found position leaves room for \<open>chars\<close>.
\<close>

definition endsWith :: "string \<Rightarrow> string \<Rightarrow> bool" where
  "endsWith str chars \<longleftrightarrow>
     (case srfind chars str of None \<Rightarrow> False | Some i \<Rightarrow> int i = int (length str) - int (length chars))"

definition contains :: "string \<Rightarrow> string \<Rightarrow> bool" where
  "contains str chars \<longleftrightarrow> sfind chars str \<noteq> None"

definition lstrip :: "string \<Rightarrow> string" where
  "lstrip s = (case find_first_not_of toStrip s (Some 0) of None \<Rightarrow> '''' | Some n \<Rightarrow> drop n s)"

definition rstrip :: "string \<Rightarrow> string" where
  "rstrip s = (case find_last_not_of toStrip s of None \<Rightarrow> '''' | Some n \<Rightarrow> take (n + 1) s)"

definition strip :: "string \<Rightarrow> string" where
  "strip s = lstrip (rstrip s)"

definition backslash :: char where
  "backslash = CHR 0x5C"

fun repr :: "string \<Rightarrow> string" where
  "repr [] = []"
| "repr (c # cs) =
     (if c = CHR 0x0A then backslash # ''n''
      else if c = CHR 0x0D then backslash # ''r''
      else if c = CHR 0x09 then backslash # ''t''
      else [c]) @ repr cs"

definition xor_char :: "char \<Rightarrow> char \<Rightarrow> char" where
  "xor_char c d = char_of (Bit_Operations.xor (of_char c) (of_char d) :: nat)"

definition xorWithChar :: "string \<Rightarrow> char \<Rightarrow> string" where
  "xorWithChar strInput charXor = map (\<lambda>c. xor_char c charXor) strInput"

fun xor_string :: "string \<Rightarrow> string \<Rightarrow> string" where
  "xor_string strInput [] = strInput"
| "xor_string strInput (k # ks) = xor_string (xorWithChar strInput k) ks"

definition reverseString :: "string \<Rightarrow> string" where
  "reverseString strInput = rev strInput"

text \<open>
  The password obfuscation. \<open>b64enc data cap\<close> and \<open>b64dec text cap\<close> stand for ATL's
  \<open>Base64Encode\<close> and \<open>Base64Decode\<close> with an output buffer of \<open>cap\<close> bytes: the success
  flag (only asserted by the code) and the bytes written.
\<close>

definition encryptString ::
  "(string \<Rightarrow> nat \<Rightarrow> bool \<times> string) \<Rightarrow> string \<Rightarrow> string \<Rightarrow> string" where
  "encryptString b64enc strInput encryptKey = snd (b64enc (xor_string strInput encryptKey) 1024)"

definition decryptString ::
  "(string \<Rightarrow> nat \<Rightarrow> bool \<times> string) \<Rightarrow> string \<Rightarrow> string \<Rightarrow> string" where
  "decryptString b64dec strInput decryptKey =
     xor_string (snd (b64dec strInput 1024)) (reverseString decryptKey)"

section \<open>Utils::ParseSIP\<close>

text \<open>
  The result is the returned flag with the two output parameters, which keep the caller's
  values until they are assigned; both are assigned before the last check can still fail.
  \<^const>\<open>None\<close> would be the exception of \<open>split\<close>.
\<close>

definition ParseSIP :: "string \<Rightarrow> string \<Rightarrow> string \<Rightarrow> (bool \<times> string \<times> string) option" where
  "ParseSIP sipAddress userName domain =
     (let sipaddr = trim sipAddress SPACES in
      if sipaddr = [] then Some (False, userName, domain)
      else
        let sipaddr = (if startsWith (tolower sipaddr) ''sip:'' then drop 4 sipaddr else sipaddr) in
        if \<not> contains sipaddr ''@'' then Some (False, userName, domain)
        else do {
          vals \<leftarrow> split sipaddr ''@'';
          if length vals \<noteq> 2 then Some (False, userName, domain)
          else
            let userName = vals ! 0; domain = vals ! 1 in
            if \<not> contains domain ''.'' then Some (False, userName, domain)
            else Some (True, userName, domain)
        })"

section \<open>UniqueId\<close>

definition getNextId :: "long \<Rightarrow> long \<times> long" where
  "getNextId ident = (let ident' = ident + 1 in (ident', ident'))"

section \<open>Correctness of the string helpers\<close>

subsection \<open>Splitting\<close>

text \<open>The tokens of a string: its maximal non-empty runs of non-delimiters.\<close>

function tokens_of :: "('a \<Rightarrow> bool) \<Rightarrow> 'a list \<Rightarrow> 'a list list" where
  "tokens_of D [] = []"
| "tokens_of D (c # cs) =
     (if D c then tokens_of D cs
      else (c # takeWhile (\<lambda>x. \<not> D x) cs) # tokens_of D (dropWhile (\<lambda>x. \<not> D x) cs))"
  by pat_completeness auto
termination
  by (relation "measure (length \<circ> snd)") (auto simp: le_imp_less_Suc length_dropWhile_le)

lemma tokens_of_skip: "\<forall>x \<in> set xs. D x \<Longrightarrow> tokens_of D (xs @ ys) = tokens_of D ys"
  by (induction xs) auto

lemma drop_first_index:
  "first_index P xs = Some i \<Longrightarrow>
     drop i xs = dropWhile (\<lambda>x. \<not> P x) xs \<and> take i xs = takeWhile (\<lambda>x. \<not> P x) xs"
  by (induction xs arbitrary: i) (auto split: if_splits)

lemma tokens_of_drop_from:
  "tokens_of D (drop p str) =
     (case index_from (\<lambda>c. \<not> D c) str (Some p) of None \<Rightarrow> [] | Some k \<Rightarrow> tokens_of D (drop k str))"
proof (cases "first_index (\<lambda>c. \<not> D c) (drop p str)")
  case None
  then have "\<forall>x \<in> set (drop p str). D x" by simp
  then have "tokens_of D (drop p str) = []"
    using tokens_of_skip [of "drop p str" D "[]"] by simp
  with None show ?thesis by (simp add: index_from_def del: first_index_None)
next
  case (Some i)
  then have "\<forall>x \<in> set (take i (drop p str)). D x"
    using first_index_Some [OF Some] by simp
  then have "tokens_of D (take i (drop p str) @ drop i (drop p str)) = tokens_of D (drop i (drop p str))"
    by (rule tokens_of_skip)
  then have "tokens_of D (drop p str) = tokens_of D (drop (i + p) str)"
    by (metis append_take_drop_id drop_drop)
  with Some show ?thesis by (simp add: index_from_def add.commute)
qed

lemma split_loop_tokens:
  assumes "pos = find_first_of delims str lastPos"
    and "\<And>l. lastPos = Some l \<Longrightarrow> l < length str \<and> str ! l \<notin> set delims"
  shows "split_loop str delims lastPos pos toks =
     Some (toks @ (case lastPos of None \<Rightarrow> [] | Some l \<Rightarrow> tokens_of (\<lambda>c. c \<in> set delims) (drop l str)))"
  using assms
proof (induction str delims lastPos pos toks rule: split_loop.induct)
  case (1 str delims lastPos pos toks)
  let ?D = "\<lambda>c. c \<in> set delims"
  show ?case
  proof (cases lastPos)
    case None
    with "1.prems"(1) have "pos = None" by simp
    with None show ?thesis by (simp add: split_loop.simps)
  next
    case (Some l)
    define tok where "tok = (case pos of None \<Rightarrow> drop l str | Some p \<Rightarrow> take (p - l) (drop l str))"
    define l' where "l' = find_first_not_of delims str pos"
    define p' where "p' = find_first_of delims str l'"
    have l: "l < length str" "str ! l \<notin> set delims" using "1.prems"(2) Some by auto
    then have cons: "drop l str = str ! l # drop (Suc l) str" by (simp add: Cons_nth_drop_Suc)
    have tok: "tok = takeWhile (\<lambda>x. \<not> ?D x) (drop l str) \<and>
       tokens_of ?D (dropWhile (\<lambda>x. \<not> ?D x) (drop l str)) =
         (case l' of None \<Rightarrow> [] | Some k \<Rightarrow> tokens_of ?D (drop k str))"
    proof (cases "first_index ?D (drop l str)")
      case None
      then have pos: "pos = None"
        using "1.prems"(1) Some by (simp add: find_first_of_def index_from_def)
      from None have none: "\<forall>x \<in> set (drop l str). \<not> ?D x" by simp
      then have tw: "takeWhile (\<lambda>x. \<not> ?D x) (drop l str) = drop l str"
        and dw: "dropWhile (\<lambda>x. \<not> ?D x) (drop l str) = []"
        by (simp_all only: takeWhile_eq_all_conv dropWhile_eq_Nil_conv)
      show ?thesis unfolding tw dw using pos by (simp add: tok_def l'_def)
    next
      case (Some i)
      then have p: "pos = Some (l + i)"
        using "1.prems"(1) \<open>lastPos = Some l\<close> by (simp add: find_first_of_def index_from_def)
      have "dropWhile (\<lambda>x. \<not> ?D x) (drop l str) = drop (l + i) str"
        using drop_first_index [OF Some] by (simp add: add.commute)
      moreover have "tok = takeWhile (\<lambda>x. \<not> ?D x) (drop l str)"
        using drop_first_index [OF Some] p by (simp add: tok_def)
      ultimately show ?thesis
        using tokens_of_drop_from [of ?D "l + i" str] p
        by (simp add: l'_def find_first_not_of_def)
    qed
    have step: "split_loop str delims lastPos pos toks = split_loop str delims l' p' (toks @ [tok])"
      unfolding Some tok_def l'_def p'_def by (subst split_loop.simps) (simp add: Let_def)
    have "split_loop str delims l' p' (toks @ [tok]) =
       Some ((toks @ [tok]) @ (case l' of None \<Rightarrow> [] | Some k \<Rightarrow> tokens_of ?D (drop k str)))"
    proof (rule "1.IH" [OF _ Some tok_def l'_def p'_def])
      show "\<not> (pos = None \<and> lastPos = None)" using Some by simp
      show "p' = find_first_of delims str l'" by (rule p'_def)
      show "k < length str \<and> str ! k \<notin> set delims" if "l' = Some k" for k
        using that l'_def
        by (cases pos) (auto simp: find_first_not_of_def dest!: index_from_Some)
    qed
    with step tok cons l(2) Some show ?thesis by (simp del: append_assoc)
  qed
qed

lemma split_tokens: "split str delims = Some (tokens_of (\<lambda>c. c \<in> set delims) str)"
proof -
  let ?l = "find_first_not_of delims str (Some 0)"
  have "split str delims =
     Some ([] @ (case ?l of None \<Rightarrow> [] | Some l \<Rightarrow> tokens_of (\<lambda>c. c \<in> set delims) (drop l str)))"
    unfolding split_def Let_def
    by (rule split_loop_tokens) (auto simp: find_first_not_of_def dest!: index_from_Some)
  also have "\<dots> = Some (tokens_of (\<lambda>c. c \<in> set delims) str)"
    using tokens_of_drop_from [of "\<lambda>c. c \<in> set delims" 0 str]
    by (simp add: find_first_not_of_def)
  finally show ?thesis .
qed

lemma tokens_of_delim_free:
  "w \<noteq> [] \<Longrightarrow> \<forall>x \<in> set w. \<not> D x \<Longrightarrow> tokens_of D w = [w]"
  by (cases w) (auto simp: takeWhile_eq_all_conv, metis dropWhile_eq_Nil_conv tokens_of.simps(1))

lemma tokens_of_word:
  assumes "w \<noteq> []" and "\<forall>x \<in> set w. \<not> D x" and "D d"
  shows "tokens_of D (w @ d # rest) = w # tokens_of D rest"
proof -
  from assms(1) obtain c ws where w: "w = c # ws" by (cases w) auto
  with assms(2) have ws: "\<And>x. x \<in> set ws \<Longrightarrow> \<not> D x" and c: "\<not> D c" by auto
  have "takeWhile (\<lambda>x. \<not> D x) (ws @ d # rest) = ws"
    by (subst takeWhile_append2) (use ws assms(3) in auto)
  moreover have "dropWhile (\<lambda>x. \<not> D x) (ws @ d # rest) = d # rest"
    by (subst dropWhile_append2) (use ws assms(3) in auto)
  ultimately show ?thesis using c assms(3) by (simp add: w)
qed

lemma tokens_of_sound:
  "t \<in> set (tokens_of D s) \<Longrightarrow> t \<noteq> [] \<and> (\<forall>x \<in> set t. \<not> D x)"
proof (induction D s rule: tokens_of.induct)
  case (2 D c cs)
  show ?case
  proof (cases "D c")
    case True
    with 2 show ?thesis by simp
  next
    case False
    with "2.prems" have "t = c # takeWhile (\<lambda>x. \<not> D x) cs \<or>
      t \<in> set (tokens_of D (dropWhile (\<lambda>x. \<not> D x) cs))" by simp
    then show ?thesis
    proof
      assume "t = c # takeWhile (\<lambda>x. \<not> D x) cs"
      with False show ?thesis using set_takeWhileD [of _ "\<lambda>x. \<not> D x" cs] by auto
    qed (rule "2.IH"(2) [OF False])
  qed
qed simp

lemma filter_takeWhile_dropWhile:
  "filter P xs = takeWhile P xs @ filter P (dropWhile P xs)"
  by (induction xs) auto

lemma concat_tokens_of: "concat (tokens_of D s) = filter (\<lambda>x. \<not> D x) s"
proof (induction D s rule: tokens_of.induct)
  case (2 D c cs)
  then show ?case using filter_takeWhile_dropWhile [of "\<lambda>x. \<not> D x" cs] by simp
qed simp

subsection \<open>Trimming and searching\<close>

lemma trim_right_id: "s \<noteq> [] \<Longrightarrow> last s \<notin> set t \<Longrightarrow> trim_right s t = s"
  by (cases s rule: rev_cases) (auto simp: trim_right_def find_last_not_of_def)

lemma trim_left_id: "s \<noteq> [] \<Longrightarrow> hd s \<notin> set t \<Longrightarrow> trim_left s t = s"
  by (cases s) (auto simp: trim_left_def find_first_not_of_def index_from_def)

lemma trim_id: "s \<noteq> [] \<Longrightarrow> hd s \<notin> set t \<Longrightarrow> last s \<notin> set t \<Longrightarrow> trim s t = s"
  by (simp add: trim_def trim_right_id trim_left_id)

lemma contains_iff: "contains s p \<longleftrightarrow> sublist p s"
  by (simp add: contains_def sfind_None_iff)

lemma contains_char [simp]: "contains s [c] \<longleftrightarrow> c \<in> set s"
  by (auto simp: contains_def sfind_singleton)

lemma startsWith_iff: "startsWith s p \<longleftrightarrow> prefix p s"
  by (simp add: startsWith_def sfind_0_iff)

lemma tolower_append [simp]: "tolower (s @ t) = tolower s @ tolower t"
  by (simp add: tolower_def)

subsection \<open>Replacement\<close>

text \<open>Left-to-right replacement of the non-overlapping occurrences of a target.\<close>

function subst_all :: "'a list \<Rightarrow> 'a list \<Rightarrow> 'a list \<Rightarrow> 'a list" where
  "subst_all t r s =
     (if t = [] then s
      else case s of
          [] \<Rightarrow> []
        | c # cs \<Rightarrow>
            if prefix t s then r @ subst_all t r (drop (length t) s) else c # subst_all t r cs)"
  by pat_completeness auto
termination
  by (relation "measure (\<lambda>(t, r, s). length s)") (auto simp: neq_Nil_conv)

declare subst_all.simps [simp del]

lemma subst_all_sfind:
  assumes "t \<noteq> []"
  shows "subst_all t r s =
     (case sfind t s of None \<Rightarrow> s
      | Some i \<Rightarrow> take i s @ r @ subst_all t r (drop (i + length t) s))"
proof (induction s)
  case Nil
  with assms show ?case by (simp add: subst_all.simps)
next
  case (Cons c cs)
  show ?case
  proof (cases "prefix t (c # cs)")
    case True
    with assms show ?thesis by (simp add: subst_all.simps [of t r "c # cs"])
  next
    case False
    with assms Cons show ?thesis
      by (cases "sfind t cs") (simp_all add: subst_all.simps [of t r "c # cs"])
  qed
qed

lemma replace_loop_subst:
  assumes "t \<noteq> []"
  shows "pos \<le> length str \<Longrightarrow>
     replace_loop t r str pos = take pos str @ subst_all t r (drop pos str)"
proof (induction t r str pos rule: replace_loop.induct)
  case (1 t r str pos)
  show ?case
  proof (cases "sfind_from t str pos")
    case None
    with "1.prems" have "sfind t (drop pos str) = None" by (simp add: sfind_from_def)
    then have "subst_all t r (drop pos str) = drop pos str"
      using subst_all_sfind [of t r "drop pos str"]
      by (cases "t = []") (simp_all add: subst_all.simps)
    with None show ?thesis by (simp add: replace_loop.simps)
  next
    case (Some found)
    from Some obtain k where k: "found = pos + k" "sfind t (drop pos str) = Some k"
      using "1.prems" by (auto simp: sfind_from_def)
    from sfind_from_Some [OF Some] have le: "pos \<le> found" "found + length t \<le> length str" by auto
    let ?str = "take found str @ r @ drop (found + length t) str"
    show ?thesis
    proof (cases "t = []")
      case True
      then show ?thesis by (simp add: replace_loop.simps subst_all.simps)
    next
      case False
      have "replace_loop t r ?str (found + length r) =
          take (found + length r) ?str @ subst_all t r (drop (found + length r) ?str)"
        using False Some le by (intro "1.IH") auto
      moreover have "subst_all t r (drop pos str) =
          take k (drop pos str) @ r @ subst_all t r (drop (k + length t) (drop pos str))"
        using subst_all_sfind [OF False, of r "drop pos str"] k by simp
      moreover have "take found str = take pos str @ take k (drop pos str)"
        using k(1) by (simp add: take_add)
      ultimately show ?thesis
        using False Some k le by (simp add: replace_loop.simps [of t r str pos] ac_simps)
    qed
  qed
qed

lemma replace_subst_all: "replace s t r = subst_all t r s"
  by (cases "t = []") (simp_all add: replace_def subst_all.simps replace_loop_subst)

subsection \<open>The password obfuscation\<close>

lemma xor_nat_lt_256:
  assumes "a < 256" and "b < (256::nat)"
  shows "Bit_Operations.xor a b < 256"
proof -
  have "Bit_Operations.xor a b = take_bit 8 (Bit_Operations.xor a b)"
    using assms by (simp add: take_bit_xor take_bit_nat_eq_self)
  also have "\<dots> < 2 ^ 8" by (rule take_bit_nat_less_exp)
  finally show ?thesis by simp
qed

lemma of_char_less: "(of_char c :: nat) < 256"
proof -
  have "(of_char c :: nat) \<in> {0..<256}" using range_nat_of_char by blast
  then show ?thesis by simp
qed

lemma xor_char_invol [simp]: "xor_char (xor_char c d) d = c"
proof -
  have "Bit_Operations.xor (of_char c) (of_char d) < (256::nat)"
    by (rule xor_nat_lt_256) (rule of_char_less)+
  then show ?thesis by (simp add: xor_char_def of_char_of xor.assoc)
qed

lemma xor_string_map: "xor_string s ks = map (\<lambda>c. foldl xor_char c ks) s"
  by (induction s ks rule: xor_string.induct) (simp_all add: xorWithChar_def)

lemma foldl_xor_char_rev [simp]: "foldl xor_char (foldl xor_char c ks) (rev ks) = c"
  by (induction ks rule: rev_induct) simp_all

lemma xor_string_rev: "xor_string (xor_string s ks) (rev ks) = s"
  by (simp add: xor_string_map map_idI)

section \<open>Properties\<close>

text \<open>
  \<open>Strings::split\<close> never throws and returns exactly the maximal runs of non-delimiter
  characters, in order: the position arithmetic of its loop (with \<open>npos\<close>) computes the
  reference tokenizer, for every string and every set of delimiters.
\<close>
theorem split_correct:
  "split str delimiters = Some (tokens_of (\<lambda>c. c \<in> set delimiters) str)"
  by (rule split_tokens)

text \<open>
  \<open>Strings::replace\<close>, which edits the string in place and continues behind each inserted
  text, is the left-to-right replacement of the non-overlapping occurrences of the target: an
  occurrence that only arises from an inserted text is never replaced, and the loop ends even
  when the replacement contains the target.
\<close>
theorem replace_correct: "replace source target replacement = subst_all target replacement source"
  by (rule replace_subst_all)

text \<open>
  C39. Parsing a printed SIP address returns its parts: with any spelling of the scheme
  \<open>sip:\<close>, for a non-empty user and a dotted domain free of \<open>@\<close> and not ending in white
  space, \<open>Utils::ParseSIP\<close> answers true with that user and that domain, whatever the output
  parameters held.
\<close>
theorem ParseSIP_print:
  assumes "tolower scheme = ''sip:''" and "user \<noteq> []" and "CHR ''@'' \<notin> set user"
    and "CHR ''@'' \<notin> set host" and "CHR ''.'' \<in> set host" and "last host \<notin> set SPACES"
  shows "ParseSIP (scheme @ user @ ''@'' @ host) user0 host0 = Some (True, user, host)"
proof -
  let ?s = "scheme @ user @ ''@'' @ host"
  from assms(1) have len: "length scheme = 4" and ne: "scheme \<noteq> []"
    by (auto simp: tolower_def dest: arg_cong [of _ _ length])
  from assms(1) ne have "lower_char (hd scheme) = CHR ''s''" by (cases scheme) (auto simp: tolower_def)
  then have hd: "hd ?s \<notin> set SPACES"
    using ne by (cases scheme) (auto simp: SPACES_def lower_char_def)
  have host: "host \<noteq> []" using assms(5) by auto
  have "trim ?s SPACES = ?s"
    using ne hd host assms(6) by (intro trim_id) auto
  moreover have "startsWith (tolower ?s) ''sip:''"
    using assms(1) by (simp add: startsWith_iff)
  moreover have "drop 4 ?s = user @ ''@'' @ host" using len by simp
  moreover have "split (user @ ''@'' @ host) ''@'' = Some [user, host]"
  proof -
    have "tokens_of (\<lambda>c. c \<in> set ''@'') (user @ CHR ''@'' # host) =
        user # tokens_of (\<lambda>c. c \<in> set ''@'') host"
      using assms(2-3) by (intro tokens_of_word) auto
    also have "tokens_of (\<lambda>c. c \<in> set ''@'') host = [host]"
      using assms(4) host by (intro tokens_of_delim_free) auto
    finally show ?thesis by (simp add: split_tokens)
  qed
  ultimately show ?thesis
    using ne assms(5) by (simp add: ParseSIP_def)
qed

theorem ParseSIP_print_witness:
  "ParseSIP (''SIP:'' @ ''alice'' @ ''@'' @ ''onsip.com'') '''' '''' = Some (True, ''alice'', ''onsip.com'')"
  by (rule ParseSIP_print) (auto simp: tolower_def lower_char_def SPACES_def char_eval)

text \<open>
  C40. The obfuscated password comes back: if the Base64 decoder inverts the encoder on every
  input whose encoding fits the code's 1024-byte buffer, then decrypting an encrypted string of
  at most 768 bytes with the same key returns the string.
\<close>
theorem decrypt_encrypt:
  assumes "\<And>x. 4 * ((length x + 2) div 3) \<le> 1024 \<Longrightarrow> snd (b64dec (snd (b64enc x 1024)) 1024) = x"
    and "length str \<le> 768"
  shows "decryptString b64dec (encryptString b64enc str key) key = str"
proof -
  have "length (xor_string str key) \<le> 768" using assms(2) by (simp add: xor_string_map)
  then have "(length (xor_string str key) + 2) div 3 \<le> 770 div 3" by (intro div_le_mono) simp
  then have "4 * ((length (xor_string str key) + 2) div 3) \<le> 1024" by simp
  with assms(1) [of "xor_string str key"] show ?thesis
    by (simp add: decryptString_def encryptString_def reverseString_def xor_string_rev)
qed

theorem decrypt_encrypt_witness:
  "decryptString (\<lambda>t cap. (True, rev t)) (encryptString (\<lambda>t cap. (length t \<le> cap, rev t)) ''secret'' ''key'') ''key''
     = ''secret''"
  by (rule decrypt_encrypt) simp_all

end
