(* ===== verification/Gloox.thy ===== *)
theory Gloox
  imports Utils
begin

text \<open>
  The parts of the vendored gloox library (\<open>gloox/src\<close>) whose code the OnSIP layer reads:
  \<open>util::_lookup\<close>, the XML tree \<open>Tag\<close> with its searches, \<open>JID\<close>, the stanza extensions
  \<open>DataForm\<close>, \<open>DataFormField\<close>, \<open>Adhoc::Command\<close> and \<open>PubSub::Event\<close> with their parsers, and
  the stanzas \<open>IQ\<close> and \<open>Message\<close> as the records of what the OnSIP code reads off them.
  A \<open>Tag\<close> is a value here: \<open>clone()\<close> is the identity. Its namespace is the string
  \<open>Tag::xmlns()\<close> answers. The connection, the parser and the other extensions of gloox are
  not modelled; the build of the repository has no libidn (\<open>config.h.win\<close>).
\<close>

section \<open>util\<close>

text \<open>\<open>_lookup\<close> with the default \<open>def = -1\<close>: the first index, or the size of the table.\<close>

fun lookup :: "string \<Rightarrow> string list \<Rightarrow> nat" where
  "lookup str [] = 0"
| "lookup str (v # vs) = (if str = v then 0 else Suc (lookup str vs))"

lemma lookup_le: "lookup str vs \<le> length vs"
  by (induction vs) auto

lemma lookup_less_iff: "lookup str vs < length vs \<longleftrightarrow> str \<in> set vs"
  by (induction vs) auto

lemma lookup_nth: "lookup str vs < length vs \<Longrightarrow> vs ! lookup str vs = str"
  by (induction vs) auto

section \<open>Tag\<close>

datatype tag =
  Tag (tag_name: string) (tag_xmlns: string) (tag_attribs: "(string \<times> string) list")
      (tag_nodes: "node list")
and node = TypeTag tag | TypeString string

definition children :: "tag \<Rightarrow> tag list" where
  "children t = List.map_filter (\<lambda>n. case n of TypeTag c \<Rightarrow> Some c | TypeString _ \<Rightarrow> None) (tag_nodes t)"

definition cdata :: "tag \<Rightarrow> string" where
  "cdata t = concat (List.map_filter (\<lambda>n. case n of TypeTag _ \<Rightarrow> None | TypeString s \<Rightarrow> Some s) (tag_nodes t))"

fun find_attrib :: "(string \<times> string) list \<Rightarrow> string \<Rightarrow> string option" where
  "find_attrib [] name = None"
| "find_attrib ((n, v) # as) name = (if n = name then Some v else find_attrib as name)"

definition findAttribute :: "tag \<Rightarrow> string \<Rightarrow> string" where
  "findAttribute t name = (case find_attrib (tag_attribs t) name of None \<Rightarrow> '''' | Some v \<Rightarrow> v)"

definition hasAttribute :: "tag \<Rightarrow> string \<Rightarrow> string \<Rightarrow> bool" where
  "hasAttribute t name value \<longleftrightarrow>
     name \<noteq> [] \<and>
     (case find_attrib (tag_attribs t) name of None \<Rightarrow> False | Some v \<Rightarrow> value = [] \<or> v = value)"

definition findChild :: "tag \<Rightarrow> string \<Rightarrow> tag option" where
  "findChild t name = find (\<lambda>c. tag_name c = name) (children t)"

definition findChildAttr :: "tag \<Rightarrow> string \<Rightarrow> string \<Rightarrow> string \<Rightarrow> tag option" where
  "findChildAttr t name attr value =
     (if name = [] then None
      else find (\<lambda>c. tag_name c = name \<and> hasAttribute c attr value) (children t))"

section \<open>JID\<close>

record jid =
  j_username :: string
  j_server :: string
  j_serverRaw :: string
  j_resource :: string
  j_bare :: string
  j_full :: string
  j_valid :: bool

definition empty_JID :: jid where
  "empty_JID = \<lparr>j_username = '''', j_server = '''', j_serverRaw = '''', j_resource = '''',
     j_bare = '''', j_full = '''', j_valid = False\<rparr>"

definition JID_PORTION_SIZE :: nat where "JID_PORTION_SIZE = 1023"

text \<open>
  \<open>nodeprep\<close>, \<open>nameprep\<close> and \<open>resourceprep\<close> without libidn: the output parameter is only
  assigned on success.
\<close>

definition prep :: "string \<Rightarrow> string \<Rightarrow> bool \<times> string" where
  "prep s out = (if JID_PORTION_SIZE < length s then (False, out) else (True, s))"

definition setBare :: "jid \<Rightarrow> jid" where
  "setBare j = j\<lparr>j_bare := (if j_username j \<noteq> [] then j_username j @ ''@'' else '''') @ j_server j\<rparr>"

definition setFull :: "jid \<Rightarrow> jid" where
  "setFull j = j\<lparr>j_full := j_bare j @ (if j_resource j \<noteq> [] then ''/'' @ j_resource j else '''')\<rparr>"

definition setStrings :: "jid \<Rightarrow> jid" where
  "setStrings j = setFull (setBare j)"

text \<open>
  \<open>slash - at - 1\<close> is unsigned: with no \<open>@\<close> it is \<open>slash\<close>, with no \<open>/\<close> it exceeds every
  length.
\<close>

definition setJID :: "jid \<Rightarrow> string \<Rightarrow> jid" where
  "setJID j s =
     (if s = [] then empty_JID
      else
        let at = sfind ''@'' s;
            slash = sfind_from ''/'' s (case at of None \<Rightarrow> 0 | Some a \<Rightarrow> a);
            (ok1, user) = (case at of None \<Rightarrow> (True, j_username j) | Some a \<Rightarrow> prep (take a s) (j_username j));
            j1 = (if at = None then j else j\<lparr>j_username := user, j_valid := ok1\<rparr>)
        in if \<not> ok1 then j1
        else
          let start = (case at of None \<Rightarrow> 0 | Some a \<Rightarrow> a + 1);
              raw = (case slash of None \<Rightarrow> drop start s | Some sl \<Rightarrow> take (sl - start) (drop start s));
              (ok2, server) = prep raw (j_server j1);
              j2 = j1\<lparr>j_serverRaw := raw, j_server := server, j_valid := ok2\<rparr>
          in if \<not> ok2 then j2
          else
            let (ok3, resource) =
                  (case slash of None \<Rightarrow> (True, j_resource j2)
                   | Some sl \<Rightarrow> prep (drop (sl + 1) s) (j_resource j2));
                j3 = j2\<lparr>j_resource := resource, j_valid := ok3\<rparr>
            in if \<not> ok3 then j3 else setStrings j3)"

definition JID :: "string \<Rightarrow> jid" where
  "JID s = setJID (empty_JID\<lparr>j_valid := True\<rparr>) s"

text \<open>\<open>operator==(const std::string&)\<close>.\<close>

definition jid_eq :: "jid \<Rightarrow> string \<Rightarrow> bool" where
  "jid_eq j s \<longleftrightarrow> j_full j = s"

section \<open>Data forms and ad-hoc commands\<close>

datatype field_type =
  TypeBoolean | TypeFixed | TypeHidden | TypeJidMulti | TypeJidSingle | TypeListMulti
| TypeListSingle | TypeTextMulti | TypeTextPrivate | TypeTextSingle | TypeNone | TypeInvalid

definition fieldTypeValues :: "string list" where
  "fieldTypeValues = [''boolean'', ''fixed'', ''hidden'', ''jid-multi'', ''jid-single'',
     ''list-multi'', ''list-single'', ''text-multi'', ''text-private'', ''text-single'', '''']"

definition field_type_of :: "nat \<Rightarrow> field_type" where
  "field_type_of n =
     (if n < 11 then
        [TypeBoolean, TypeFixed, TypeHidden, TypeJidMulti, TypeJidSingle, TypeListMulti,
         TypeListSingle, TypeTextMulti, TypeTextPrivate, TypeTextSingle, TypeNone] ! n
      else TypeInvalid)"

record form_field =
  ff_type :: field_type
  ff_name :: string
  ff_values :: "string list"

definition new_field :: "string \<Rightarrow> string \<Rightarrow> field_type \<Rightarrow> form_field" where
  "new_field name value type = \<lparr>ff_type = type, ff_name = name, ff_values = [value]\<rparr>"

definition field_values :: "field_type \<Rightarrow> tag list \<Rightarrow> string list" where
  "field_values type l =
     foldl (\<lambda>vs c.
        if tag_name c = ''value'' then
          if type \<in> {TypeTextMulti, TypeListMulti, TypeJidMulti} then vs @ [cdata c] else [cdata c]
        else vs) [] l"

definition parse_field :: "tag \<Rightarrow> form_field" where
  "parse_field t =
     (let ty = findAttribute t ''type'';
          type = (if ty = [] then (if tag_name t \<noteq> [] then TypeNone else TypeInvalid)
                  else field_type_of (lookup ty fieldTypeValues))
      in \<lparr>ff_type = type, ff_name = findAttribute t ''var'', ff_values = field_values type (children t)\<rparr>)"

text \<open>\<open>DataFormField::value()\<close> is \<open>m_values.front()\<close>: undefined on an empty list.\<close>

definition field_value :: "form_field \<Rightarrow> string option" where
  "field_value f = (case ff_values f of [] \<Rightarrow> None | v # _ \<Rightarrow> Some v)"

datatype form_type = TypeForm | TypeSubmit | TypeCancel | TypeResult | TypeFormInvalid

definition dfTypeValues :: "string list" where
  "dfTypeValues = [''form'', ''submit'', ''cancel'', ''result'']"

definition form_type_of :: "nat \<Rightarrow> form_type" where
  "form_type_of n =
     (if n < 4 then [TypeForm, TypeSubmit, TypeCancel, TypeResult] ! n else TypeFormInvalid)"

record data_form =
  df_type :: form_type
  df_fields :: "form_field list"

definition XMLNS_X_DATA :: string where "XMLNS_X_DATA = ''jabber:x:data''"

definition XMLNS_ADHOC_COMMANDS :: string where
  "XMLNS_ADHOC_COMMANDS = ''http://jabber.org/protocol/commands''"

definition parse_form :: "tag \<Rightarrow> data_form" where
  "parse_form t =
     (if tag_xmlns t \<noteq> XMLNS_X_DATA \<or> tag_name t \<noteq> ''x'' then \<lparr>df_type = TypeFormInvalid, df_fields = []\<rparr>
      else
        let ty = findAttribute t ''type'';
            type = (if ty = [] then TypeForm else form_type_of (lookup ty dfTypeValues))
        in if type = TypeFormInvalid then \<lparr>df_type = type, df_fields = []\<rparr>
           else \<lparr>df_type = type,
                  df_fields = map parse_field (filter (\<lambda>c. tag_name c = ''field'') (children t))\<rparr>)"

text \<open>\<open>DataFormFieldContainer::field\<close> and \<open>addField\<close>.\<close>

definition df_field :: "data_form \<Rightarrow> string \<Rightarrow> form_field option" where
  "df_field df name = find (\<lambda>f. ff_name f = name) (df_fields df)"

definition addField :: "form_field \<Rightarrow> data_form \<Rightarrow> data_form" where
  "addField f df = df\<lparr>df_fields := df_fields df @ [f]\<rparr>"

record command =
  cmd_node :: string
  cmd_sessionid :: string
  cmd_form :: "data_form option"

definition parse_command :: "tag \<Rightarrow> command" where
  "parse_command t =
     (if tag_name t \<noteq> ''command'' \<or> tag_xmlns t \<noteq> XMLNS_ADHOC_COMMANDS
      then \<lparr>cmd_node = '''', cmd_sessionid = '''', cmd_form = None\<rparr>
      else \<lparr>cmd_node = findAttribute t ''node'', cmd_sessionid = findAttribute t ''sessionid'',
             cmd_form = map_option parse_form (findChildAttr t ''x'' ''xmlns'' XMLNS_X_DATA)\<rparr>)"

section \<open>PubSub events\<close>

datatype event_type =
  EventCollection | EventConfigure | EventDelete | EventItems | EventItemsRetract | EventPurge
| EventUnknown

definition eventTypeValues :: "string list" where
  "eventTypeValues =
     [''collection'', ''configuration'', ''delete'', ''items'', ''items'', ''purge'']"

definition event_type_of :: "nat \<Rightarrow> event_type" where
  "event_type_of n =
     (if n < 6 then
        [EventCollection, EventConfigure, EventDelete, EventItems, EventItemsRetract, EventPurge] ! n
      else EventUnknown)"

record item_op =
  io_retract :: bool
  io_item :: string
  io_payload :: tag

record pubsub_event =
  pe_type :: event_type
  pe_node :: string
  pe_subids :: "string list option"
  pe_collection :: string
  pe_items :: "item_op list"
  pe_valid :: bool

definition item_of :: "tag \<Rightarrow> item_op" where
  "item_of t = \<lparr>io_retract = (tag_name t = ''retract''), io_item = findAttribute t ''id'', io_payload = t\<rparr>"

definition add_header :: "pubsub_event \<Rightarrow> tag \<Rightarrow> pubsub_event" where
  "add_header e h =
     (let name = findAttribute h ''name'' in
      if name = ''pubsub#subid'' then e\<lparr>pe_subids := map_option (\<lambda>ids. ids @ [cdata h]) (pe_subids e)\<rparr>
      else if name = ''pubsub#collection'' then e\<lparr>pe_collection := cdata h\<rparr>
      else e)"

text \<open>
  The loop of \<open>Event::Event(const Tag*)\<close> over the children of the event. The table of type
  names lists \<open>items\<close> twice, so \<^const>\<open>EventItemsRetract\<close> is never looked up. The
  configuration form is not kept.
\<close>

fun event_loop :: "tag list \<Rightarrow> pubsub_event \<Rightarrow> pubsub_event" where
  "event_loop [] e = e\<lparr>pe_valid := True\<rparr>"
| "event_loop (t # ts) e =
     (let type = event_type_of (lookup (tag_name t) eventTypeValues) in
      case type of
        EventCollection \<Rightarrow>
          event_loop ts
            (case findChild t ''node'' of None \<Rightarrow> e\<lparr>pe_type := type\<rparr>
             | Some n \<Rightarrow> e\<lparr>pe_node := findAttribute n ''id'', pe_type := type\<rparr>)
      | EventConfigure \<Rightarrow> event_loop ts (e\<lparr>pe_node := findAttribute t ''node'', pe_type := type\<rparr>)
      | EventDelete \<Rightarrow> event_loop ts (e\<lparr>pe_node := findAttribute t ''node'', pe_type := type\<rparr>)
      | EventPurge \<Rightarrow> event_loop ts (e\<lparr>pe_node := findAttribute t ''node'', pe_type := type\<rparr>)
      | EventItems \<Rightarrow>
          event_loop ts (e\<lparr>pe_node := findAttribute t ''node'',
            pe_items := pe_items e @ map item_of (children t), pe_type := type\<rparr>)
      | EventItemsRetract \<Rightarrow>
          event_loop ts (e\<lparr>pe_node := findAttribute t ''node'',
            pe_items := pe_items e @ map item_of (children t), pe_type := type\<rparr>)
      | EventUnknown \<Rightarrow>
          (if tag_name t \<noteq> ''headers'' \<or> pe_subids e \<noteq> None then e\<lparr>pe_valid := False\<rparr>
           else event_loop ts (foldl add_header (e\<lparr>pe_subids := Some []\<rparr>) (children t))))"

definition parse_event :: "tag \<Rightarrow> pubsub_event" where
  "parse_event t =
     (let e = \<lparr>pe_type = EventUnknown, pe_node = '''', pe_subids = None, pe_collection = '''',
               pe_items = [], pe_valid = False\<rparr>
      in if tag_name t \<noteq> ''event'' then e else event_loop (children t) e)"

section \<open>Stanzas\<close>

text \<open>\<open>Error\<close>: the numeric \<open>StanzaError\<close> and the default text.\<close>

record gerror =
  ge_error :: int
  ge_text :: string

datatype iq_type = IqGet | IqSet | IqResult | IqError | IqInvalid

text \<open>
  \<open>IQ\<close> and \<open>Message\<close>. The extension fields hold what \<open>findExtension\<close> answers for the
  extension types the OnSIP code asks for; \<open>msg_subscribed\<close> is the tag of its own
  \<open>PubSubSubscribedExt\<close>.
\<close>

record iq =
  iq_subtype :: iq_type
  iq_id :: string
  iq_to :: jid
  iq_from :: jid
  iq_tag :: "tag option"
  iq_error :: "gerror option"
  iq_command :: "command option"

record message =
  msg_id :: string
  msg_to :: jid
  msg_from :: jid
  msg_tag :: "tag option"
  msg_error :: "gerror option"
  msg_event :: "pubsub_event option"
  msg_subscribed :: "tag option"

section \<open>Properties of the parsers\<close>

lemma event_type_of_lookup:
  "event_type_of (lookup s eventTypeValues) =
     (if s = ''collection'' then EventCollection else if s = ''configuration'' then EventConfigure
      else if s = ''delete'' then EventDelete else if s = ''items'' then EventItems
      else if s = ''purge'' then EventPurge else EventUnknown)"
  by (simp add: eventTypeValues_def event_type_of_def)

lemma event_type_never_retract: "event_type_of (lookup s eventTypeValues) \<noteq> EventItemsRetract"
  by (simp add: event_type_of_lookup)

lemma parse_command_node: "cmd_node (parse_command t) = n \<Longrightarrow> n \<noteq> [] \<Longrightarrow> findAttribute t ''node'' = n"
  by (auto simp: parse_command_def split: if_splits)

lemma form_field_Some: "df_field df name = Some f \<Longrightarrow> f \<in> set (df_fields df) \<and> ff_name f = name"
  unfolding df_field_def by (drule find_SomeD) simp

lemma findChild_Some: "findChild t name = Some c \<Longrightarrow> c \<in> set (children t) \<and> tag_name c = name"
  unfolding findChild_def by (drule find_SomeD) simp

end
