(* ===== verification/XmppEvents.thy ===== *)
theory XmppEvents
  imports Gloox
begin

text \<open>
  \<open>OnSipCore/OnSipXmppEvents.h/.cpp\<close>, \<open>glooxHelper.h\<close> and \<open>OnSipStanzaExtensions.cpp\<close>: the
  events the state machines consume and the factories that recognise them in the stanzas.
  The class hierarchy of \<open>XmppEvent\<close> is one record whose body is the subclass. A factory
  returns \<open>Some None\<close> for a null pointer and \<open>None\<close> where the code dereferences one. The
  \<open>ToString\<close> renderings, used by the log only, are left out.
\<close>

datatype evt_type =
  EVT_PUBSUB_AUTH | EVT_IQ_CALLREQUEST | EVT_PUBSUB_SUBSCRIBE | EVT_PUBSUB_ACTIVECALL_EVENT
| EVT_PUBSUB_RETRACTCALL_EVENT | EVT_ONCONNECT | EVT_ONDISCONNECT | EVT_IQ_RESULT
| EVT_DROP_REQUEST | EVT_SHUTDOWN_REQUEST

datatype dialog_state = DS_UNKNOWN | DS_CREATED | DS_CONFIRMED | DS_REQUESTED

record active_call =
  ac_dialogState :: dialog_state
  ac_to_aor :: string
  ac_sipCallid :: string
  ac_from_uri :: string
  ac_to_uri :: string
  ac_from_tag :: string
  ac_to_tag :: string
  ac_branch :: string
  ac_call_setup_id :: string

record subscribed =
  ps_subscription :: string
  ps_node :: string
  ps_jid :: string
  ps_subscribed :: bool
  ps_subid :: string

datatype event_body =
  AuthBody (expireDate: string)
| CallRequestBody (call_setup_id: string)
| IqResultBody
| SubscribedBody subscribed
| ActiveCallBody active_call
| RetractBody
| OnConnectBody
| OnDisconnectBody
| DropRequestBody (dre_callId: long)
| ShutdownBody

record xmpp_event =
  xe_type :: evt_type
  xe_id :: string
  xe_to :: jid
  xe_from :: jid
  xe_tag :: "tag option"
  xe_bError :: bool
  xe_error :: string
  xe_errorCode :: int
  xe_context :: long
  xe_body :: event_body

text \<open>The constructor logs \<open>tag->xml()\<close> when there is an error.\<close>

definition new_event ::
  "evt_type \<Rightarrow> event_body \<Rightarrow> string \<Rightarrow> jid \<Rightarrow> jid \<Rightarrow> tag option \<Rightarrow> gerror option \<Rightarrow> long \<Rightarrow> xmpp_event option" where
  "new_event type body eid eto efrom tg error context =
     (case error of
        None \<Rightarrow>
          Some \<lparr>xe_type = type, xe_id = eid, xe_to = eto, xe_from = efrom, xe_tag = tg,
            xe_bError = False, xe_error = '''', xe_errorCode = 0, xe_context = context, xe_body = body\<rparr>
      | Some e \<Rightarrow>
          if tg = None then None
          else Some \<lparr>xe_type = type, xe_id = eid, xe_to = eto, xe_from = efrom, xe_tag = tg,
            xe_bError = True, xe_error = ge_text e, xe_errorCode = ge_error e,
            xe_context = context, xe_body = body\<rparr>)"

definition simple_event :: "evt_type \<Rightarrow> event_body \<Rightarrow> xmpp_event" where
  "simple_event type body =
     \<lparr>xe_type = type, xe_id = '''', xe_to = empty_JID, xe_from = empty_JID, xe_tag = None,
       xe_bError = False, xe_error = '''', xe_errorCode = 0, xe_context = 0, xe_body = body\<rparr>"

abbreviation IsError :: "xmpp_event \<Rightarrow> bool" where "IsError \<equiv> xe_bError"

definition OnConnectEvent :: xmpp_event where
  "OnConnectEvent = simple_event EVT_ONCONNECT OnConnectBody"

definition OnDisconnectEvent :: xmpp_event where
  "OnDisconnectEvent = simple_event EVT_ONDISCONNECT OnDisconnectBody"

definition connectFactory :: "bool \<Rightarrow> xmpp_event" where
  "connectFactory bConnect = (if bConnect then OnConnectEvent else OnDisconnectEvent)"

definition DropRequestEvent :: "long \<Rightarrow> xmpp_event" where
  "DropRequestEvent callId = simple_event EVT_DROP_REQUEST (DropRequestBody callId)"

definition ShutdownRequestEvent :: xmpp_event where
  "ShutdownRequestEvent = simple_event EVT_SHUTDOWN_REQUEST ShutdownBody"

section \<open>Recognising IQ results\<close>

definition ONSIP_AUTH_NODE :: string where "ONSIP_AUTH_NODE = ''authorize-plain''"
definition ONSIP_AUTH_COMMAND :: string where "ONSIP_AUTH_COMMAND = ''commands.auth.xmpp.onsip.com''"
definition ONSIP_PUBSUB_ACTIVECALLS :: string where
  "ONSIP_PUBSUB_ACTIVECALLS = ''pubsub.active-calls.xmpp.onsip.com''"
definition ONSIP_ACTIVECALLS_COMMAND :: string where
  "ONSIP_ACTIVECALLS_COMMAND = ''commands.active-calls.xmpp.onsip.com''"

definition is_reply :: "iq \<Rightarrow> bool" where
  "is_reply i \<longleftrightarrow> iq_subtype i = IqResult \<or> iq_subtype i = IqError"

text \<open>\<open>frm->field(name)->value()\<close>, with the field pointer only asserted.\<close>

definition form_value :: "data_form \<Rightarrow> string \<Rightarrow> string option" where
  "form_value frm name = df_field frm name \<bind> field_value"

definition AuthEvent_checkEvent :: "iq \<Rightarrow> long \<Rightarrow> xmpp_event option option" where
  "AuthEvent_checkEvent i context =
     (case iq_command i of None \<Rightarrow> Some None
      | Some cmd \<Rightarrow>
          if \<not> is_reply i then Some None
          else case cmd_form cmd of None \<Rightarrow> Some None
          | Some frm \<Rightarrow>
              if cmd_node cmd \<noteq> ONSIP_AUTH_NODE then Some None
              else if iq_error i \<noteq> None then
                map_option Some
                  (new_event EVT_PUBSUB_AUTH (AuthBody '''') (iq_id i) (iq_to i) (iq_from i) (iq_tag i)
                     (iq_error i) context)
              else do {
                v \<leftarrow> form_value frm ''expires'';
                map_option Some
                  (new_event EVT_PUBSUB_AUTH (AuthBody v) (iq_id i) (iq_to i) (iq_from i) (iq_tag i)
                     None context)
              })"

definition CallRequestEvent_checkEvent :: "iq \<Rightarrow> long \<Rightarrow> xmpp_event option option" where
  "CallRequestEvent_checkEvent i context =
     (case iq_command i of None \<Rightarrow> Some None
      | Some cmd \<Rightarrow>
          if \<not> is_reply i then Some None
          else case cmd_form cmd of None \<Rightarrow> Some None
          | Some frm \<Rightarrow>
              if \<not> (cmd_node cmd = ''create'' \<and> jid_eq (iq_from i) ONSIP_ACTIVECALLS_COMMAND)
              then Some None
              else if iq_error i \<noteq> None then
                map_option Some
                  (new_event EVT_IQ_CALLREQUEST (CallRequestBody '''') (iq_id i) (iq_to i) (iq_from i)
                     (iq_tag i) (iq_error i) context)
              else do {
                v \<leftarrow> form_value frm ''call-setup-id'';
                map_option Some
                  (new_event EVT_IQ_CALLREQUEST (CallRequestBody v) (iq_id i) (iq_to i) (iq_from i)
                     (iq_tag i) None context)
              })"

definition IqResultEvent_checkEvent :: "iq \<Rightarrow> long \<Rightarrow> xmpp_event option option" where
  "IqResultEvent_checkEvent i context =
     (if is_reply i then
        map_option Some
          (new_event EVT_IQ_RESULT IqResultBody (iq_id i) (iq_to i) (iq_from i) (iq_tag i)
             (iq_error i) context)
      else Some None)"

definition iqFactory :: "iq \<Rightarrow> long \<Rightarrow> xmpp_event option option" where
  "iqFactory i context = do {
     evt \<leftarrow> AuthEvent_checkEvent i context;
     (case evt of Some _ \<Rightarrow> Some evt
      | None \<Rightarrow> do {
          evt \<leftarrow> CallRequestEvent_checkEvent i context;
          (case evt of Some _ \<Rightarrow> Some evt | None \<Rightarrow> IqResultEvent_checkEvent i context)
        })
   }"

section \<open>Recognising messages\<close>

definition getChildText :: "tag option \<Rightarrow> string \<Rightarrow> string" where
  "getChildText parentTag childName =
     (case parentTag of None \<Rightarrow> ''''
      | Some p \<Rightarrow> (case findChild p childName of None \<Rightarrow> '''' | Some c \<Rightarrow> cdata c))"

text \<open>\<open>PubSubSubscribedExt::_parse\<close>: node, jid and subscription of the extension's tag.\<close>

definition subscribed_parse :: "tag \<Rightarrow> string \<times> string \<times> string" where
  "subscribed_parse t =
     (if tag_name t \<noteq> ''subscription'' then ('''', '''', '''')
      else (findAttribute t ''node'', findAttribute t ''jid'', findAttribute t ''subscription''))"

definition SubscribedEvent_checkEvent :: "message \<Rightarrow> xmpp_event option option" where
  "SubscribedEvent_checkEvent m =
     (case msg_subscribed m of None \<Rightarrow> Some None
      | Some t \<Rightarrow>
          (let (nd, jd, sub) = subscribed_parse t in
           map_option Some
             (new_event EVT_PUBSUB_SUBSCRIBE
                (SubscribedBody \<lparr>ps_subscription = sub, ps_node = nd, ps_jid = jd,
                   ps_subscribed = (sub = ''subscribed''), ps_subid = findAttribute t ''subid''\<rparr>)
                (msg_id m) (msg_to m) (msg_from m) (Some t) (msg_error m) 0)))"

definition convertDialogState :: "string \<Rightarrow> dialog_state" where
  "convertDialogState s =
     (if s = ''created'' then DS_CREATED else if s = ''confirmed'' then DS_CONFIRMED
      else if s = ''requested'' then DS_REQUESTED else DS_UNKNOWN)"

fun DialogStateToString :: "dialog_state \<Rightarrow> string" where
  "DialogStateToString DS_CREATED = ''created''"
| "DialogStateToString DS_CONFIRMED = ''confirmed''"
| "DialogStateToString DS_REQUESTED = ''requested''"
| "DialogStateToString DS_UNKNOWN = ''unknown''"

definition active_call_of :: "tag \<Rightarrow> active_call" where
  "active_call_of t =
     \<lparr>ac_dialogState = convertDialogState (getChildText (Some t) ''dialog-state''),
       ac_to_aor = getChildText (Some t) ''to-aor'',
       ac_sipCallid = getChildText (Some t) ''call-id'',
       ac_from_uri = getChildText (Some t) ''from-uri'',
       ac_to_uri = getChildText (Some t) ''to-uri'',
       ac_from_tag = getChildText (Some t) ''from-tag'',
       ac_to_tag = getChildText (Some t) ''to-tag'',
       ac_branch = getChildText (Some t) ''branch'',
       ac_call_setup_id = getChildText (Some t) ''call-setup-id''\<rparr>"

text \<open>The single item of an active-calls notification.\<close>

definition single_item :: "message \<Rightarrow> item_op option" where
  "single_item m =
     (case msg_event m of None \<Rightarrow> None
      | Some pse \<Rightarrow>
          if length (pe_items pse) \<noteq> 1 \<or> pe_type pse \<noteq> EventItems
             \<or> \<not> jid_eq (msg_from m) ONSIP_PUBSUB_ACTIVECALLS then None
          else Some (hd (pe_items pse)))"

definition ActiveCallEvent_checkEvent :: "message \<Rightarrow> xmpp_event option option" where
  "ActiveCallEvent_checkEvent m =
     (case single_item m of None \<Rightarrow> Some None
      | Some item \<Rightarrow>
          (case findChildAttr (io_payload item) ''active-call'' ''xmlns'' ''onsip:active-calls'' of
             None \<Rightarrow> Some None
           | Some activeCall \<Rightarrow>
               map_option Some
                 (new_event EVT_PUBSUB_ACTIVECALL_EVENT (ActiveCallBody (active_call_of activeCall))
                    (io_item item) (msg_to m) (msg_from m) (msg_tag m) (msg_error m) 0)))"

definition RetractCallEvent_checkEvent :: "message \<Rightarrow> xmpp_event option option" where
  "RetractCallEvent_checkEvent m =
     (case single_item m of None \<Rightarrow> Some None
      | Some item \<Rightarrow>
          if \<not> io_retract item then Some None
          else map_option Some
                 (new_event EVT_PUBSUB_RETRACTCALL_EVENT RetractBody (io_item item)
                    (msg_to m) (msg_from m) (msg_tag m) (msg_error m) 0))"

definition msgFactory :: "message \<Rightarrow> xmpp_event option option" where
  "msgFactory m = do {
     evt \<leftarrow> SubscribedEvent_checkEvent m;
     (case evt of Some _ \<Rightarrow> Some evt
      | None \<Rightarrow> do {
          evt \<leftarrow> ActiveCallEvent_checkEvent m;
          (case evt of Some _ \<Rightarrow> Some evt | None \<Rightarrow> RetractCallEvent_checkEvent m)
        })
   }"

section \<open>The casts of OnSipCallStateHelper\<close>

text \<open>Each getter tests \<open>m_type\<close> and then casts; the cast is the body's constructor.\<close>

definition getActiveCallEvent :: "xmpp_event \<Rightarrow> active_call option" where
  "getActiveCallEvent e =
     (if xe_type e \<noteq> EVT_PUBSUB_ACTIVECALL_EVENT then None
      else case xe_body e of ActiveCallBody ac \<Rightarrow> Some ac | _ \<Rightarrow> None)"

definition getDropRequestEvent :: "xmpp_event \<Rightarrow> long option" where
  "getDropRequestEvent e =
     (if xe_type e \<noteq> EVT_DROP_REQUEST then None
      else case xe_body e of DropRequestBody c \<Rightarrow> Some c | _ \<Rightarrow> None)"

definition getShutdownRequestEvent :: "xmpp_event \<Rightarrow> bool" where
  "getShutdownRequestEvent e \<longleftrightarrow> xe_type e = EVT_SHUTDOWN_REQUEST \<and> xe_body e = ShutdownBody"

definition getRetractCallEvent :: "xmpp_event \<Rightarrow> bool" where
  "getRetractCallEvent e \<longleftrightarrow> xe_type e = EVT_PUBSUB_RETRACTCALL_EVENT \<and> xe_body e = RetractBody"

definition getXmppIqResultEvent :: "xmpp_event \<Rightarrow> bool" where
  "getXmppIqResultEvent e \<longleftrightarrow> xe_type e = EVT_IQ_RESULT \<and> xe_body e = IqResultBody"

definition getOnConnectEvent :: "xmpp_event \<Rightarrow> bool" where
  "getOnConnectEvent e \<longleftrightarrow> xe_type e = EVT_ONCONNECT \<and> xe_body e = OnConnectBody"

definition getOnDisconnectEvent :: "xmpp_event \<Rightarrow> bool" where
  "getOnDisconnectEvent e \<longleftrightarrow> xe_type e = EVT_ONDISCONNECT \<and> xe_body e = OnDisconnectBody"

definition getAuthEvent :: "xmpp_event \<Rightarrow> string option" where
  "getAuthEvent e =
     (if xe_type e \<noteq> EVT_PUBSUB_AUTH then None
      else case xe_body e of AuthBody d \<Rightarrow> Some d | _ \<Rightarrow> None)"

definition getCallRequestIqEvent :: "xmpp_event \<Rightarrow> string option" where
  "getCallRequestIqEvent e =
     (if xe_type e \<noteq> EVT_IQ_CALLREQUEST then None
      else case xe_body e of CallRequestBody c \<Rightarrow> Some c | _ \<Rightarrow> None)"

definition getPubSubSubscribedEvent :: "xmpp_event \<Rightarrow> subscribed option" where
  "getPubSubSubscribedEvent e =
     (if xe_type e \<noteq> EVT_PUBSUB_SUBSCRIBE then None
      else case xe_body e of SubscribedBody s \<Rightarrow> Some s | _ \<Rightarrow> None)"

definition IsSameId :: "xmpp_event option \<Rightarrow> xmpp_event option \<Rightarrow> bool" where
  "IsSameId e1 e2 =
     (case (e1, e2) of (Some a, Some b) \<Rightarrow> xe_id a = xe_id b | _ \<Rightarrow> False)"

definition IsSameContext :: "xmpp_event option \<Rightarrow> xmpp_event option \<Rightarrow> bool" where
  "IsSameContext e1 e2 =
     (case (e1, e2) of (Some a, Some b) \<Rightarrow> xe_context a = xe_context b | _ \<Rightarrow> False)"

section \<open>Correctness of the factories\<close>

fun body_type :: "event_body \<Rightarrow> evt_type" where
  "body_type (AuthBody _) = EVT_PUBSUB_AUTH"
| "body_type (CallRequestBody _) = EVT_IQ_CALLREQUEST"
| "body_type IqResultBody = EVT_IQ_RESULT"
| "body_type (SubscribedBody _) = EVT_PUBSUB_SUBSCRIBE"
| "body_type (ActiveCallBody _) = EVT_PUBSUB_ACTIVECALL_EVENT"
| "body_type RetractBody = EVT_PUBSUB_RETRACTCALL_EVENT"
| "body_type OnConnectBody = EVT_ONCONNECT"
| "body_type OnDisconnectBody = EVT_ONDISCONNECT"
| "body_type (DropRequestBody _) = EVT_DROP_REQUEST"
| "body_type ShutdownBody = EVT_SHUTDOWN_REQUEST"

definition well_typed :: "xmpp_event \<Rightarrow> bool" where
  "well_typed e \<longleftrightarrow> xe_type e = body_type (xe_body e)"

lemma new_event_Some:
  "new_event type body eid eto efrom tg err ctx = Some e \<Longrightarrow>
     xe_type e = type \<and> xe_body e = body \<and> xe_id e = eid \<and> xe_context e = ctx \<and>
     (IsError e \<longleftrightarrow> err \<noteq> None)"
  by (auto simp: new_event_def split: option.splits if_splits)

lemma new_event_None_iff [simp]:
  "new_event type body eid eto efrom tg err ctx = None \<longleftrightarrow> err \<noteq> None \<and> tg = None"
  by (auto simp: new_event_def split: option.splits)

lemma checkEvent_iq_typed:
  "AuthEvent_checkEvent i ctx = Some (Some e) \<Longrightarrow> well_typed e \<and> xe_context e = ctx \<and> (IsError e \<longleftrightarrow> iq_error i \<noteq> None)"
  "CallRequestEvent_checkEvent i ctx = Some (Some e) \<Longrightarrow> well_typed e \<and> xe_context e = ctx \<and> (IsError e \<longleftrightarrow> iq_error i \<noteq> None)"
  "IqResultEvent_checkEvent i ctx = Some (Some e) \<Longrightarrow> well_typed e \<and> xe_context e = ctx \<and> (IsError e \<longleftrightarrow> iq_error i \<noteq> None)"
  by (auto simp: AuthEvent_checkEvent_def CallRequestEvent_checkEvent_def IqResultEvent_checkEvent_def
      well_typed_def bind_eq_Some_conv split: option.splits if_splits dest!: new_event_Some)

lemma checkEvent_msg_typed:
  "SubscribedEvent_checkEvent m = Some (Some e) \<Longrightarrow> well_typed e \<and> xe_context e = 0 \<and> (IsError e \<longleftrightarrow> msg_error m \<noteq> None)"
  "ActiveCallEvent_checkEvent m = Some (Some e) \<Longrightarrow> well_typed e \<and> xe_context e = 0 \<and> (IsError e \<longleftrightarrow> msg_error m \<noteq> None)"
  "RetractCallEvent_checkEvent m = Some (Some e) \<Longrightarrow> well_typed e \<and> xe_context e = 0 \<and> (IsError e \<longleftrightarrow> msg_error m \<noteq> None)"
  by (auto simp: SubscribedEvent_checkEvent_def ActiveCallEvent_checkEvent_def RetractCallEvent_checkEvent_def
      well_typed_def split: option.splits if_splits prod.splits dest!: new_event_Some)

lemma iqFactory_cases:
  "iqFactory i ctx = Some (Some e) \<Longrightarrow>
     AuthEvent_checkEvent i ctx = Some (Some e) \<or> CallRequestEvent_checkEvent i ctx = Some (Some e)
     \<or> IqResultEvent_checkEvent i ctx = Some (Some e)"
  by (auto simp: iqFactory_def bind_eq_Some_conv split: option.splits)

lemma msgFactory_cases:
  "msgFactory m = Some (Some e) \<Longrightarrow>
     SubscribedEvent_checkEvent m = Some (Some e) \<or> ActiveCallEvent_checkEvent m = Some (Some e)
     \<or> RetractCallEvent_checkEvent m = Some (Some e)"
  by (auto simp: msgFactory_def bind_eq_Some_conv split: option.splits)

lemma iqFactory_typed:
  "iqFactory i ctx = Some (Some e) \<Longrightarrow>
     well_typed e \<and> xe_context e = ctx \<and> (IsError e \<longleftrightarrow> iq_error i \<noteq> None)"
  by (auto dest!: iqFactory_cases checkEvent_iq_typed)

lemma msgFactory_typed:
  "msgFactory m = Some (Some e) \<Longrightarrow>
     well_typed e \<and> xe_context e = 0 \<and> (IsError e \<longleftrightarrow> msg_error m \<noteq> None)"
  by (auto dest!: msgFactory_cases checkEvent_msg_typed)

definition sample_iq :: iq where
  "sample_iq = \<lparr>iq_subtype = IqResult, iq_id = ''uid3'', iq_to = JID ''alice@dashboard.onsip.com'',
     iq_from = JID ''commands.auth.xmpp.onsip.com'', iq_tag = Some (Tag ''iq'' '''' [] []),
     iq_error = None,
     iq_command = Some \<lparr>cmd_node = ''authorize-plain'', cmd_sessionid = '''',
       cmd_form = Some \<lparr>df_type = TypeResult,
         df_fields = [new_field ''expires'' ''2009-11-31T23:59Z'' TypeTextSingle]\<rparr>\<rparr>\<rparr>"

lemma sample_iq_event: "iqFactory sample_iq 7 \<noteq> None \<and> iqFactory sample_iq 7 \<noteq> Some None"
  by (simp add: sample_iq_def iqFactory_def AuthEvent_checkEvent_def is_reply_def ONSIP_AUTH_NODE_def
      form_value_def df_field_def new_field_def field_value_def new_event_def)

section \<open>Properties\<close>

text \<open>
  C32. Type safety of the events: whatever stanza arrives, an event built by \<open>iqFactory\<close> or
  \<open>msgFactory\<close> carries the \<open>m_type\<close> of its class (so the \<open>dynamic_cast\<close> behind every getter of
  \<open>OnSipCallStateHelper\<close> succeeds exactly when the type test does), is flagged as an error
  exactly when the stanza has one, and keeps the context the IQ was tracked with.
\<close>
theorem factories_well_typed:
  "(iqFactory i ctx = Some (Some e) \<longrightarrow>
      well_typed e \<and> xe_context e = ctx \<and> (IsError e \<longleftrightarrow> iq_error i \<noteq> None)) \<and>
   (msgFactory m = Some (Some e') \<longrightarrow>
      well_typed e' \<and> xe_context e' = 0 \<and> (IsError e' \<longleftrightarrow> msg_error m \<noteq> None))"
  using iqFactory_typed msgFactory_typed by blast

theorem factories_well_typed_witness:
  "\<exists>e. iqFactory sample_iq 7 = Some (Some e) \<and> well_typed e \<and> xe_context e = 7 \<and> \<not> IsError e"
proof -
  from sample_iq_event obtain e where e: "iqFactory sample_iq 7 = Some (Some e)" by auto
  with factories_well_typed [of sample_iq 7 e] show ?thesis by (auto simp: sample_iq_def)
qed

text \<open>
  C33. Exactly when \<open>iqFactory\<close> dereferences a null or empty pointer: on a reply that carries
  an error but no tag, or on an error-free reply recognised as the authorization or the
  call-request answer whose form lacks the \<open>expires\<close> (\<open>call-setup-id\<close>) field or has it without
  a value. The code only asserts that the field is there.
\<close>
theorem iqFactory_fault_iff:
  "iqFactory i ctx = None \<longleftrightarrow>
     is_reply i \<and>
     (if iq_error i \<noteq> None then iq_tag i = None
      else \<exists>cmd frm. iq_command i = Some cmd \<and> cmd_form cmd = Some frm \<and>
             (cmd_node cmd = ONSIP_AUTH_NODE \<and> form_value frm ''expires'' = None \<or>
              cmd_node cmd = ''create'' \<and> jid_eq (iq_from i) ONSIP_ACTIVECALLS_COMMAND \<and>
                form_value frm ''call-setup-id'' = None))"
proof (cases "is_reply i")
  case False
  then show ?thesis
    by (auto simp: iqFactory_def AuthEvent_checkEvent_def CallRequestEvent_checkEvent_def
        IqResultEvent_checkEvent_def split: option.splits)
next
  case reply: True
  show ?thesis
  proof (cases "iq_error i")
    case (Some err)
    with reply show ?thesis
      by (auto simp: iqFactory_def AuthEvent_checkEvent_def CallRequestEvent_checkEvent_def
          IqResultEvent_checkEvent_def bind_eq_None_conv split: option.splits)
  next
    case None
    have ne: "''create'' \<noteq> ONSIP_AUTH_NODE" by (simp add: ONSIP_AUTH_NODE_def)
    from None reply ne show ?thesis
      by (auto simp: iqFactory_def AuthEvent_checkEvent_def CallRequestEvent_checkEvent_def
          IqResultEvent_checkEvent_def bind_eq_None_conv new_event_def split: option.splits)
  qed
qed

lemma children_simps [simp]:
  "children (Tag n x a []) = []"
  "children (Tag n x a (TypeTag t # ns)) = t # children (Tag n x a ns)"
  "children (Tag n x a (TypeString s # ns)) = children (Tag n x a ns)"
  by (simp_all add: children_def map_filter_simps)

lemma parse_event_single:
  "parse_event (Tag ''event'' x a [TypeTag (Tag ''items'' x' a' [TypeTag t])]) =
     \<lparr>pe_type = EventItems, pe_node = findAttribute (Tag ''items'' x' a' [TypeTag t]) ''node'',
       pe_subids = None, pe_collection = '''', pe_items = [item_of t], pe_valid = True\<rparr>"
  by (simp add: parse_event_def event_type_of_lookup)

text \<open>
  The notification of the PubSub service, from the XML tree to the event: an error-free
  message from the active-calls service whose \<open>event/items\<close> holds the one child \<open>t\<close> becomes an
  active-call event with the fields of its \<open>active-call\<close> element when it has one of that
  namespace, a retract event when \<open>t\<close> is a \<open>retract\<close>, and nothing otherwise; the event's id is
  the item id.
\<close>
theorem msgFactory_single_item:
  assumes "msg_subscribed m = None" and "msg_error m = None"
    and "j_full (msg_from m) = ONSIP_PUBSUB_ACTIVECALLS"
    and "msg_event m = Some (parse_event (Tag ''event'' x a [TypeTag (Tag ''items'' x' a' [TypeTag t])]))"
  shows "map_option (map_option (\<lambda>e. (xe_id e, xe_body e))) (msgFactory m) =
     Some (case findChildAttr t ''active-call'' ''xmlns'' ''onsip:active-calls'' of
        Some ac \<Rightarrow> Some (findAttribute t ''id'', ActiveCallBody (active_call_of ac))
      | None \<Rightarrow> if tag_name t = ''retract'' then Some (findAttribute t ''id'', RetractBody) else None)"
proof -
  have item: "single_item m = Some (item_of t)"
    using assms(3,4) by (simp add: single_item_def parse_event_single jid_eq_def)
  show ?thesis
    using assms(1,2)
    by (auto simp: msgFactory_def SubscribedEvent_checkEvent_def ActiveCallEvent_checkEvent_def
        RetractCallEvent_checkEvent_def item item_of_def new_event_def split: option.splits)
qed

definition sample_retract :: tag where
  "sample_retract = Tag ''retract'' '''' [(''id'', ''call1'')] []"

definition sample_message :: "tag \<Rightarrow> message" where
  "sample_message t = \<lparr>msg_id = ''m1'', msg_to = empty_JID, msg_from = JID ONSIP_PUBSUB_ACTIVECALLS,
     msg_tag = None, msg_error = None,
     msg_event = Some (parse_event (Tag ''event'' '''' [] [TypeTag (Tag ''items'' '''' [] [TypeTag t])])),
     msg_subscribed = None\<rparr>"

lemma JID_activecalls: "j_full (JID ONSIP_PUBSUB_ACTIVECALLS) = ONSIP_PUBSUB_ACTIVECALLS"
  by (simp add: JID_def setJID_def ONSIP_PUBSUB_ACTIVECALLS_def sfind_from_def prep_def
      JID_PORTION_SIZE_def setStrings_def setBare_def setFull_def empty_JID_def Let_def)

theorem msgFactory_single_item_example:
  "map_option (map_option (\<lambda>e. (xe_id e, xe_body e))) (msgFactory (sample_message sample_retract)) =
     Some (Some (''call1'', RetractBody))"
proof -
  have "findChildAttr sample_retract ''active-call'' ''xmlns'' ''onsip:active-calls'' = None"
    by (simp add: findChildAttr_def sample_retract_def)
  moreover have "tag_name sample_retract = ''retract''" "findAttribute sample_retract ''id'' = ''call1''"
    by (simp_all add: sample_retract_def findAttribute_def)
  ultimately show ?thesis
    using msgFactory_single_item [of "sample_message sample_retract" "''''" "[]" "''''" "[]" sample_retract]
    by (simp add: sample_message_def JID_activecalls)
qed

end
