(* ===== verification/CallData.thy ===== *)
theory CallData
  imports XmppEvents
begin

text \<open>
  The data of the call state machine (\<open>OnSipCallStateMachine.h/.cpp\<close>): the call states and
  types, the per-call record \<open>OnSipCallStateData\<close>, the branch list \<open>callBranches\<close> that keeps one
  entry per SIP device of a call, and \<open>OnSipCallStateHelper::AssignCallStateData\<close>. The branch
  list is related to a finite map from XMPP ids to call data, which its operations implement.
\<close>

datatype call_state =
  CS_Unknown | CS_Offering | CS_PhysicalOutProceeding | CS_Connected | CS_Dropped | CS_PreMakeCall
| CS_MakeCallSet | CS_MakeCallRequested | CS_MakeCallRequestedAnswered | CS_MakeCallOutgoingCreated
| CS_PreDropCall

fun CallStateToString :: "call_state \<Rightarrow> string" where
  "CallStateToString CS_Unknown = ''CallState::Unknown''"
| "CallStateToString CS_Offering = ''CallState::Offering''"
| "CallStateToString CS_PhysicalOutProceeding = ''CallState::PhysicalOutProceeding''"
| "CallStateToString CS_Connected = ''CallState::Connected''"
| "CallStateToString CS_Dropped = ''CallState::Dropped''"
| "CallStateToString CS_PreMakeCall = ''CallState::PreMakeCall''"
| "CallStateToString CS_MakeCallSet = ''CallState::MakeCallSet''"
| "CallStateToString CS_MakeCallRequested = ''CallState::MakeCallRequested''"
| "CallStateToString CS_MakeCallRequestedAnswered = ''CallState::MakeCallRequestedAnswered''"
| "CallStateToString CS_MakeCallOutgoingCreated = ''CallState::MakeCallOutgoingCreated''"
| "CallStateToString CS_PreDropCall = ''CallState::PreDropCall''"

datatype call_type = CT_Unknown | CT_MakeCall | CT_IncomingCall | CT_PhysicalCall

fun CallTypeToString :: "call_type \<Rightarrow> string" where
  "CallTypeToString CT_Unknown = ''CallType::Unknown''"
| "CallTypeToString CT_MakeCall = ''CallType::MakeCall''"
| "CallTypeToString CT_IncomingCall = ''CallType::IncomingCall''"
| "CallTypeToString CT_PhysicalCall = ''CallType::PhysicalCall''"

record call_data =
  m_id :: string
  m_callId :: long
  m_remoteId :: string
  m_calledId :: string
  m_sipCallId :: string
  m_callType :: call_type
  m_fromTag :: string
  m_toTag :: string
  m_branch :: string
  m_call_setup_id :: string

definition new_call_data :: call_data where
  "new_call_data = \<lparr>m_id = '''', m_callId = 0, m_remoteId = '''', m_calledId = '''', m_sipCallId = '''',
     m_callType = CT_Unknown, m_fromTag = '''', m_toTag = '''', m_branch = '''', m_call_setup_id = ''''\<rparr>"

definition SameBranch :: "call_data \<Rightarrow> string \<Rightarrow> bool" where
  "SameBranch d branch \<longleftrightarrow> m_branch d = branch"

definition SameCallSetupId :: "call_data \<Rightarrow> string \<Rightarrow> bool" where
  "SameCallSetupId d callSetupId \<longleftrightarrow> m_call_setup_id d \<noteq> [] \<and> m_call_setup_id d = callSetupId"

text \<open>
  \<open>AssignCallStateData\<close>; \<open>eid\<close> and \<open>ac\<close> are the id and the active-call fields of the event. A
  call id of -1 leaves the call id alone, a null \<open>szCallSetupId\<close> the setup id.
\<close>

definition AssignCallStateData ::
  "call_data \<Rightarrow> string \<Rightarrow> active_call \<Rightarrow> long \<Rightarrow> bool \<Rightarrow> string option \<Rightarrow> call_data" where
  "AssignCallStateData d eid ac callId bUpdateCallerId szCallSetupId =
     (let d = (if callId \<noteq> - 1 then d\<lparr>m_callId := callId\<rparr> else d);
          d = d\<lparr>m_id := eid, m_sipCallId := ac_sipCallid ac, m_branch := ac_branch ac\<rparr>;
          d = (if bUpdateCallerId
               then d\<lparr>m_remoteId := ac_from_uri ac, m_calledId := ac_to_uri ac\<rparr> else d);
          d = d\<lparr>m_fromTag := ac_from_tag ac, m_toTag := ac_to_tag ac\<rparr>
      in case szCallSetupId of None \<Rightarrow> d | Some s \<Rightarrow> d\<lparr>m_call_setup_id := c_str s\<rparr>)"

lemma Assign_id [simp]: "m_id (AssignCallStateData d eid ac c b s) = eid"
  by (simp add: AssignCallStateData_def Let_def split: option.split)

lemma Assign_callType [simp]: "m_callType (AssignCallStateData d eid ac c b s) = m_callType d"
  by (simp add: AssignCallStateData_def Let_def split: option.split)

lemma Assign_callId [simp]:
  "m_callId (AssignCallStateData d eid ac c b s) = (if c \<noteq> - 1 then c else m_callId d)"
  by (simp add: AssignCallStateData_def Let_def split: option.split)

lemma Assign_sipCallId [simp]: "m_sipCallId (AssignCallStateData d eid ac c b s) = ac_sipCallid ac"
  by (simp add: AssignCallStateData_def Let_def split: option.split)

lemma Assign_setup [simp]:
  "m_call_setup_id (AssignCallStateData d eid ac c b s) =
     (case s of None \<Rightarrow> m_call_setup_id d | Some x \<Rightarrow> c_str x)"
  by (simp add: AssignCallStateData_def Let_def split: option.split)

lemma Assign_tags [simp]:
  "m_fromTag (AssignCallStateData d eid ac c b s) = ac_from_tag ac"
  "m_toTag (AssignCallStateData d eid ac c b s) = ac_to_tag ac"
  by (simp_all add: AssignCallStateData_def Let_def split: option.split)

section \<open>Branches\<close>

type_synonym branches = "call_data list"

definition getIdIndex :: "string \<Rightarrow> branches \<Rightarrow> nat option" where
  "getIdIndex i bs = first_index (\<lambda>b. m_id b = i) bs"

definition HasId :: "string \<Rightarrow> branches \<Rightarrow> bool" where
  "HasId i bs \<longleftrightarrow> getIdIndex i bs \<noteq> None"

definition AddBranch :: "call_data \<Rightarrow> branches \<Rightarrow> branches" where
  "AddBranch d bs = (case getIdIndex (m_id d) bs of Some index \<Rightarrow> bs[index := d] | None \<Rightarrow> bs @ [d])"

definition AddBranchEvent ::
  "string \<Rightarrow> active_call \<Rightarrow> long \<Rightarrow> call_type \<Rightarrow> bool \<Rightarrow> string option \<Rightarrow> branches \<Rightarrow> branches" where
  "AddBranchEvent eid ac callId callType bUpdateCallerId szCallSetupId bs =
     (let d = AssignCallStateData (new_call_data\<lparr>m_callType := callType\<rparr>) eid ac callId
                bUpdateCallerId szCallSetupId
      in case getIdIndex eid bs of Some index \<Rightarrow> bs[index := d] | None \<Rightarrow> bs @ [d])"

fun removeById :: "string \<Rightarrow> branches \<Rightarrow> branches" where
  "removeById i [] = []"
| "removeById i (b # bs) = (if m_id b = i then bs else b # removeById i bs)"

definition CheckDroppedCall :: "call_data \<Rightarrow> string \<Rightarrow> branches \<Rightarrow> bool \<times> call_data \<times> branches" where
  "CheckDroppedCall callData droppedId bs =
     (if \<not> HasId droppedId bs then (False, callData, bs)
      else
        let bs' = removeById droppedId bs in
        if 0 < length bs' then (False, hd bs', bs') else (True, callData, bs'))"

section \<open>Branches as a map\<close>

definition branch_map :: "branches \<Rightarrow> string \<rightharpoonup> call_data" where
  "branch_map bs = map_of (map (\<lambda>b. (m_id b, b)) bs)"

definition branches_ok :: "branches \<Rightarrow> bool" where
  "branches_ok bs \<longleftrightarrow> distinct (map m_id bs)"

lemma AddBranchEvent_AddBranch:
  "AddBranchEvent eid ac callId ct upd s bs =
     AddBranch (AssignCallStateData (new_call_data\<lparr>m_callType := ct\<rparr>) eid ac callId upd s) bs"
  by (simp add: AddBranchEvent_def AddBranch_def Let_def)

lemma AddBranch_Nil [simp]: "AddBranch d [] = [d]"
  by (simp add: AddBranch_def getIdIndex_def)

lemma AddBranch_Cons [simp]:
  "AddBranch d (b # bs) = (if m_id b = m_id d then d # bs else b # AddBranch d bs)"
  by (cases "first_index (\<lambda>b. m_id b = m_id d) bs") (simp_all add: AddBranch_def getIdIndex_def del: first_index_None)

lemma AddBranch_ids: "set (map m_id (AddBranch d bs)) = insert (m_id d) (set (map m_id bs))"
  by (induction bs) auto

lemma AddBranch_nonempty [simp]: "AddBranch d bs \<noteq> []"
  by (cases bs) auto

lemma AddBranch_mem: "b \<in> set (AddBranch d bs) \<Longrightarrow> b = d \<or> b \<in> set bs"
  by (induction bs) (auto split: if_splits)

lemma AddBranch_ok [keeps]: "branches_ok bs \<Longrightarrow> branches_ok (AddBranch d bs)"
  unfolding branches_ok_def
proof (induction bs)
  case (Cons b bs)
  then show ?case using AddBranch_ids [of d bs] by auto
qed simp

lemma HasId_iff: "HasId i bs \<longleftrightarrow> i \<in> m_id ` set bs"
  by (auto simp: HasId_def getIdIndex_def)

lemma AddBranch_map: "branch_map (AddBranch d bs) = (branch_map bs)(m_id d \<mapsto> d)"
  by (induction bs) (auto simp: branch_map_def fun_eq_iff)

lemma removeById_mem: "b \<in> set (removeById i bs) \<Longrightarrow> b \<in> set bs"
  by (induction bs) (auto split: if_splits)

lemma removeById_ok [keeps]: "branches_ok bs \<Longrightarrow> branches_ok (removeById i bs)"
  unfolding branches_ok_def by (induction bs) (auto dest: removeById_mem)

lemma branch_map_None_iff: "branch_map bs i = None \<longleftrightarrow> i \<notin> m_id ` set bs"
  by (auto simp: branch_map_def map_of_eq_None_iff image_iff)

lemma HasId_map: "HasId i bs \<longleftrightarrow> branch_map bs i \<noteq> None"
  by (simp add: branch_map_None_iff HasId_iff)

lemma removeById_map:
  "branches_ok bs \<Longrightarrow> branch_map (removeById i bs) = (branch_map bs)(i := None)"
proof (induction bs)
  case (Cons b bs)
  show ?case
  proof (cases "m_id b = i")
    case True
    with Cons.prems have "branch_map bs i = None"
      by (auto simp: branches_ok_def branch_map_None_iff)
    with True show ?thesis by (auto simp: branch_map_def fun_eq_iff)
  next
    case False
    with Cons show ?thesis by (auto simp: branch_map_def branches_ok_def fun_eq_iff)
  qed
qed (simp add: branch_map_def)

lemma length_removeById: "HasId i bs \<Longrightarrow> length (removeById i bs) = length bs - 1"
proof (induction bs)
  case (Cons b bs)
  then show ?case by (cases bs) (auto simp: HasId_iff)
qed (simp add: HasId_iff)

lemma removeById_Nil_iff: "HasId i bs \<Longrightarrow> removeById i bs = [] \<longleftrightarrow> (\<exists>b. bs = [b])"
  using length_removeById [of i bs] by (cases bs) (auto simp: length_Suc_conv HasId_iff)

lemma CheckDroppedCall_ok [keeps]:
  "CheckDroppedCall d i bs = (r, d', bs') \<Longrightarrow> branches_ok bs \<Longrightarrow> branches_ok bs'"
  using removeById_ok [of bs i] by (auto simp: CheckDroppedCall_def Let_def split: if_splits)

lemma CheckDroppedCall_data:
  "CheckDroppedCall d i bs = (r, d', bs') \<Longrightarrow> d' = d \<or> d' \<in> set bs"
  by (auto simp: CheckDroppedCall_def Let_def split: if_splits dest: removeById_mem hd_in_set)

lemma CheckDroppedCall_mem:
  "CheckDroppedCall d i bs = (r, d', bs') \<Longrightarrow> b \<in> set bs' \<Longrightarrow> b \<in> set bs"
  by (auto simp: CheckDroppedCall_def Let_def split: if_splits dest: removeById_mem)

section \<open>Properties\<close>

text \<open>
  C30. The branch list refines a finite map from XMPP ids to call data: \<open>AddBranch\<close> (both
  overloads) is map update, \<open>HasId\<close> is membership in the domain, \<open>_removeById\<close> is deletion, and
  the ids stay distinct, so that one retraction removes a branch for good.
\<close>
theorem branches_refine_map:
  assumes "branches_ok bs"
  shows "branch_map (AddBranch d bs) = (branch_map bs)(m_id d \<mapsto> d) \<and> branches_ok (AddBranch d bs)
    \<and> branch_map (AddBranchEvent eid ac c ct upd s bs) =
      (branch_map bs)(eid \<mapsto> AssignCallStateData (new_call_data\<lparr>m_callType := ct\<rparr>) eid ac c upd s)
    \<and> branches_ok (AddBranchEvent eid ac c ct upd s bs)
    \<and> (HasId i bs \<longleftrightarrow> i \<in> dom (branch_map bs))
    \<and> branch_map (removeById i bs) = (branch_map bs)(i := None) \<and> branches_ok (removeById i bs)"
  using assms
  by (auto simp: AddBranch_map AddBranch_ok AddBranchEvent_AddBranch HasId_map removeById_map removeById_ok)

theorem branches_refine_map_witness:
  "branch_map (removeById ''a'' [new_call_data\<lparr>m_id := ''a''\<rparr>]) ''a'' = None"
  using branches_refine_map [of "[new_call_data\<lparr>m_id := ''a''\<rparr>]" _ _ _ _ _ _ _ "''a''"]
  by (simp add: branches_ok_def)

text \<open>
  When a retraction ends a call: \<open>CheckDroppedCall\<close> answers true exactly when the retracted
  id is the only branch left; while another branch remains it drops just that branch and the
  call data moves to a branch that is still alive, never to the retracted one.
\<close>
theorem CheckDroppedCall_spec:
  assumes "branches_ok bs" and "CheckDroppedCall callData i bs = (dropped, callData', bs')"
  shows "(dropped \<longleftrightarrow> (\<exists>b. bs = [b] \<and> m_id b = i)) \<and>
     branch_map bs' = (branch_map bs)(i := None) \<and>
     (if HasId i bs \<and> \<not> dropped then branch_map bs' (m_id callData') = Some callData' \<and> m_id callData' \<noteq> i
      else callData' = callData)"
proof (cases "HasId i bs")
  case False
  then have "branch_map bs i = None" by (simp add: HasId_map)
  then have "(branch_map bs)(i := None) = branch_map bs" by auto
  with False assms(2) show ?thesis by (auto simp: CheckDroppedCall_def HasId_iff)
next
  case True
  have bs': "bs' = removeById i bs"
    using assms(2) True by (auto simp: CheckDroppedCall_def Let_def split: if_splits)
  have map': "branch_map bs' = (branch_map bs)(i := None)"
    unfolding bs' by (rule removeById_map [OF assms(1)])
  show ?thesis
  proof (cases bs')
    case Nil
    with True bs' removeById_Nil_iff [OF True] assms(2) map' show ?thesis
      by (auto simp: CheckDroppedCall_def HasId_iff)
  next
    case (Cons b rest)
    with True bs' have "removeById i bs = b # rest" by simp
    with True assms(2) have r: "dropped = False" "callData' = b"
      by (simp_all add: CheckDroppedCall_def)
    have at: "branch_map bs' (m_id b) = Some b" by (simp add: Cons branch_map_def)
    with map' have "m_id b \<noteq> i" by auto
    with True r at map' Cons bs' removeById_Nil_iff [OF True] show ?thesis by auto
  qed
qed

theorem CheckDroppedCall_spec_example:
  "branch_map [new_call_data\<lparr>m_id := ''b''\<rparr>] =
     (branch_map [new_call_data\<lparr>m_id := ''a''\<rparr>, new_call_data\<lparr>m_id := ''b''\<rparr>])(''a'' := None)"
  using CheckDroppedCall_spec [of "[new_call_data\<lparr>m_id := ''a''\<rparr>, new_call_data\<lparr>m_id := ''b''\<rparr>]"
      new_call_data "''a''" False "new_call_data\<lparr>m_id := ''b''\<rparr>" "[new_call_data\<lparr>m_id := ''b''\<rparr>]"]
  by (simp add: branches_ok_def CheckDroppedCall_def HasId_iff)

end
