(* ===== verification/StateMachine.thy ===== *)
theory StateMachine
  imports OnSip_Prelude
begin

text \<open>
  The class templates of \<open>OnSipCommon/StateMachine.h\<close> and \<open>OnSipCore/OnSipStateMachineBase.h\<close>.
  The virtual methods of a handler class and of the machine that owns it are the fields of a
  record \<open>ops\<close>; the type \<open>'w\<close> is the world the methods act on (the XMPP engine, the ids, the
  clock, and the log of deleted events). \<open>IsYourEvent\<close>, \<open>PollStateHandler\<close> and \<open>PreExecute\<close>
  answer \<^const>\<open>None\<close> where the code would dereference a null pointer. Two locales state what
  the machine needs of its handlers; the call and the init handlers interpret them.
\<close>

section \<open>StateItem\<close>

datatype change_reason =
  IsYourEventHandled | NewHandlerCreated | RemovedHandler | PollHandler | AddedHandler

record ('s, 'e, 'd) state_item =
  si_state :: 's
  si_event :: "'e option"
  si_data :: 'd
  si_last :: dword

definition new_state_item :: "'s \<Rightarrow> 'e option \<Rightarrow> 'd \<Rightarrow> dword \<Rightarrow> ('s, 'e, 'd) state_item" where
  "new_state_item s ev d tick = \<lparr>si_state = s, si_event = ev, si_data = d, si_last = tick\<rparr>"

text \<open>
  \<open>assignNewState\<close> resets the \<open>auto_ptr\<close> to the new event: the second component is the event it
  deletes, if it held one.
\<close>

definition assign_new_state ::
  "'s \<Rightarrow> 'e option \<Rightarrow> dword \<Rightarrow> ('s, 'e, 'd) state_item \<Rightarrow> ('s, 'e, 'd) state_item \<times> 'e option" where
  "assign_new_state s ev tick it = (it\<lparr>si_state := s, si_event := ev, si_last := tick\<rparr>, si_event it)"

definition assign_new_state_data ::
  "'s \<Rightarrow> 'e option \<Rightarrow> 'd \<Rightarrow> dword \<Rightarrow> ('s, 'e, 'd) state_item \<Rightarrow> ('s, 'e, 'd) state_item \<times> 'e option" where
  "assign_new_state_data s ev d tick it =
     (it\<lparr>si_state := s, si_event := ev, si_data := d, si_last := tick\<rparr>, si_event it)"

text \<open>The subtraction is unsigned, its result is cast to a signed \<open>long\<close>.\<close>

definition MsecsSinceLastStateChange :: "('s, 'e, 'd) state_item \<Rightarrow> dword \<Rightarrow> long" where
  "MsecsSinceLastStateChange it tick = tick - si_last it"

section \<open>StateMachine\<close>

record ('h, 'e, 's, 'd, 'n, 'w) ops =
  op_IsYourEvent :: "'h \<Rightarrow> 'e \<Rightarrow> 'w \<Rightarrow> (bool \<times> 'h \<times> 'w) option"
  op_IsStillExist :: "'h \<Rightarrow> 'w \<Rightarrow> bool \<times> 'h \<times> 'w"
  op_PollStateHandler :: "'h \<Rightarrow> 'w \<Rightarrow> (bool \<times> 'h \<times> 'w) option"
  op_getCurrentState :: "'h \<Rightarrow> 's"
  op_getCurrentStateData :: "'h \<Rightarrow> 'd"
  op_UnknownEvent :: "'e \<Rightarrow> 'w \<Rightarrow> 'h option \<times> 'w"
  op_StateChange :: "'n \<Rightarrow> 's \<Rightarrow> 'd \<Rightarrow> change_reason \<Rightarrow> 'w \<Rightarrow> 'w"
  op_deleteHandler :: "'h \<Rightarrow> 'w \<Rightarrow> 'w"
  op_deleteEvent :: "'e \<Rightarrow> 'w \<Rightarrow> 'w"
  op_HasPreExecute :: "'h \<Rightarrow> bool"
  op_PreExecute :: "'h \<Rightarrow> 'w \<Rightarrow> (bool \<times> 'h \<times> 'w) option"

record ('h, 'n) machine =
  sm_handlers :: "'h list"
  sm_notifys :: "'n list"

text \<open>\<open>IStateNotifyContainer\<close> and \<open>StateMachine::OnStateChange\<close>.\<close>

definition AddIStateNotify :: "'n \<Rightarrow> ('h, 'n, 'z) machine_scheme \<Rightarrow> ('h, 'n, 'z) machine_scheme" where
  "AddIStateNotify n m = m\<lparr>sm_notifys := sm_notifys m @ [n]\<rparr>"

definition ClearIStateNotifys :: "('h, 'n, 'z) machine_scheme \<Rightarrow> ('h, 'n, 'z) machine_scheme" where
  "ClearIStateNotifys m = m\<lparr>sm_notifys := []\<rparr>"

definition OnStateChange ::
  "('h, 'e, 's, 'd, 'n, 'w) ops \<Rightarrow> 'n list \<Rightarrow> 'h \<Rightarrow> change_reason \<Rightarrow> 'w \<Rightarrow> 'w" where
  "OnStateChange ops ns h reason w =
     foldl (\<lambda>w n. op_StateChange ops n (op_getCurrentState ops h) (op_getCurrentStateData ops h) reason w) w ns"

fun checkExist ::
  "('h, 'e, 's, 'd, 'n, 'w) ops \<Rightarrow> 'n list \<Rightarrow> 'h list \<Rightarrow> 'w \<Rightarrow> 'h list \<times> 'w" where
  "checkExist ops ns [] w = ([], w)"
| "checkExist ops ns (h # hs) w =
     (let (ex, h', w1) = op_IsStillExist ops h w in
      if \<not> ex then checkExist ops ns hs (op_deleteHandler ops h' (OnStateChange ops ns h' RemovedHandler w1))
      else let (hs', w2) = checkExist ops ns hs w1 in (h' # hs', w2))"

definition checkStateHandlersExist ::
  "('h, 'e, 's, 'd, 'n, 'w) ops \<Rightarrow> ('h, 'n, 'z) machine_scheme \<Rightarrow> 'w \<Rightarrow> ('h, 'n, 'z) machine_scheme \<times> 'w" where
  "checkStateHandlersExist ops m w =
     (let (hs, w') = checkExist ops (sm_notifys m) (sm_handlers m) w in (m\<lparr>sm_handlers := hs\<rparr>, w'))"

definition AddStateHandler ::
  "('h, 'e, 's, 'd, 'n, 'w) ops \<Rightarrow> 'h \<Rightarrow> bool \<Rightarrow> ('h, 'n, 'z) machine_scheme \<Rightarrow> 'w \<Rightarrow> ('h, 'n, 'z) machine_scheme \<times> 'w" where
  "AddStateHandler ops h bNotifyState m w =
     (m\<lparr>sm_handlers := sm_handlers m @ [h]\<rparr>,
      if bNotifyState then OnStateChange ops (sm_notifys m) h AddedHandler w else w)"

definition RemoveStateHandlers ::
  "('h, 'e, 's, 'd, 'n, 'w) ops \<Rightarrow> ('h, 'n, 'z) machine_scheme \<Rightarrow> 'w \<Rightarrow> ('h, 'n, 'z) machine_scheme \<times> 'w" where
  "RemoveStateHandlers ops m w =
     (m\<lparr>sm_handlers := []\<rparr>, foldl (\<lambda>w h. op_deleteHandler ops h w) w (sm_handlers m))"

text \<open>The polling loop stops at the first handler that reports a change.\<close>

fun pollLoop ::
  "('h, 'e, 's, 'd, 'n, 'w) ops \<Rightarrow> 'n list \<Rightarrow> 'h list \<Rightarrow> 'w \<Rightarrow> ('h list \<times> 'w) option" where
  "pollLoop ops ns [] w = Some ([], w)"
| "pollLoop ops ns (h # hs) w = do {
     (changed, h', w1) \<leftarrow> op_PollStateHandler ops h w;
     if changed then Some (h' # hs, OnStateChange ops ns h' PollHandler w1)
     else do { (hs', w2) \<leftarrow> pollLoop ops ns hs w1; Some (h' # hs', w2) }
   }"

definition PollStateHandlers ::
  "('h, 'e, 's, 'd, 'n, 'w) ops \<Rightarrow> ('h, 'n, 'z) machine_scheme \<Rightarrow> 'w \<Rightarrow> (('h, 'n, 'z) machine_scheme \<times> 'w) option" where
  "PollStateHandlers ops m w = do {
     (hs, w1) \<leftarrow> pollLoop ops (sm_notifys m) (sm_handlers m) w;
     Some (checkStateHandlersExist ops (m\<lparr>sm_handlers := hs\<rparr>) w1)
   }"

definition GetAllStates ::
  "('h, 'e, 's, 'd, 'n, 'w) ops \<Rightarrow> ('h, 'n, 'z) machine_scheme \<Rightarrow> ('s \<times> 'd) list" where
  "GetAllStates ops m = map (\<lambda>h. (op_getCurrentState ops h, op_getCurrentStateData ops h)) (sm_handlers m)"

text \<open>The event is offered to the handlers in order until one takes it.\<close>

fun offerEvent ::
  "('h, 'e, 's, 'd, 'n, 'w) ops \<Rightarrow> 'n list \<Rightarrow> 'e \<Rightarrow> 'h list \<Rightarrow> 'w \<Rightarrow> (bool \<times> 'h list \<times> 'w) option" where
  "offerEvent ops ns e [] w = Some (False, [], w)"
| "offerEvent ops ns e (h # hs) w = do {
     (mine, h', w1) \<leftarrow> op_IsYourEvent ops h e w;
     if mine then Some (True, h' # hs, OnStateChange ops ns h' IsYourEventHandled w1)
     else do { (b, hs', w2) \<leftarrow> offerEvent ops ns e hs w1; Some (b, h' # hs', w2) }
   }"

definition SignalEvent ::
  "('h, 'e, 's, 'd, 'n, 'w) ops \<Rightarrow> 'e option \<Rightarrow> bool \<Rightarrow> ('h, 'n, 'z) machine_scheme \<Rightarrow> 'w \<Rightarrow>
     (bool \<times> ('h, 'n, 'z) machine_scheme \<times> 'w) option" where
  "SignalEvent ops ev bDeleteEventData m w = do {
     (bHandled, hs, w1) \<leftarrow>
       (case ev of None \<Rightarrow> Some (False, sm_handlers m, w)
        | Some e \<Rightarrow> do {
            (mine, hs, w1) \<leftarrow> offerEvent ops (sm_notifys m) e (sm_handlers m) w;
            if mine then Some (True, hs, w1)
            else
              (case op_UnknownEvent ops e w1 of
                 (None, w2) \<Rightarrow> Some (False, hs, w2)
               | (Some h, w2) \<Rightarrow>
                   Some (True, hs @ [h], OnStateChange ops (sm_notifys m) h NewHandlerCreated w2))
          });
     let w2 = (case ev of None \<Rightarrow> w1
               | Some e \<Rightarrow> if \<not> bHandled \<and> bDeleteEventData then op_deleteEvent ops e w1 else w1);
         (m', w3) = checkStateHandlersExist ops (m\<lparr>sm_handlers := hs\<rparr>) w2
     in Some (bHandled, m', w3)
   }"

section \<open>OnSipStateMachineBase\<close>

text \<open>
  The two queues filled by other threads and their change counters (a C++ \<open>int\<close> each). Every
  queue operation holds the critical section, so it is one step.
\<close>

record ('h, 'n, 'e) base_machine = "('h, 'n) machine" +
  bm_events :: "'e list"
  bm_eventChange :: long
  bm_handlerRequests :: "'h list"
  bm_requestChange :: long

definition new_base_machine :: "('h, 'n, 'e) base_machine" where
  "new_base_machine = \<lparr>sm_handlers = [], sm_notifys = [], bm_events = [], bm_eventChange = 0,
     bm_handlerRequests = [], bm_requestChange = 0\<rparr>"

definition AddStateHandlerRequest ::
  "'h \<Rightarrow> ('h, 'n, 'e) base_machine \<Rightarrow> ('h, 'n, 'e) base_machine" where
  "AddStateHandlerRequest h m =
     m\<lparr>bm_handlerRequests := bm_handlerRequests m @ [h], bm_requestChange := bm_requestChange m + 1\<rparr>"

definition AddEvent :: "'e \<Rightarrow> ('h, 'n, 'e) base_machine \<Rightarrow> ('h, 'n, 'e) base_machine" where
  "AddEvent e m = m\<lparr>bm_events := bm_events m @ [e], bm_eventChange := bm_eventChange m + 1\<rparr>"

definition getEvents :: "('h, 'n, 'e) base_machine \<Rightarrow> 'e list \<times> ('h, 'n, 'e) base_machine" where
  "getEvents m =
     (if 0 < sint (bm_eventChange m) then (bm_events m, m\<lparr>bm_events := [], bm_eventChange := 0\<rparr>)
      else ([], m))"

definition getRequests :: "('h, 'n, 'e) base_machine \<Rightarrow> 'h list \<times> ('h, 'n, 'e) base_machine" where
  "getRequests m =
     (if 0 < sint (bm_requestChange m)
      then (bm_handlerRequests m, m\<lparr>bm_handlerRequests := [], bm_requestChange := 0\<rparr>)
      else ([], m))"

text \<open>The loop of \<open>PollStateHandlers\<close> over the requested handlers.\<close>

fun requestLoop ::
  "('h, 'e, 's, 'd, 'n, 'w) ops \<Rightarrow> 'h list \<Rightarrow> ('h, 'n, 'z) machine_scheme \<Rightarrow> 'w \<Rightarrow>
     (('h, 'n, 'z) machine_scheme \<times> 'w) option" where
  "requestLoop ops [] m w = Some (m, w)"
| "requestLoop ops (h # hs) m w = do {
     (bPreExecute, h1, w1) \<leftarrow>
       (if op_HasPreExecute ops h then op_PreExecute ops h w else Some (True, h, w));
     if \<not> bPreExecute then requestLoop ops hs m (op_deleteHandler ops h1 w1)
     else
       (case op_IsStillExist ops h1 w1 of (ex, h2, w2) \<Rightarrow>
          if ex then
            (case AddStateHandler ops h2 (op_HasPreExecute ops h2) m w2 of (m', w3) \<Rightarrow>
               requestLoop ops hs m' w3)
          else requestLoop ops hs m (op_deleteHandler ops h2 w2))
   }"

fun signalAll ::
  "('h, 'e, 's, 'd, 'n, 'w) ops \<Rightarrow> 'e list \<Rightarrow> ('h, 'n, 'z) machine_scheme \<Rightarrow> 'w \<Rightarrow>
     (('h, 'n, 'z) machine_scheme \<times> 'w) option" where
  "signalAll ops [] m w = Some (m, w)"
| "signalAll ops (e # es) m w = do {
     (_, m', w') \<leftarrow> SignalEvent ops (Some e) True m w;
     signalAll ops es m' w'
   }"

definition BasePollStateHandlers ::
  "('h, 'e, 's, 'd, 'n, 'w) ops \<Rightarrow> ('h, 'n, 'e) base_machine \<Rightarrow> 'w \<Rightarrow> (('h, 'n, 'e) base_machine \<times> 'w) option" where
  "BasePollStateHandlers ops m w = do {
     let (reqs, m1) = getRequests m in do {
     (m2, w2) \<leftarrow> requestLoop ops reqs m1 w;
     let (evs, m3) = getEvents m2 in do {
     (m4, w4) \<leftarrow> signalAll ops evs m3 w2;
     PollStateHandlers ops m4 w4 }}
   }"

section \<open>The queues\<close>

lemma getEvents_foldl_AddEvent:
  "bm_events (foldl (\<lambda>m e. AddEvent e m) m es) = bm_events m @ es \<and>
   bm_eventChange (foldl (\<lambda>m e. AddEvent e m) m es) = bm_eventChange m + word_of_nat (length es) \<and>
   sm_handlers (foldl (\<lambda>m e. AddEvent e m) m es) = sm_handlers m"
  by (induction es arbitrary: m) (auto simp: AddEvent_def)

lemma requests_foldl:
  "bm_handlerRequests (foldl (\<lambda>m h. AddStateHandlerRequest h m) m hs) = bm_handlerRequests m @ hs \<and>
   bm_requestChange (foldl (\<lambda>m h. AddStateHandlerRequest h m) m hs) = bm_requestChange m + word_of_nat (length hs)"
  by (induction hs arbitrary: m) (auto simp: AddStateHandlerRequest_def)

text \<open>
  C31. No event is lost, repeated or reordered between the threads: after \<open>AddEvent\<close> of fewer
  than \<open>2 ^ 31\<close> events on an empty queue, one \<open>_getEvents\<close> returns exactly those events, oldest
  first, and leaves the queue empty and the counter zero, so a second one returns none.
\<close>
theorem event_queue_fifo:
  assumes "bm_events m = []" and "bm_eventChange m = 0" and "length es < 2 ^ 31"
    and "getEvents (foldl (\<lambda>m e. AddEvent e m) m es) = (got, m')"
  shows "got = es \<and> bm_events m' = [] \<and> bm_eventChange m' = 0 \<and> getEvents m' = ([], m')"
  using assms getEvents_foldl_AddEvent [of m es] sint_of_small_nat [of "length es"]
  by (cases es) (auto simp: getEvents_def split: if_splits)

theorem event_queue_fifo_witness:
  "getEvents (foldl (\<lambda>m e. AddEvent e m) (new_base_machine :: (nat, nat, nat) base_machine) [7, 8]) =
     ([7, 8], new_base_machine)"
proof -
  let ?g = "getEvents (foldl (\<lambda>m e. AddEvent e m) (new_base_machine :: (nat, nat, nat) base_machine) [7, 8])"
  have "fst ?g = [7, 8]"
    using event_queue_fifo [of "new_base_machine :: (nat, nat, nat) base_machine" "[7, 8]" "fst ?g" "snd ?g"]
    by (simp add: new_base_machine_def)
  then show ?thesis by (auto simp: getEvents_def AddEvent_def new_base_machine_def split: if_splits)
qed

section \<open>Interface: handlers own their events\<close>

text \<open>
  Every event is a heap object with one owner. \<open>own h\<close> is the multiset of the events a handler
  holds, \<open>gone w\<close> that of the events deleted so far. A method keeps the sum of both, except that
  the event a handler (or a new handler) accepts joins it.
\<close>

locale event_owner =
  fixes ops :: "('h, 'e, 's, 'd, 'n, 'w) ops"
    and own :: "'h \<Rightarrow> 'e multiset"
    and gone :: "'w \<Rightarrow> 'e multiset"
  assumes yours: "op_IsYourEvent ops h e w = Some (b, h', w') \<Longrightarrow>
      own h' + gone w' = own h + gone w + (if b then {#e#} else {#})"
    and exist: "op_IsStillExist ops h w = (b, h', w') \<Longrightarrow> own h' + gone w' = own h + gone w"
    and poll: "op_PollStateHandler ops h w = Some (b, h', w') \<Longrightarrow> own h' + gone w' = own h + gone w"
    and pre: "op_PreExecute ops h w = Some (b, h', w') \<Longrightarrow> own h' + gone w' = own h + gone w"
    and unknown: "op_UnknownEvent ops e w = (r, w') \<Longrightarrow>
      (case r of None \<Rightarrow> gone w' = gone w | Some h \<Rightarrow> own h + gone w' = gone w + {#e#})"
    and notify [simp]: "gone (op_StateChange ops n s d reason w) = gone w"
    and delete_handler [simp]: "gone (op_deleteHandler ops h w) = gone w + own h"
    and delete_event [simp]: "gone (op_deleteEvent ops e w) = gone w + {#e#}"
begin

definition holds :: "'h list \<Rightarrow> 'w \<Rightarrow> 'e multiset" where
  "holds hs w = (\<Sum>h\<leftarrow>hs. own h) + gone w"

lemma gone_OnStateChange [simp]: "gone (OnStateChange ops ns h r w) = gone w"
  unfolding OnStateChange_def by (induction ns arbitrary: w) simp_all

lemma holds_Nil [simp]: "holds [] w = gone w"
  by (simp add: holds_def)

lemma holds_Cons: "holds (h # hs) w = own h + holds hs w"
  by (simp add: holds_def ac_simps)

lemma holds_shift:
  assumes "own h' + gone w' = own h + gone w + X"
  shows "own h' + holds hs w' = own h + holds hs w + X"
proof -
  let ?S = "\<Sum>h\<leftarrow>hs. own h"
  have "own h' + holds hs w' = ?S + (own h' + gone w')"
    unfolding holds_def by (simp only: add.left_commute)
  also have "\<dots> = ?S + (own h + gone w + X)" by (simp only: assms)
  also have "\<dots> = own h + holds hs w + X"
    unfolding holds_def by (simp only: add.assoc add.left_commute)
  finally show ?thesis .
qed

lemma holds_shift0:
  "own h' + gone w' = own h + gone w \<Longrightarrow> own h' + holds hs w' = own h + holds hs w"
  using holds_shift [of h' w' h w "{#}" hs] by simp

lemma holds_OnStateChange [simp]: "holds hs (OnStateChange ops ns h r w) = holds hs w"
  by (simp add: holds_def)

lemma holds_delete [simp]: "holds hs (op_deleteHandler ops h w) = own h + holds hs w"
  by (simp add: holds_def ac_simps)

lemma checkExist_holds: "checkExist ops ns hs w = (hs', w') \<Longrightarrow> holds hs' w' = holds hs w"
proof (induction hs arbitrary: w hs' w')
  case (Cons h hs)
  obtain b h1 w1 where e: "op_IsStillExist ops h w = (b, h1, w1)" by (cases "op_IsStillExist ops h w")
  show ?case
  proof (cases b)
    case True
    obtain hs2 w2 where c: "checkExist ops ns hs w1 = (hs2, w2)" by (cases "checkExist ops ns hs w1")
    from Cons.prems True e c have "hs' = h1 # hs2" "w' = w2" by simp_all
    with Cons.IH [OF c] holds_shift0 [OF exist [OF e]] show ?thesis by (simp add: holds_Cons)
  next
    case False
    with Cons.prems e have
      "checkExist ops ns hs (op_deleteHandler ops h1 (OnStateChange ops ns h1 RemovedHandler w1)) = (hs', w')"
      by simp
    from Cons.IH [OF this] holds_shift0 [OF exist [OF e]] show ?thesis by (simp add: holds_Cons)
  qed
qed simp

lemma offerEvent_holds:
  "offerEvent ops ns e hs w = Some (b, hs', w') \<Longrightarrow>
     holds hs' w' = holds hs w + (if b then {#e#} else {#})"
proof (induction hs arbitrary: w b hs' w')
  case (Cons h hs)
  then obtain mine h1 w1 where i: "op_IsYourEvent ops h e w = Some (mine, h1, w1)"
    by (auto simp: bind_eq_Some_conv)
  show ?case
  proof (cases mine)
    case True
    with Cons.prems i have "hs' = h1 # hs" "w' = OnStateChange ops ns h1 IsYourEventHandled w1" b
      by auto
    with True holds_shift [OF yours [OF i]] show ?thesis by (simp add: holds_Cons)
  next
    case False
    with Cons.prems i obtain hs2 where o: "offerEvent ops ns e hs w1 = Some (b, hs2, w')"
      and hs': "hs' = h1 # hs2" by (auto simp: bind_eq_Some_conv)
    have "own h1 + holds hs w1 = own h + holds hs w"
      by (rule holds_shift0) (use yours [OF i] False in simp)
    moreover have "holds hs2 w' = holds hs w1 + (if b then {#e#} else {#})" by (rule Cons.IH [OF o])
    ultimately show ?thesis unfolding hs' holds_Cons by (simp only: add.assoc [symmetric])
  qed
qed simp

lemma pollLoop_holds: "pollLoop ops ns hs w = Some (hs', w') \<Longrightarrow> holds hs' w' = holds hs w"
proof (induction hs arbitrary: w hs' w')
  case (Cons h hs)
  then obtain b h1 w1 where i: "op_PollStateHandler ops h w = Some (b, h1, w1)"
    by (auto simp: bind_eq_Some_conv)
  have step: "own h1 + holds hs w1 = own h + holds hs w"
    by (rule holds_shift0 [OF poll [OF i]])
  show ?case
  proof (cases b)
    case True
    with Cons.prems i step show ?thesis by (auto simp: holds_Cons)
  next
    case False
    with Cons.prems i obtain hs2 where o: "pollLoop ops ns hs w1 = Some (hs2, w')"
      and hs': "hs' = h1 # hs2" by (auto simp: bind_eq_Some_conv)
    from Cons.IH [OF o] hs' step show ?thesis by (simp add: holds_Cons)
  qed
qed simp

lemma checkStateHandlersExist_holds:
  "checkStateHandlersExist ops m w = (m', w') \<Longrightarrow> holds (sm_handlers m') w' = holds (sm_handlers m) w"
  by (auto simp: checkStateHandlersExist_def split: prod.splits dest: checkExist_holds)

lemma PollStateHandlers_holds:
  "PollStateHandlers ops m w = Some (m', w') \<Longrightarrow> holds (sm_handlers m') w' = holds (sm_handlers m) w"
  by (auto simp: PollStateHandlers_def bind_eq_Some_conv dest!: checkStateHandlersExist_holds pollLoop_holds)

end

text \<open>The phases of a poll.\<close>

lemma BasePollE:
  assumes "BasePollStateHandlers ops m w = Some (m', w')"
  obtains reqs m1 m2 w2 evs m3 m4 w4 where "getRequests m = (reqs, m1)"
    "requestLoop ops reqs m1 w = Some (m2, w2)" "getEvents m2 = (evs, m3)"
    "signalAll ops evs m3 w2 = Some (m4, w4)" "PollStateHandlers ops m4 w4 = Some (m', w')"
proof -
  obtain reqs m1 where q: "getRequests m = (reqs, m1)" by (cases "getRequests m")
  with assms obtain m2 w2 where r: "requestLoop ops reqs m1 w = Some (m2, w2)"
    by (auto simp: BasePollStateHandlers_def bind_eq_Some_conv)
  obtain evs m3 where v: "getEvents m2 = (evs, m3)" by (cases "getEvents m2")
  with assms q r obtain m4 w4 where "signalAll ops evs m3 w2 = Some (m4, w4)"
    and "PollStateHandlers ops m4 w4 = Some (m', w')"
    by (auto simp: BasePollStateHandlers_def bind_eq_Some_conv)
  with q r v show ?thesis by (rule that)
qed

lemma checkStateHandlersExist_more:
  "checkStateHandlersExist ops m w = (m', w') \<Longrightarrow> \<exists>hs. m' = m\<lparr>sm_handlers := hs\<rparr>"
  by (auto simp: checkStateHandlersExist_def split: prod.splits)

lemma SignalEvent_more:
  "SignalEvent ops ev d m w = Some (b, m', w') \<Longrightarrow> \<exists>hs. m' = m\<lparr>sm_handlers := hs\<rparr>"
  by (auto simp: SignalEvent_def bind_eq_Some_conv Let_def split: prod.splits
      dest!: checkStateHandlersExist_more)

lemma signalAll_more:
  "signalAll ops es m w = Some (m', w') \<Longrightarrow> \<exists>hs. m' = m\<lparr>sm_handlers := hs\<rparr>"
proof (induction es arbitrary: m w)
  case (Cons e es)
  then obtain b mx wx where sx: "SignalEvent ops (Some e) True m w = Some (b, mx, wx)"
    and rx: "signalAll ops es mx wx = Some (m', w')" by (auto simp: bind_eq_Some_conv)
  from SignalEvent_more [OF sx] Cons.IH [OF rx] show ?case by auto
qed (auto intro: exI [of _ "sm_handlers m'"])

lemma PollStateHandlers_more:
  "PollStateHandlers ops m w = Some (m', w') \<Longrightarrow> \<exists>hs. m' = m\<lparr>sm_handlers := hs\<rparr>"
  by (auto simp: PollStateHandlers_def bind_eq_Some_conv dest!: checkStateHandlersExist_more)

lemma requestLoop_more:
  "requestLoop ops hs m w = Some (m', w') \<Longrightarrow> \<exists>hs. m' = m\<lparr>sm_handlers := hs\<rparr>"
proof (induction hs arbitrary: m w)
  case (Cons h hs)
  then obtain b h1 w1 where pre:
    "(if op_HasPreExecute ops h then op_PreExecute ops h w else Some (True, h, w)) = Some (b, h1, w1)"
    by (auto simp: bind_eq_Some_conv)
  obtain ex h2 w2 where ex: "op_IsStillExist ops h1 w1 = (ex, h2, w2)" by (cases "op_IsStillExist ops h1 w1")
  let ?m = "m\<lparr>sm_handlers := sm_handlers m @ [h2]\<rparr>"
  from Cons.prems pre ex obtain m1 wx where "requestLoop ops hs m1 wx = Some (m', w')" "m1 = m \<or> m1 = ?m"
    by (cases b; cases ex) (auto simp: AddStateHandler_def)
  with Cons.IH [OF this(1)] show ?case by (metis machine.surjective machine.update_convs(1))
qed (auto intro: exI [of _ "sm_handlers m'"])

context event_owner begin

lemma SignalEvent_holds:
  assumes "SignalEvent ops (Some e) d m w = Some (b, m', w')"
  shows "holds (sm_handlers m') w' = holds (sm_handlers m) w + (if b \<or> d then {#e#} else {#})"
proof -
  from assms obtain mine hs1 w1 where o:
    "offerEvent ops (sm_notifys m) e (sm_handlers m) w = Some (mine, hs1, w1)"
    by (auto simp: SignalEvent_def bind_eq_Some_conv)
  note H = offerEvent_holds [OF o]
  obtain r w2 where u: "op_UnknownEvent ops e w1 = (r, w2)" by (cases "op_UnknownEvent ops e w1")
  have "\<exists>hs wx. checkStateHandlersExist ops (m\<lparr>sm_handlers := hs\<rparr>) wx = (m', w') \<and>
      holds hs wx = holds (sm_handlers m) w + (if b \<or> d then {#e#} else {#})"
  proof (cases mine)
    case True
    with assms o have "b" "checkStateHandlersExist ops (m\<lparr>sm_handlers := hs1\<rparr>) w1 = (m', w')"
      by (auto simp: SignalEvent_def Let_def split: prod.splits)
    with H True show ?thesis by auto
  next
    case F: False
    show ?thesis
    proof (cases r)
      case None
      with assms o u F have b: "\<not> b" and c: "checkStateHandlersExist ops (m\<lparr>sm_handlers := hs1\<rparr>)
          (if d then op_deleteEvent ops e w2 else w2) = (m', w')"
        by (auto simp: SignalEvent_def Let_def split: prod.splits)
      from unknown [OF u] None have "gone w2 = gone w1" by simp
      then have "holds hs1 (if d then op_deleteEvent ops e w2 else w2) =
          holds (sm_handlers m) w + (if b \<or> d then {#e#} else {#})"
        using H F b by (auto simp: holds_def)
      with c show ?thesis by blast
    next
      case (Some h)
      with assms o u F have b: b and c: "checkStateHandlersExist ops (m\<lparr>sm_handlers := hs1 @ [h]\<rparr>)
          (OnStateChange ops (sm_notifys m) h NewHandlerCreated w2) = (m', w')"
        by (auto simp: SignalEvent_def Let_def split: prod.splits)
      from unknown [OF u] Some have g: "own h + gone w2 = gone w1 + {#e#}" by simp
      have "holds (hs1 @ [h]) w2 = (\<Sum>h\<leftarrow>hs1. own h) + (own h + gone w2)"
        by (simp add: holds_def)
      also have "\<dots> = holds hs1 w1 + {#e#}" unfolding g by (simp add: holds_def)
      finally have "holds (hs1 @ [h]) (OnStateChange ops (sm_notifys m) h NewHandlerCreated w2) =
          holds (sm_handlers m) w + (if b \<or> d then {#e#} else {#})"
        using H F b by simp
      with c show ?thesis by blast
    qed
  qed
  then obtain hs wx where "checkStateHandlersExist ops (m\<lparr>sm_handlers := hs\<rparr>) wx = (m', w')"
    and hx: "holds hs wx = holds (sm_handlers m) w + (if b \<or> d then {#e#} else {#})" by blast
  from checkStateHandlersExist_holds [OF this(1)] hx show ?thesis by simp
qed

lemma signalAll_holds:
  "signalAll ops es m w = Some (m', w') \<Longrightarrow>
     holds (sm_handlers m') w' = holds (sm_handlers m) w + mset es"
proof (induction es arbitrary: m w)
  case (Cons e es)
  then obtain b m1 w1 where s: "SignalEvent ops (Some e) True m w = Some (b, m1, w1)"
    and r: "signalAll ops es m1 w1 = Some (m', w')" by (auto simp: bind_eq_Some_conv)
  from Cons.IH [OF r] SignalEvent_holds [OF s] show ?case by simp
qed simp

end

context event_owner begin

lemma requestLoop_holds:
  "requestLoop ops hs m w = Some (m', w') \<Longrightarrow>
     holds (sm_handlers m') w' = holds (sm_handlers m) w + (\<Sum>h\<leftarrow>hs. own h)"
proof (induction hs arbitrary: m w)
  case (Cons h hs)
  obtain b h1 w1 where p:
    "(if op_HasPreExecute ops h then op_PreExecute ops h w else Some (True, h, w)) = Some (b, h1, w1)"
    using Cons.prems by (auto simp: bind_eq_Some_conv)
  obtain ex h2 w2 where e: "op_IsStillExist ops h1 w1 = (ex, h2, w2)" by (cases "op_IsStillExist ops h1 w1")
  have g1: "own h1 + gone w1 = own h + gone w"
    using p pre by (auto split: if_splits)
  have g2: "own h2 + gone w2 = own h + gone w"
    using exist [OF e] g1 by simp
  let ?H = "sm_handlers m"
  obtain mx wx where r: "requestLoop ops hs mx wx = Some (m', w')"
    and g: "holds (sm_handlers mx) wx = own h + holds ?H w"
  proof (cases b)
    case False
    with Cons.prems p have "requestLoop ops hs m (op_deleteHandler ops h1 w1) = Some (m', w')" by simp
    moreover have "holds ?H (op_deleteHandler ops h1 w1) = own h + holds ?H w"
      using holds_shift0 [OF g1] by simp
    ultimately show ?thesis by (rule that)
  next
    case b: True
    show ?thesis
    proof (cases ex)
      case False
      with b Cons.prems p e have "requestLoop ops hs m (op_deleteHandler ops h2 w2) = Some (m', w')" by simp
      moreover have "holds ?H (op_deleteHandler ops h2 w2) = own h + holds ?H w"
        using holds_shift0 [OF g2] by simp
      ultimately show ?thesis by (rule that)
    next
      case True
      obtain m1 w3 where a: "AddStateHandler ops h2 (op_HasPreExecute ops h2) m w2 = (m1, w3)"
        by (cases "AddStateHandler ops h2 (op_HasPreExecute ops h2) m w2")
      from a have "sm_handlers m1 = ?H @ [h2]" "gone w3 = gone w2"
        by (auto simp: AddStateHandler_def)
      then have "holds (sm_handlers m1) w3 = own h2 + holds ?H w2" by (simp add: holds_def ac_simps)
      also have "\<dots> = own h + holds ?H w" by (rule holds_shift0 [OF g2])
      finally have "holds (sm_handlers m1) w3 = own h + holds ?H w" .
      moreover from True b Cons.prems p e a have "requestLoop ops hs m1 w3 = Some (m', w')" by simp
      ultimately show ?thesis using that by blast
    qed
  qed
  from Cons.IH [OF r] g show ?case by (simp add: ac_simps)
qed simp

text \<open>Every event known to a machine: held, deleted, queued, or held by a requested handler.\<close>

definition account :: "('h, 'n, 'e) base_machine \<Rightarrow> 'w \<Rightarrow> 'e multiset" where
  "account m w =
     holds (sm_handlers m) w + (\<Sum>h\<leftarrow>bm_handlerRequests m. own h) + mset (bm_events m)"

lemma account_handlers:
  "account (m\<lparr>sm_handlers := hs\<rparr>) w =
     holds hs w + ((\<Sum>h\<leftarrow>bm_handlerRequests m. own h) + mset (bm_events m))"
  by (simp add: account_def)

lemma SignalEvent_account:
  assumes "SignalEvent ops (Some e) d m w = Some (b, m', w')"
  shows "account m' w' = account m w + (if b \<or> d then {#e#} else {#})"
proof -
  from SignalEvent_more [OF assms] obtain hs where m': "m' = m\<lparr>sm_handlers := hs\<rparr>" by blast
  from SignalEvent_holds [OF assms] m' show ?thesis
    by (simp add: account_handlers) (simp add: account_def)
qed

lemma BasePoll_account:
  assumes "BasePollStateHandlers ops m w = Some (m', w')"
  shows "account m' w' = account m w"
  using assms
proof (rule BasePollE)
  fix reqs m1 m2 w2 evs m3 m4 w4
  assume q: "getRequests m = (reqs, m1)" and r: "requestLoop ops reqs m1 w = Some (m2, w2)"
    and v: "getEvents m2 = (evs, m3)" and s: "signalAll ops evs m3 w2 = Some (m4, w4)"
    and p: "PollStateHandlers ops m4 w4 = Some (m', w')"
  from requestLoop_more [OF r] obtain hs2 where m2: "m2 = m1\<lparr>sm_handlers := hs2\<rparr>" by blast
  from PollStateHandlers_more [OF p] obtain hs5 where m': "m' = m4\<lparr>sm_handlers := hs5\<rparr>" by blast
  from signalAll_more [OF s] have m4: "\<exists>hs. m4 = m3\<lparr>sm_handlers := hs\<rparr>" .
  from q have 1: "account m w =
      holds (sm_handlers m1) w + (\<Sum>h\<leftarrow>reqs. own h) + (\<Sum>h\<leftarrow>bm_handlerRequests m1. own h) + mset (bm_events m1)"
    by (auto simp: getRequests_def account_def split: if_splits)
  from v have 2: "account m2 w2 = account m3 w2 + mset evs"
    by (auto simp: getEvents_def account_def holds_def split: if_splits)
  from requestLoop_holds [OF r] m2 1 have 3: "account m2 w2 = account m w"
    by (simp add: account_handlers ac_simps)
  from signalAll_holds [OF s] m4 have 4: "account m4 w4 = account m3 w2 + mset evs"
    by (auto simp: account_def)
  from PollStateHandlers_holds [OF p] m' have 5: "account m' w' = account m4 w4"
    by (simp add: account_handlers) (simp add: account_def)
  from 2 3 4 5 show ?thesis by simp
qed

end

section \<open>Interface: handlers that keep an invariant and do not fault\<close>

text \<open>
  \<open>safe h e\<close> is what \<open>IsYourEvent\<close> needs of an event, \<open>requested\<close> what the other threads promise
  of a handler they queue.
\<close>

locale handler_safe =
  fixes ops :: "('h, 'e, 's, 'd, 'n, 'w) ops"
    and inv :: "'h \<Rightarrow> bool"
    and requested :: "'h \<Rightarrow> bool"
    and world_ok :: "'w \<Rightarrow> bool"
    and safe :: "'h \<Rightarrow> 'e \<Rightarrow> bool"
  assumes yours_ok: "inv h \<Longrightarrow> world_ok w \<Longrightarrow> safe h e \<Longrightarrow>
      \<exists>b h' w'. op_IsYourEvent ops h e w = Some (b, h', w') \<and> inv h' \<and> world_ok w'"
    and exist_ok: "op_IsStillExist ops h w = (b, h', w') \<Longrightarrow> inv h \<Longrightarrow> world_ok w \<Longrightarrow> inv h' \<and> world_ok w'"
    and poll_ok: "inv h \<Longrightarrow> world_ok w \<Longrightarrow>
      \<exists>b h' w'. op_PollStateHandler ops h w = Some (b, h', w') \<and> inv h' \<and> world_ok w'"
    and unknown_ok: "op_UnknownEvent ops e w = (r, w') \<Longrightarrow> world_ok w \<Longrightarrow>
      world_ok w' \<and> (\<forall>h. r = Some h \<longrightarrow> inv h)"
    and notify_ok: "world_ok w \<Longrightarrow> world_ok (op_StateChange ops n s d reason w)"
    and delete_handler_ok: "world_ok w \<Longrightarrow> world_ok (op_deleteHandler ops h w)"
    and delete_event_ok: "world_ok w \<Longrightarrow> world_ok (op_deleteEvent ops e w)"
    and pre_ok: "requested h \<Longrightarrow> world_ok w \<Longrightarrow> op_HasPreExecute ops h \<Longrightarrow>
      \<exists>b h' w'. op_PreExecute ops h w = Some (b, h', w') \<and> inv h' \<and> world_ok w'"
    and plain_ok: "requested h \<Longrightarrow> \<not> op_HasPreExecute ops h \<Longrightarrow> inv h"
begin

definition machine_ok :: "('h, 'n, 'z) machine_scheme \<Rightarrow> bool" where
  "machine_ok m \<longleftrightarrow> (\<forall>h \<in> set (sm_handlers m). inv h)"

lemma OnStateChange_ok: "world_ok w \<Longrightarrow> world_ok (OnStateChange ops ns h r w)"
  unfolding OnStateChange_def by (induction ns arbitrary: w) (simp_all add: notify_ok)

lemma checkExist_ok:
  "checkExist ops ns hs w = (hs', w') \<Longrightarrow> \<forall>h \<in> set hs. inv h \<Longrightarrow> world_ok w \<Longrightarrow>
     (\<forall>h \<in> set hs'. inv h) \<and> world_ok w'"
proof (induction hs arbitrary: w hs' w')
  case (Cons h hs)
  obtain b h1 w1 where e: "op_IsStillExist ops h w = (b, h1, w1)" by (cases "op_IsStillExist ops h w")
  have h1: "inv h1" "world_ok w1" using exist_ok [OF e] Cons.prems by auto
  show ?case
  proof (cases b)
    case True
    obtain hs2 w2 where c: "checkExist ops ns hs w1 = (hs2, w2)" by (cases "checkExist ops ns hs w1")
    from Cons.prems True e c have "hs' = h1 # hs2" "w' = w2" by simp_all
    with Cons.IH [OF c] Cons.prems h1 show ?thesis by simp
  next
    case False
    with Cons.prems e have
      "checkExist ops ns hs (op_deleteHandler ops h1 (OnStateChange ops ns h1 RemovedHandler w1)) = (hs', w')"
      by simp
    from Cons.IH [OF this] Cons.prems h1 show ?thesis
      by (simp add: OnStateChange_ok delete_handler_ok)
  qed
qed simp

lemma checkStateHandlersExist_ok:
  "checkStateHandlersExist ops m w = (m', w') \<Longrightarrow> machine_ok m \<Longrightarrow> world_ok w \<Longrightarrow>
     machine_ok m' \<and> world_ok w'"
  by (auto simp: checkStateHandlersExist_def machine_ok_def split: prod.splits dest: checkExist_ok)

lemma offerEvent_ok:
  "\<forall>h \<in> set hs. inv h \<and> safe h e \<Longrightarrow> world_ok w \<Longrightarrow>
     \<exists>b hs' w'. offerEvent ops ns e hs w = Some (b, hs', w') \<and> (\<forall>h \<in> set hs'. inv h) \<and> world_ok w'"
proof (induction hs arbitrary: w)
  case (Cons h hs)
  then obtain b h1 w1 where y: "op_IsYourEvent ops h e w = Some (b, h1, w1)" "inv h1" "world_ok w1"
    using yours_ok [of h w e] by auto
  with Cons.IH [of w1] Cons.prems show ?case by (cases b) (auto simp: OnStateChange_ok)
qed auto

lemma pollLoop_ok:
  "\<forall>h \<in> set hs. inv h \<Longrightarrow> world_ok w \<Longrightarrow>
     \<exists>hs' w'. pollLoop ops ns hs w = Some (hs', w') \<and> (\<forall>h \<in> set hs'. inv h) \<and> world_ok w'"
proof (induction hs arbitrary: w)
  case (Cons h hs)
  then obtain b h1 w1 where y: "op_PollStateHandler ops h w = Some (b, h1, w1)" "inv h1" "world_ok w1"
    using poll_ok [of h w] by auto
  with Cons.IH [of w1] Cons.prems show ?case by (cases b) (auto simp: OnStateChange_ok)
qed simp

lemma PollStateHandlers_ok:
  assumes "machine_ok m" and "world_ok w"
  shows "\<exists>m' w'. PollStateHandlers ops m w = Some (m', w') \<and> machine_ok m' \<and> world_ok w'"
proof -
  obtain hs w1 where p: "pollLoop ops (sm_notifys m) (sm_handlers m) w = Some (hs, w1)"
    "\<forall>h \<in> set hs. inv h" "world_ok w1"
    using pollLoop_ok [of "sm_handlers m" w "sm_notifys m"] assms by (auto simp: machine_ok_def)
  obtain m' w' where c: "checkStateHandlersExist ops (m\<lparr>sm_handlers := hs\<rparr>) w1 = (m', w')"
    by (cases "checkStateHandlersExist ops (m\<lparr>sm_handlers := hs\<rparr>) w1")
  with checkStateHandlersExist_ok [OF c] p show ?thesis
    by (simp add: PollStateHandlers_def machine_ok_def)
qed

lemma SignalEvent_ok:
  assumes "machine_ok m" and "world_ok w" and "\<forall>h \<in> set (sm_handlers m). safe h e"
  shows "\<exists>b m' w'. SignalEvent ops (Some e) d m w = Some (b, m', w') \<and> machine_ok m' \<and> world_ok w'"
proof -
  obtain mine hs w1 where o: "offerEvent ops (sm_notifys m) e (sm_handlers m) w = Some (mine, hs, w1)"
    "\<forall>h \<in> set hs. inv h" "world_ok w1"
    using offerEvent_ok [of "sm_handlers m" e w "sm_notifys m"] assms by (auto simp: machine_ok_def)
  obtain r w2 where u: "op_UnknownEvent ops e w1 = (r, w2)" by (cases "op_UnknownEvent ops e w1")
  from unknown_ok [OF u] o have u2: "world_ok w2" "\<And>h. r = Some h \<Longrightarrow> inv h" by auto
  have chk: "\<exists>m' w'. checkStateHandlersExist ops (m\<lparr>sm_handlers := hs2\<rparr>) wx = (m', w') \<and>
      machine_ok m' \<and> world_ok w'"
    if "\<forall>h \<in> set hs2. inv h" "world_ok wx" for hs2 wx
    using checkStateHandlersExist_ok [of "m\<lparr>sm_handlers := hs2\<rparr>" wx] that
    by (cases "checkStateHandlersExist ops (m\<lparr>sm_handlers := hs2\<rparr>) wx") (simp add: machine_ok_def)
  from o u u2 show ?thesis
    by (cases mine; cases r)
      (auto simp: SignalEvent_def Let_def OnStateChange_ok delete_event_ok split: prod.splits
        intro!: chk)
qed

end

context handler_safe begin

lemma signalAll_ok:
  "machine_ok m \<Longrightarrow> world_ok w \<Longrightarrow> \<forall>e \<in> set es. \<forall>h. inv h \<longrightarrow> safe h e \<Longrightarrow>
     \<exists>m' w'. signalAll ops es m w = Some (m', w') \<and> machine_ok m' \<and> world_ok w'"
proof (induction es arbitrary: m w)
  case (Cons e es)
  then obtain b m1 w1 where s: "SignalEvent ops (Some e) True m w = Some (b, m1, w1)"
    "machine_ok m1" "world_ok w1"
    using SignalEvent_ok [of m w e True] by (auto simp: machine_ok_def)
  with Cons.IH [of m1 w1] Cons.prems show ?case by auto
qed auto

lemma requestLoop_ok:
  "machine_ok m \<Longrightarrow> world_ok w \<Longrightarrow> \<forall>h \<in> set hs. requested h \<Longrightarrow>
     \<exists>m' w'. requestLoop ops hs m w = Some (m', w') \<and> machine_ok m' \<and> world_ok w'"
proof (induction hs arbitrary: m w)
  case (Cons h hs)
  obtain b h1 w1 where p:
    "(if op_HasPreExecute ops h then op_PreExecute ops h w else Some (True, h, w)) = Some (b, h1, w1)"
    "inv h1" "world_ok w1"
    using Cons.prems pre_ok [of h w] plain_ok [of h] by (cases "op_HasPreExecute ops h") auto
  obtain ex h2 w2 where e: "op_IsStillExist ops h1 w1 = (ex, h2, w2)" by (cases "op_IsStillExist ops h1 w1")
  from exist_ok [OF e] p have h2: "inv h2" "world_ok w2" by auto
  obtain m1 w3 where a: "AddStateHandler ops h2 (op_HasPreExecute ops h2) m w2 = (m1, w3)"
    by (cases "AddStateHandler ops h2 (op_HasPreExecute ops h2) m w2")
  from a h2 Cons.prems have "machine_ok m1" "world_ok w3"
    by (auto simp: AddStateHandler_def machine_ok_def OnStateChange_ok)
  with Cons.IH [of m1 w3] Cons.IH [of m "op_deleteHandler ops h1 w1"]
    Cons.IH [of m "op_deleteHandler ops h2 w2"] Cons.prems p e a h2
  show ?case by (cases b; cases ex) (auto simp: delete_handler_ok)
qed auto

lemma BasePoll_ok:
  assumes "machine_ok m" and "world_ok w" and "\<forall>h \<in> set (bm_handlerRequests m). requested h"
    and "\<forall>e \<in> set (bm_events m). \<forall>h. inv h \<longrightarrow> safe h e"
  shows "\<exists>m' w'. BasePollStateHandlers ops m w = Some (m', w') \<and> machine_ok m' \<and> world_ok w' \<and>
     set (bm_handlerRequests m') \<subseteq> set (bm_handlerRequests m) \<and> set (bm_events m') \<subseteq> set (bm_events m)"
proof -
  obtain reqs m1 where q: "getRequests m = (reqs, m1)" by (cases "getRequests m")
  then have m1: "machine_ok m1" "set reqs \<subseteq> set (bm_handlerRequests m)" "bm_events m1 = bm_events m"
    "set (bm_handlerRequests m1) \<subseteq> set (bm_handlerRequests m)"
    using assms(1) by (auto simp: getRequests_def machine_ok_def split: if_splits)
  have "\<forall>h \<in> set reqs. requested h" using m1(2) assms(3) by blast
  from requestLoop_ok [OF m1(1) assms(2) this] obtain m2 w2 where
    r: "requestLoop ops reqs m1 w = Some (m2, w2)" "machine_ok m2" "world_ok w2" by blast
  from requestLoop_more [OF r(1)] have m2: "bm_events m2 = bm_events m"
    "set (bm_handlerRequests m2) \<subseteq> set (bm_handlerRequests m)" using m1 by auto
  obtain evs m3 where v: "getEvents m2 = (evs, m3)" by (cases "getEvents m2")
  then have m3: "machine_ok m3" "set evs \<subseteq> set (bm_events m)" "set (bm_events m3) \<subseteq> set (bm_events m)"
    "bm_handlerRequests m3 = bm_handlerRequests m2"
    using r(2) m2 by (auto simp: getEvents_def machine_ok_def split: if_splits)
  have "\<forall>e \<in> set evs. \<forall>h. inv h \<longrightarrow> safe h e" using m3(2) assms(4) by blast
  from signalAll_ok [OF m3(1) r(3) this] obtain m4 w4 where
    s: "signalAll ops evs m3 w2 = Some (m4, w4)" "machine_ok m4" "world_ok w4" by blast
  from PollStateHandlers_ok [OF s(2,3)] obtain m' w' where
    p: "PollStateHandlers ops m4 w4 = Some (m', w')" "machine_ok m'" "world_ok w'" by blast
  from signalAll_more [OF s(1)] PollStateHandlers_more [OF p(1)]
  have "bm_events m' = bm_events m3" "bm_handlerRequests m' = bm_handlerRequests m3" by auto
  with q r v s p m2 m3 show ?thesis by (auto simp: BasePollStateHandlers_def)
qed

end

end
