(* ===== verification/Timers.thy ===== *)
theory Timers
  imports OnSip_Prelude Complex_Main
begin

text \<open>
  The elapsed-time classes \<open>TimeElapsed\<close> and \<open>TimeOut\<close> of \<open>OnSipCommon/Utils.h\<close>. \<open>clock()\<close> is
  the 32-bit \<open>clock_t\<close> of the Windows runtime, with \<open>CLK_TCK\<close> 1000 ticks a second; the time is
  an argument. \<open>Msecs\<close> divides and multiplies in \<open>double\<close>: the conversion rounds twice to 53
  bits, to nearest and ties to even, before the cast truncates, and it does lose a
  millisecond for some values.
\<close>

section \<open>Rounding to double precision\<close>

definition round_even :: "rat \<Rightarrow> int" where
  "round_even y =
     (let f = \<lfloor>y\<rfloor>; r = y - of_int f in
      if r < 1 / 2 then f else if 1 / 2 < r then f + 1 else if even f then f else f + 1)"

text \<open>
  The double nearest to a positive number below \<open>2 ^ 53\<close> and at least \<open>2 ^ 52 / 2 ^ fuel\<close>: it is
  scaled by powers of two into \<open>[2 ^ 52, 2 ^ 53)\<close>, rounded, and scaled back.
\<close>

fun round_scaled :: "nat \<Rightarrow> rat \<Rightarrow> rat" where
  "round_scaled 0 y = of_int (round_even y)"
| "round_scaled (Suc fuel) y =
     (if y < 2 ^ 52 then round_scaled fuel (2 * y) / 2 else of_int (round_even y))"

definition to_double :: "rat \<Rightarrow> rat" where
  "to_double y =
     (if y = 0 then 0 else if y < 0 then - round_scaled 64 (- y) else round_scaled 64 y)"

definition truncate_rat :: "rat \<Rightarrow> int" where
  "truncate_rat y = (if y < 0 then - \<lfloor>- y\<rfloor> else \<lfloor>y\<rfloor>)"

section \<open>TimeElapsed and TimeOut\<close>

type_synonym time_elapsed = long

definition TimeElapsed_Reset :: "long \<Rightarrow> time_elapsed" where
  "TimeElapsed_Reset clk = clk"

definition elapsed_msecs :: "int \<Rightarrow> int" where
  "elapsed_msecs x = truncate_rat (to_double (to_double (of_int x / 1000) * 1000))"

definition TimeElapsed_Msecs :: "time_elapsed \<Rightarrow> long \<Rightarrow> long" where
  "TimeElapsed_Msecs start clk = word_of_int (elapsed_msecs (sint (clk - start)))"

record timeout =
  to_t :: time_elapsed
  to_msecs :: long

definition TimeOut :: "long \<Rightarrow> long \<Rightarrow> timeout" where
  "TimeOut msecs clk = \<lparr>to_t = clk, to_msecs = msecs\<rparr>"

definition SetMsecs :: "timeout \<Rightarrow> long \<Rightarrow> long \<Rightarrow> timeout" where
  "SetMsecs t msecs clk = t\<lparr>to_msecs := msecs, to_t := TimeElapsed_Reset clk\<rparr>"

definition TimeOut_Reset :: "timeout \<Rightarrow> long \<Rightarrow> timeout" where
  "TimeOut_Reset t clk = t\<lparr>to_t := TimeElapsed_Reset clk\<rparr>"

definition IsExpired :: "timeout \<Rightarrow> long \<Rightarrow> bool" where
  "IsExpired t clk \<longleftrightarrow> sint (to_msecs t) \<le> sint (TimeElapsed_Msecs (to_t t) clk)"

definition MSECS_IN_SEC :: int where "MSECS_IN_SEC = 1000"
definition SECS_IN_MIN :: int where "SECS_IN_MIN = 60"
definition MINS_IN_HOUR :: int where "MINS_IN_HOUR = 60"
definition MSECS_IN_MIN :: int where "MSECS_IN_MIN = MSECS_IN_SEC * SECS_IN_MIN"
definition MSECS_IN_HOUR :: int where "MSECS_IN_HOUR = MSECS_IN_MIN * MINS_IN_HOUR"

lemmas msecs_defs = MSECS_IN_SEC_def SECS_IN_MIN_def MINS_IN_HOUR_def MSECS_IN_MIN_def MSECS_IN_HOUR_def

section \<open>The rounding error\<close>

lemma round_even_bounds: "\<bar>of_int (round_even y) - y\<bar> \<le> 1 / 2"
proof -
  define r where "r = y - of_int \<lfloor>y\<rfloor>"
  have r: "0 \<le> r" "r < 1" unfolding r_def by linarith+
  have "of_int (round_even y) - y =
     (if r < 1 / 2 then 0 else if 1 / 2 < r then 1 else if even \<lfloor>y\<rfloor> then 0 else 1) - r"
    by (simp add: round_even_def Let_def r_def)
  with r show ?thesis by (auto simp: abs_if)
qed

lemma round_scaled_bounds:
  assumes "0 < y" and "2 ^ 52 \<le> 2 ^ fuel * y"
  shows "\<bar>round_scaled fuel y - y\<bar> \<le> y / 2 ^ 53"
  using assms
proof (induction fuel arbitrary: y)
  case 0
  then have "(1 :: rat) / 2 \<le> y / 2 ^ 53" by simp
  with round_even_bounds [of y] show ?case by (simp add: order_trans)
next
  case (Suc fuel)
  show ?case
  proof (cases "y < 2 ^ 52")
    case True
    have "2 ^ 52 \<le> 2 ^ fuel * (2 * y)" using Suc.prems(2) by (simp add: ac_simps)
    with Suc.IH [of "2 * y"] Suc.prems(1)
    have "\<bar>round_scaled fuel (2 * y) - 2 * y\<bar> \<le> 2 * y / 2 ^ 53" by simp
    then have "\<bar>(round_scaled fuel (2 * y) - 2 * y) / 2\<bar> \<le> y / 2 ^ 53" by simp
    also have "(round_scaled fuel (2 * y) - 2 * y) / 2 = round_scaled fuel (2 * y) / 2 - y"
      by (simp add: diff_divide_distrib)
    finally have "\<bar>round_scaled fuel (2 * y) / 2 - y\<bar> \<le> y / 2 ^ 53" .
    with True show ?thesis by simp
  next
    case False
    then have "(1 :: rat) / 2 \<le> y / 2 ^ 53" by simp
    with False round_even_bounds [of y] show ?thesis by (simp add: order_trans)
  qed
qed

lemma to_double_bounds:
  assumes "1 / 2 ^ 12 \<le> y"
  shows "\<bar>to_double y - y\<bar> \<le> y / 2 ^ 53"
proof -
  have "(0 :: rat) < 1 / 2 ^ 12" by simp
  from this assms have pos: "0 < y" by (rule less_le_trans)
  from assms have "2 ^ 52 \<le> 2 ^ 64 * y" by simp
  from round_scaled_bounds [OF pos this] pos show ?thesis by (simp add: to_double_def)
qed

lemma elapsed_msecs_bounds:
  assumes "0 \<le> x" and "x < 2 ^ 31"
  shows "x - 1 \<le> elapsed_msecs x \<and> elapsed_msecs x \<le> x"
proof (cases "x = 0")
  case True
  then show ?thesis by (simp add: elapsed_msecs_def to_double_def truncate_rat_def)
next
  case False
  define q where "q = (of_int x :: rat)"
  have q: "1 \<le> q" "q < 2 ^ 31"
    using False assms unfolding q_def by simp_all
  define a where "a = to_double (q / 1000)"
  have "\<bar>a - q / 1000\<bar> \<le> q / 1000 / 2 ^ 53"
    unfolding a_def using q by (intro to_double_bounds) simp
  then have a: "\<bar>a * 1000 - q\<bar> \<le> q / 2 ^ 53" by (simp add: abs_le_iff field_simps)
  then have lo: "q - q / 2 ^ 53 \<le> a * 1000" and hi: "a * 1000 \<le> q + q / 2 ^ 53"
    using abs_le_D1 [OF a] abs_le_D2 [OF a] by linarith+
  have "q / 2 ^ 53 \<le> 1 / 2" using q by simp
  with lo q have a1: "1 / 2 \<le> a * 1000" by linarith
  define b where "b = to_double (a * 1000)"
  have "\<bar>b - a * 1000\<bar> \<le> a * 1000 / 2 ^ 53"
    unfolding b_def using a1 by (intro to_double_bounds) simp
  note bnd = this
  have b: "b \<le> a * 1000 + a * 1000 / 2 ^ 53" "a * 1000 - a * 1000 / 2 ^ 53 \<le> b"
    using abs_le_D1 [OF bnd] abs_le_D2 [OF bnd] by linarith+
  have small: "a * 1000 / 2 ^ 53 \<le> 1 / 4" "q / 2 ^ 53 \<le> 1 / 4" using q hi by simp_all
  from b small lo hi have bq: "q - 1 / 2 \<le> b" "b \<le> q + 1 / 2" by linarith+
  have "elapsed_msecs x = \<lfloor>b\<rfloor>"
    using bq q by (simp add: elapsed_msecs_def truncate_rat_def a_def b_def q_def)
  moreover have "x - 1 \<le> \<lfloor>b\<rfloor>" using bq unfolding q_def by (simp add: le_floor_iff)
  moreover have "\<lfloor>b\<rfloor> < x + 1" unfolding floor_less_iff using bq(2) unfolding q_def by simp
  ultimately show ?thesis by simp
qed

lemma sint_clock_diff: "n < 2 ^ 31 \<Longrightarrow> sint ((c + word_of_nat n) - c :: long) = int n"
  by (simp add: sint_of_small_nat)

lemma sint_word_of_small_int: "- (2 ^ 31) \<le> i \<Longrightarrow> i < 2 ^ 31 \<Longrightarrow> sint (word_of_int i :: long) = i"
  by (simp add: signed_of_int signed_take_bit_int_eq_self)

lemma Msecs_after:
  assumes "n < 2 ^ 31"
  shows "int n - 1 \<le> sint (TimeElapsed_Msecs c (c + word_of_nat n)) \<and>
     sint (TimeElapsed_Msecs c (c + word_of_nat n)) \<le> int n"
proof -
  have b: "int n - 1 \<le> elapsed_msecs (int n)" "elapsed_msecs (int n) \<le> int n"
    using elapsed_msecs_bounds [of "int n"] assms by (auto simp: of_nat_less_iff [symmetric])
  have "elapsed_msecs (int n) < 2 ^ 31" using b(2) assms by (simp add: of_nat_less_iff [symmetric])
  with b show ?thesis
    unfolding TimeElapsed_Msecs_def sint_clock_diff [OF assms]
    by (subst (1 2) sint_word_of_small_int) auto
qed

text \<open>A form to compute with: only in the last millisecond do the roundings matter.\<close>

lemma IsExpired_code [code]:
  "IsExpired t clk =
     (let n = sint (clk - to_t t) in
      if 0 \<le> n \<and> n < sint (to_msecs t) then False
      else if 0 \<le> n \<and> sint (to_msecs t) < n then True
      else sint (to_msecs t) \<le> sint (TimeElapsed_Msecs (to_t t) clk))"
proof -
  have "sint (TimeElapsed_Msecs (to_t t) clk) \<in> {sint (clk - to_t t) - 1 .. sint (clk - to_t t)}" if n: "0 \<le> sint (clk - to_t t)"
  proof -
    have "sint (clk - to_t t) < 2 ^ 31" using sint_lt [of "clk - to_t t"] by simp
    with elapsed_msecs_bounds [OF n] show ?thesis
      unfolding TimeElapsed_Msecs_def using n by (subst sint_word_of_small_int) auto
  qed
  then show ?thesis by (auto simp: IsExpired_def Let_def)
qed

section \<open>Properties\<close>

text \<open>
  C38. A timeout is exact to one millisecond whatever the clock reads when it starts: \<open>n\<close> ticks
  later, even when the 32-bit clock has wrapped in between, \<open>IsExpired\<close> never answers true before
  the timeout and always does from one millisecond after it. The two double roundings cost at
  most that one millisecond.
\<close>
theorem IsExpired_correct:
  assumes "n < 2 ^ 31"
  shows "(IsExpired (TimeOut msecs c) (c + word_of_nat n) \<longrightarrow> sint msecs \<le> int n) \<and>
     (sint msecs < int n \<longrightarrow> IsExpired (TimeOut msecs c) (c + word_of_nat n))"
  using Msecs_after [OF assms, of c] by (auto simp: IsExpired_def TimeOut_def)

theorem IsExpired_correct_witness:
  "IsExpired (TimeOut 250 4294967200) (4294967200 + word_of_nat 251) \<and>
   \<not> IsExpired (TimeOut 250 4294967200) (4294967200 + word_of_nat 249)"
  using IsExpired_correct [of 251 250 4294967200] IsExpired_correct [of 249 250 4294967200] by simp

end
