(* ===== verification/Xmpp.thy ===== *)
theory Xmpp
  imports CallData StateMachine Timers
begin

text \<open>
  The XMPP engine of \<open>OnSipXmppBase.h/.cpp\<close> with the request methods of \<open>OnSipXmpp.cpp\<close>, as
  the world the state machines act on: the login, the unique ids, the gloox client (absent
  before \<open>Start\<close> and after \<open>AsyncCleanup\<close>) with the stanzas it was handed and the handlers it
  tracks, the two clocks, the registry, the deleted events and the notifications. A method that
  uses an absent client answers \<^const>\<open>None\<close>; a destructor that does so raises \<open>w_fault\<close>. The network, TLS and the log are not modelled, and
  the clocks stand still while a method runs.
\<close>

section \<open>LoginInfo\<close>

record login =
  li_name :: string
  li_password :: string
  li_domain :: string

definition SIPAddress :: "login \<Rightarrow> string" where
  "SIPAddress l = c_str (li_name l) @ ''@'' @ c_str (li_domain l)"

definition login_jid :: "login \<Rightarrow> jid" where
  "login_jid l = JID (c_str (li_name l) @ ''!'' @ c_str (li_domain l) @ ''@dashboard.onsip.com'')"

section \<open>The states of the init machine\<close>

datatype init_state =
  IS_NotSet | IS_PreLogin | IS_LoginError | IS_Authorizing | IS_Authorized | IS_AuthorizedError
| IS_EnablingCallEvents | IS_OK | IS_EnabledCallError | IS_Disconnected | IS_ShuttingDown
| IS_ShutDown

fun InitStatesToString :: "init_state \<Rightarrow> string" where
  "InitStatesToString IS_NotSet = ''NotSet''"
| "InitStatesToString IS_PreLogin = ''PreLogin''"
| "InitStatesToString IS_LoginError = ''LoginError''"
| "InitStatesToString IS_Authorizing = ''Authorizing''"
| "InitStatesToString IS_Authorized = ''Authorized''"
| "InitStatesToString IS_AuthorizedError = ''AuthorizedError''"
| "InitStatesToString IS_EnablingCallEvents = ''EnablingCallEvents''"
| "InitStatesToString IS_ShuttingDown = ''ShuttingDown''"
| "InitStatesToString IS_ShutDown = ''ShutDown''"
| "InitStatesToString IS_OK = ''OK''"
| "InitStatesToString IS_EnabledCallError = ''EnabledCallError''"
| "InitStatesToString IS_Disconnected = ''Disconnected''"

datatype init_states_type = IT_NOTSET | IT_INPROGRESS | IT_OK | IT_FATAL | IT_DISCONNECTED | IT_SHUTDOWN

fun InitStatesTypeToString :: "init_states_type \<Rightarrow> string" where
  "InitStatesTypeToString IT_NOTSET = ''NOTSET''"
| "InitStatesTypeToString IT_DISCONNECTED = ''DISCONNTECTED''"
| "InitStatesTypeToString IT_FATAL = ''FATAL''"
| "InitStatesTypeToString IT_OK = ''OK''"
| "InitStatesTypeToString IT_INPROGRESS = ''INPROGRESS''"
| "InitStatesTypeToString IT_SHUTDOWN = ''SHUTDOWN''"

fun GetInitStatesType :: "init_state \<Rightarrow> init_states_type" where
  "GetInitStatesType IS_NotSet = IT_NOTSET"
| "GetInitStatesType IS_PreLogin = IT_INPROGRESS"
| "GetInitStatesType IS_Authorizing = IT_INPROGRESS"
| "GetInitStatesType IS_EnablingCallEvents = IT_INPROGRESS"
| "GetInitStatesType IS_Authorized = IT_INPROGRESS"
| "GetInitStatesType IS_LoginError = IT_FATAL"
| "GetInitStatesType IS_AuthorizedError = IT_FATAL"
| "GetInitStatesType IS_EnabledCallError = IT_FATAL"
| "GetInitStatesType IS_ShuttingDown = IT_OK"
| "GetInitStatesType IS_OK = IT_OK"
| "GetInitStatesType IS_Disconnected = IT_DISCONNECTED"
| "GetInitStatesType IS_ShutDown = IT_SHUTDOWN"

section \<open>The world\<close>

text \<open>The objects gloox calls back: the engine, the worker of a re-authorization, and \<open>PubSub::Manager\<close>.\<close>

datatype xmpp_object = O_OnSipXmpp | O_Worker | O_PubSubManager

datatype request =
  CommandIq (rq_to: string) (rq_id: string) (rq_node: string) (rq_form: data_form)
| SubscribeIq string string string string string
| UnsubscribeIq string string string string string
| GetSubscriptionsIq string string
| WhitespacePing

record gloox =
  gl_jid :: jid
  gl_password :: string
  gl_idCount :: long
  gl_sent :: "request list"
  gl_tracked :: "string \<rightharpoonup> xmpp_object \<times> long"
  gl_messageHandlers :: "xmpp_object list"
  gl_connected :: bool

record world =
  w_login :: login
  w_jid :: jid
  w_gloox :: "gloox option"
  w_pubSub :: bool
  w_bConnectEvent :: bool
  w_bDisconnectEvent :: bool
  w_tmrConnectLoop :: timeout
  w_ids :: long
  w_tick :: dword
  w_clock :: long
  w_DisableTimeout :: "dword option"
  w_deleted :: "xmpp_event list"
  w_fault :: bool
  w_lastInitState :: init_state
  w_isTapi :: bool
  w_lstCallEvents :: "(call_state \<times> call_data \<times> change_reason) list"
  w_lstInitEvents :: "(init_state \<times> change_reason) list"

definition new_gloox :: "jid \<Rightarrow> string \<Rightarrow> gloox" where
  "new_gloox j password = \<lparr>gl_jid = j, gl_password = password, gl_idCount = 0, gl_sent = [],
     gl_tracked = Map.empty, gl_messageHandlers = [], gl_connected = False\<rparr>"

text \<open>\<open>delete pEvent\<close>.\<close>

definition delete_event :: "xmpp_event \<Rightarrow> world \<Rightarrow> world" where
  "delete_event e w = w\<lparr>w_deleted := w_deleted w @ [e]\<rparr>"

definition delete_event_opt :: "xmpp_event option \<Rightarrow> world \<Rightarrow> world" where
  "delete_event_opt ev w = (case ev of None \<Rightarrow> w | Some e \<Rightarrow> delete_event e w)"

definition getUniqueId :: "world \<Rightarrow> long \<times> world" where
  "getUniqueId w = (let (i, ids) = getNextId (w_ids w) in (i, w\<lparr>w_ids := ids\<rparr>))"

text \<open>\<open>Registry::ReadKeyDword\<close>; \<open>w_DisableTimeout\<close> is what \<open>RegQueryValueEx\<close> finds.\<close>

definition ReadKeyDword :: "dword option \<Rightarrow> dword \<Rightarrow> bool \<times> dword" where
  "ReadKeyDword found dwDefault = (case found of None \<Rightarrow> (False, dwDefault) | Some v \<Rightarrow> (True, v))"

section \<open>The gloox client\<close>

definition gloox_getID :: "gloox \<Rightarrow> string \<times> gloox" where
  "gloox_getID g = (''uid'' @ format_ld (gl_idCount g + 1), g\<lparr>gl_idCount := gl_idCount g + 1\<rparr>)"

definition gloox_send :: "request \<Rightarrow> gloox \<Rightarrow> gloox" where
  "gloox_send r g = g\<lparr>gl_sent := gl_sent g @ [r]\<rparr>"

definition gloox_trackID :: "xmpp_object \<Rightarrow> string \<Rightarrow> long \<Rightarrow> gloox \<Rightarrow> gloox" where
  "gloox_trackID ih rid context g =
     (if rid \<noteq> [] then g\<lparr>gl_tracked := (gl_tracked g)(rid \<mapsto> (ih, context))\<rparr> else g)"

text \<open>\<open>send(iq, handler, context)\<close> of a command IQ whose id \<open>getID\<close> has just drawn.\<close>

definition send_command ::
  "string \<Rightarrow> string \<Rightarrow> data_form \<Rightarrow> xmpp_object \<Rightarrow> long \<Rightarrow> gloox \<Rightarrow> string \<times> gloox" where
  "send_command to_jid cmd_name form ih context g =
     (let (rid, g1) = gloox_getID g in
      (rid, gloox_send (CommandIq to_jid rid cmd_name form) (gloox_trackID ih rid context g1)))"

definition submit_form :: "(string \<times> string) list \<Rightarrow> data_form" where
  "submit_form flds =
     foldl (\<lambda>df (n, v). addField (new_field n v TypeTextSingle) df) \<lparr>df_type = TypeSubmit, df_fields = []\<rparr> flds"

section \<open>Requests\<close>

definition PUBSUB_SERVICE :: string where
  "PUBSUB_SERVICE = ''pubsub.active-calls.xmpp.onsip.com''"

text \<open>
  \<open>PubSub::Manager\<close>: the IQ is tracked to the manager, with its \<open>TrackContext\<close>; the results go
  to a \<open>ResultHandler\<close> whose methods only log.
\<close>

definition pubsub_subscribe :: "string \<Rightarrow> string \<Rightarrow> string \<Rightarrow> string \<Rightarrow> gloox \<Rightarrow> string \<times> gloox" where
  "pubsub_subscribe service nd j expire g =
     (if nd = [] then ('''', g)
      else let (rid, g1) = gloox_getID g in
        (rid, gloox_send (SubscribeIq service rid nd j expire) (gloox_trackID O_PubSubManager rid 0 g1)))"

definition pubsub_unsubscribe :: "string \<Rightarrow> string \<Rightarrow> string \<Rightarrow> string \<Rightarrow> gloox \<Rightarrow> string \<times> gloox" where
  "pubsub_unsubscribe service nd subid j g =
     (let (rid, g1) = gloox_getID g in
      (rid, gloox_send (UnsubscribeIq service rid nd j subid) (gloox_trackID O_PubSubManager rid 1 g1)))"

definition pubsub_getSubscriptions :: "string \<Rightarrow> gloox \<Rightarrow> string \<times> gloox" where
  "pubsub_getSubscriptions service g =
     (let (rid, g1) = gloox_getID g in
      (rid, gloox_send (GetSubscriptionsIq service rid) (gloox_trackID O_PubSubManager rid 4 g1)))"

definition Authorize :: "long \<Rightarrow> xmpp_object \<Rightarrow> world \<Rightarrow> world option" where
  "Authorize contextId iqHandler w =
     (let form = addField (new_field ''password'' (li_password (w_login w)) TypeTextPrivate)
                   (submit_form [(''sip-address'', SIPAddress (w_login w))])
      in case w_gloox w of None \<Rightarrow> None
         | Some g \<Rightarrow>
             Some (w\<lparr>w_gloox := Some (snd (send_command ONSIP_AUTH_COMMAND ''authorize-plain'' form
                                         iqHandler contextId g))\<rparr>))"

definition subscription_node :: "world \<Rightarrow> string" where
  "subscription_node w =
     ''/'' @ c_str (li_domain (w_login w)) @ ''/'' @ c_str (li_name (w_login w))"

text \<open>The \<open>PubSub::Manager\<close> is made by \<open>Start\<close> and outlives the client it points to.\<close>

definition SubscribeCallEvents :: "string \<Rightarrow> world \<Rightarrow> (string \<times> world) option" where
  "SubscribeCallEvents expireTime w =
     (case w_gloox w of None \<Rightarrow> None
      | Some g \<Rightarrow>
          if \<not> w_pubSub w then None
          else let (rid, g1) = pubsub_subscribe PUBSUB_SERVICE (subscription_node w) (j_full (gl_jid g)) expireTime g
            in Some (rid, w\<lparr>w_gloox := Some g1\<rparr>))"

definition UnsubscribeCallEvents :: "string \<Rightarrow> xmpp_object \<Rightarrow> world \<Rightarrow> (long \<times> world) option" where
  "UnsubscribeCallEvents subid iqHandler w =
     (case w_gloox w of None \<Rightarrow> None
      | Some g \<Rightarrow>
          if \<not> w_pubSub w then None
          else
            let (rid, g1) = pubsub_unsubscribe PUBSUB_SERVICE (subscription_node w) subid (j_full (gl_jid g)) g;
                (contextId, w1) = getUniqueId (w\<lparr>w_gloox := Some g1\<rparr>)
            in Some (contextId, w1\<lparr>w_gloox := Some (gloox_trackID iqHandler rid contextId g1)\<rparr>))"

definition getSubscriptions :: "world \<Rightarrow> world option" where
  "getSubscriptions w =
     (case w_gloox w of None \<Rightarrow> None
      | Some g \<Rightarrow>
          if \<not> w_pubSub w then None
          else Some (w\<lparr>w_gloox := Some (snd (pubsub_getSubscriptions PUBSUB_SERVICE g))\<rparr>))"

definition Ping :: "world \<Rightarrow> world" where
  "Ping w = (case w_gloox w of None \<Rightarrow> w | Some g \<Rightarrow> w\<lparr>w_gloox := Some (gloox_send WhitespacePing g)\<rparr>)"

text \<open>The number a call request sends in its \<open>to\<close> field.\<close>

definition dial_number :: "string \<Rightarrow> string \<Rightarrow> string" where
  "dial_number domain number =
     (let toNumber =
        (if \<not> contains number ''@'' then
           c_str (filter is_tdigit number) @ ''@'' @ c_str domain
         else if startsWith (tolower number) ''tsip:'' then drop 5 number
         else if startsWith (tolower number) ''tsips:'' then drop 6 number
         else number)
      in if \<not> startsWith (tolower toNumber) ''sip:'' \<and> \<not> startsWith (tolower toNumber) ''sips:''
         then ''sip:'' @ c_str toNumber else toNumber)"

text \<open>The results of \<open>CallNumber\<close> are the request id and the two output fields.\<close>

definition CallNumber ::
  "string \<Rightarrow> long \<Rightarrow> string \<Rightarrow> world \<Rightarrow> ((string \<times> string \<times> string) \<times> world) option" where
  "CallNumber number contextId callSetupId w =
     (let toNumber = dial_number (li_domain (w_login w)) number;
          fromNumber = ''sip:'' @ c_str (SIPAddress (w_login w));
          form = submit_form [(''from'', fromNumber), (''to'', toNumber), (''call-setup-id'', callSetupId)]
      in case w_gloox w of None \<Rightarrow> None
         | Some g \<Rightarrow>
             let (rid, g1) = send_command ONSIP_ACTIVECALLS_COMMAND ''create'' form O_OnSipXmpp contextId g
             in Some ((rid, toNumber, fromNumber), w\<lparr>w_gloox := Some g1\<rparr>))"

definition DropCall :: "string \<Rightarrow> string \<Rightarrow> string \<Rightarrow> long \<Rightarrow> world \<Rightarrow> (string \<times> world) option" where
  "DropCall sipCallid fromTag toTag contextId w =
     (let form = submit_form [(''from-tag'', fromTag), (''to-tag'', toTag), (''call-id'', sipCallid)]
      in case w_gloox w of None \<Rightarrow> None
         | Some g \<Rightarrow>
             let (rid, g1) = send_command ONSIP_ACTIVECALLS_COMMAND ''terminate'' form O_OnSipXmpp contextId g
             in Some (rid, w\<lparr>w_gloox := Some g1\<rparr>))"

section \<open>Notifications\<close>

text \<open>
  \<open>InitStateChange\<close> and \<open>CallStateChange\<close> of \<open>OnSipXmpp\<close>, and of \<open>OnSipTapi\<close> when the engine
  is one (\<open>w_isTapi\<close>). The engine is the only object that registers for the notifications.
\<close>

definition InitStateChange :: "init_state \<Rightarrow> change_reason \<Rightarrow> world \<Rightarrow> world" where
  "InitStateChange s reason w =
     (let w1 = w\<lparr>w_lastInitState := s\<rparr> in
      if w_isTapi w1 then w1\<lparr>w_lstInitEvents := w_lstInitEvents w1 @ [(s, reason)]\<rparr> else w1)"

definition CallStateChange :: "call_state \<Rightarrow> call_data \<Rightarrow> change_reason \<Rightarrow> world \<Rightarrow> world" where
  "CallStateChange s d reason w =
     (if w_isTapi w then w\<lparr>w_lstCallEvents := w_lstCallEvents w @ [(s, d, reason)]\<rparr> else w)"

definition GetInitEvents :: "(init_state \<times> change_reason) list \<Rightarrow> world \<Rightarrow>
    bool \<times> (init_state \<times> change_reason) list \<times> world" where
  "GetInitEvents lstEvents w =
     (if w_lstInitEvents w = [] then (False, lstEvents, w)
      else (True, w_lstInitEvents w, w\<lparr>w_lstInitEvents := []\<rparr>))"

definition GetCallEvents :: "(call_state \<times> call_data \<times> change_reason) list \<Rightarrow> world \<Rightarrow>
    bool \<times> (call_state \<times> call_data \<times> change_reason) list \<times> world" where
  "GetCallEvents lstEvents w =
     (if w_lstCallEvents w = [] then (False, lstEvents, w)
      else (True, w_lstCallEvents w, w\<lparr>w_lstCallEvents := []\<rparr>))"

definition ClearEvents :: "world \<Rightarrow> world" where
  "ClearEvents w = w\<lparr>w_lstCallEvents := [], w_lstInitEvents := []\<rparr>"

section \<open>What the requests keep\<close>

text \<open>The engine is up: the client and its PubSub manager exist.\<close>

definition engine_up :: "world \<Rightarrow> bool" where
  "engine_up w \<longleftrightarrow> w_gloox w \<noteq> None \<and> w_pubSub w"

text \<open>The parts of the world a request leaves alone.\<close>

definition same_view :: "world \<Rightarrow> world \<Rightarrow> bool" where
  "same_view w w' \<longleftrightarrow>
     w_tick w' = w_tick w \<and> w_clock w' = w_clock w \<and> w_deleted w' = w_deleted w \<and>
     w_login w' = w_login w \<and> w_DisableTimeout w' = w_DisableTimeout w \<and>
     w_lstCallEvents w' = w_lstCallEvents w \<and> w_lstInitEvents w' = w_lstInitEvents w \<and>
     w_lastInitState w' = w_lastInitState w \<and> w_fault w' = w_fault w \<and>
     w_bConnectEvent w' = w_bConnectEvent w \<and> w_bDisconnectEvent w' = w_bDisconnectEvent w \<and>
     (engine_up w \<longrightarrow> engine_up w')"

lemma same_view_refl [simp, intro]: "same_view w w"
  by (simp add: same_view_def)

lemma same_view_trans [trans]: "same_view w w' \<Longrightarrow> same_view w' w'' \<Longrightarrow> same_view w w''"
  by (auto simp: same_view_def)

lemma same_viewD:
  assumes "same_view w w'"
  shows "w_tick w' = w_tick w" "w_clock w' = w_clock w" "w_deleted w' = w_deleted w"
    "w_fault w' = w_fault w" "w_lastInitState w' = w_lastInitState w"
    "engine_up w \<Longrightarrow> engine_up w'"
  using assms by (simp_all add: same_view_def)

lemma getUniqueId_keeps [keeps]: "getUniqueId w = (i, w') \<Longrightarrow> same_view w w'"
  by (auto simp: getUniqueId_def getNextId_def Let_def same_view_def engine_up_def)

lemma getUniqueId_eq: "getUniqueId w = (w_ids w + 1, w\<lparr>w_ids := w_ids w + 1\<rparr>)"
  by (simp add: getUniqueId_def getNextId_def Let_def)

lemma requests_keep [keeps]:
  "Authorize ctx h w = Some w' \<Longrightarrow> same_view w w'"
  "SubscribeCallEvents x w = Some (rid, w') \<Longrightarrow> same_view w w'"
  "UnsubscribeCallEvents x h w = Some (c, w') \<Longrightarrow> same_view w w'"
  "getSubscriptions w = Some w' \<Longrightarrow> same_view w w'"
  "CallNumber n ctx s w = Some (r, w') \<Longrightarrow> same_view w w'"
  "DropCall s f t ctx w = Some (rid, w') \<Longrightarrow> same_view w w'"
  "same_view w (Ping w)"
  by (auto simp: Authorize_def SubscribeCallEvents_def UnsubscribeCallEvents_def getSubscriptions_def
      CallNumber_def DropCall_def Ping_def Let_def getUniqueId_eq same_view_def engine_up_def
      split: option.splits if_splits prod.splits)

lemma requests_total:
  assumes "engine_up w"
  shows "\<exists>w'. Authorize ctx h w = Some w'"
    and "\<exists>rid w'. SubscribeCallEvents x w = Some (rid, w')"
    and "\<exists>c w'. UnsubscribeCallEvents x h w = Some (c, w')"
    and "\<exists>w'. getSubscriptions w = Some w'"
    and "\<exists>r w'. CallNumber n ctx s w = Some (r, w')"
    and "\<exists>rid w'. DropCall s f t ctx w = Some (rid, w')"
  using assms
  by (auto simp: Authorize_def SubscribeCallEvents_def UnsubscribeCallEvents_def getSubscriptions_def
      CallNumber_def DropCall_def Let_def engine_up_def split: prod.splits)

section \<open>Properties\<close>

lemma c_str_id: "CHR 0x00 \<notin> set s \<Longrightarrow> c_str s = s"
  by (auto simp: c_str_def takeWhile_eq_all_conv)

lemma c_str_set: "set (c_str s) \<subseteq> set s"
  by (auto simp: c_str_def dest: set_takeWhileD)

lemma c_str_no_nul: "CHR 0x00 \<notin> set (c_str s)"
  by (auto simp: c_str_def dest: set_takeWhileD)

definition has_scheme :: "string \<Rightarrow> bool" where
  "has_scheme s \<longleftrightarrow> startsWith (tolower s) ''sip:'' \<or> startsWith (tolower s) ''sips:''"

lemma has_scheme_not_t:
  "has_scheme s \<Longrightarrow> \<not> startsWith (tolower s) ''tsip:'' \<and> \<not> startsWith (tolower s) ''tsips:''"
  by (auto simp: has_scheme_def startsWith_iff prefix_def)

lemma tolower_sip: "has_scheme (''sip:'' @ s)"
proof -
  have "tolower ''sip:'' = ''sip:''" by (simp add: tolower_def lower_char_def)
  then show ?thesis unfolding has_scheme_def startsWith_iff tolower_append by simp
qed

lemma dial_number_scheme: "has_scheme (dial_number d n)"
  using tolower_sip by (auto simp: dial_number_def Let_def has_scheme_def)

lemma dial_number_fixed: "has_scheme n \<Longrightarrow> CHR ''@'' \<in> set n \<Longrightarrow> dial_number d n = n"
  using has_scheme_not_t [of n] by (auto simp: dial_number_def Let_def has_scheme_def)

lemma scheme_drop_at:
  assumes "startsWith (tolower n) p" and "CHR ''@'' \<in> set n" and "CHR ''@'' \<notin> set p"
  shows "CHR ''@'' \<in> set (drop (length p) n)"
proof (rule ccontr)
  assume "CHR ''@'' \<notin> set (drop (length p) n)"
  moreover have "set n = set (take (length p) n) \<union> set (drop (length p) n)"
    by (metis append_take_drop_id set_append)
  ultimately have "CHR ''@'' \<in> set (take (length p) n)" using assms(2) by blast
  then have "lower_char (CHR ''@'') \<in> set (take (length p) (tolower n))"
    by (auto simp: tolower_def take_map)
  moreover have "take (length p) (tolower n) = p"
    using assms(1) by (auto simp: startsWith_iff prefix_def)
  ultimately show False using assms(3) by (simp add: lower_char_def)
qed

lemma dial_number_at:
  assumes "CHR 0x00 \<notin> set n"
  shows "CHR ''@'' \<in> set (dial_number d n)"
proof (cases "CHR ''@'' \<in> set n")
  case False
  let ?s = "c_str (filter is_tdigit n) @ ''@'' @ c_str d"
  have "c_str ?s = ?s" by (rule c_str_id) (use c_str_no_nul in auto)
  with False show ?thesis by (auto simp: dial_number_def Let_def)
next
  case True
  have "CHR ''@'' \<in> set (drop 5 n)" if "startsWith (tolower n) ''tsip:''"
    using scheme_drop_at [OF that True] by (simp add: eval_nat_numeral)
  moreover have "CHR ''@'' \<in> set (drop 6 n)" if "startsWith (tolower n) ''tsips:''"
    using scheme_drop_at [OF that True] by (simp add: eval_nat_numeral)
  moreover have "c_str (drop k n) = drop k n" for k
    by (rule c_str_id) (use assms in \<open>auto dest: in_set_dropD\<close>)
  moreover have "c_str n = n" using assms by (rule c_str_id)
  ultimately show ?thesis using True by (auto simp: dial_number_def Let_def)
qed

text \<open>
  Whatever string is dialled, the \<open>to\<close> field of the call request is a SIP URI: it starts
  with \<open>sip:\<close> or \<open>sips:\<close>, it has a host part when the string is free of NUL characters, and
  normalising it again changes nothing. (The string may be a phone number with punctuation, an
  address without a scheme, or one with the dialer's \<open>T\<close> in front.)
\<close>
theorem dial_number_uri:
  assumes "CHR 0x00 \<notin> set number"
  shows "has_scheme (dial_number domain number) \<and> contains (dial_number domain number) ''@'' \<and>
     dial_number domain' (dial_number domain number) = dial_number domain number"
  using dial_number_scheme dial_number_at [OF assms]
  by (simp add: dial_number_fixed)

theorem dial_number_uri_example:
  "contains (dial_number ''onsip.com'' ''(555) 123-4567'') ''@''"
  using dial_number_uri [of "''(555) 123-4567''" "''onsip.com''"] by simp

text \<open>
  C36. Security finding: a number dialled as \<open>tsips:\<close> (any case), whose comment says it gets the
  same treatment as \<open>tsip:\<close>, loses its whole TLS scheme and is called as plain \<open>sip:\<close>.
\<close>
theorem tsips_downgraded:
  assumes "tolower p = ''tsips:''" and "CHR ''@'' \<in> set rest" and "CHR 0x00 \<notin> set rest"
    and "\<not> has_scheme rest"
  shows "dial_number domain (p @ rest) = ''sip:'' @ rest"
proof -
  have len: "length p = 6" using assms(1) by (auto simp: tolower_def dest: arg_cong [of _ _ length])
  have "\<not> startsWith (tolower (p @ rest)) ''tsip:''" "startsWith (tolower (p @ rest)) ''tsips:''"
    using assms(1) by (auto simp: startsWith_iff)
  with len assms(2-4) show ?thesis
    by (auto simp: dial_number_def Let_def has_scheme_def c_str_id)
qed

theorem tsips_downgraded_witness:
  "dial_number ''onsip.com'' (''Tsips:'' @ ''bob@example.com'') = ''sip:'' @ ''bob@example.com''"
  by (rule tsips_downgraded)
    (auto simp: tolower_def lower_char_def char_eval has_scheme_def startsWith_iff)

text \<open>A world with a client, for the witnesses.\<close>

definition sample_world :: world where
  "sample_world = \<lparr>w_login = \<lparr>li_name = ''alice'', li_password = ''secret'', li_domain = ''onsip.com''\<rparr>,
     w_jid = empty_JID, w_gloox = Some (new_gloox empty_JID ''secret''), w_pubSub = True,
     w_bConnectEvent = True, w_bDisconnectEvent = False, w_tmrConnectLoop = TimeOut 250 0,
     w_ids = 0, w_tick = 4294967000, w_clock = 42, w_DisableTimeout = None, w_deleted = [], w_fault = False,
     w_lastInitState = IS_OK, w_isTapi = True, w_lstCallEvents = [], w_lstInitEvents = []\<rparr>"

text \<open>
  A call request is one \<open>create\<close> command to the call service, with the caller's SIP
  address, the normalised number and the call-setup-id as its form, answered to the engine under
  the given context: with a client present \<open>CallNumber\<close> cannot fail.
\<close>
theorem CallNumber_sends:
  assumes "w_gloox w = Some g"
  shows "\<exists>rid toF fromF w' g' form.
     CallNumber number ctx setup w = Some ((rid, toF, fromF), w') \<and> w_gloox w' = Some g' \<and>
     gl_sent g' = gl_sent g @ [CommandIq ONSIP_ACTIVECALLS_COMMAND rid ''create'' form] \<and>
     form_value form ''from'' = Some fromF \<and> form_value form ''to'' = Some toF \<and>
     form_value form ''call-setup-id'' = Some setup \<and>
     toF = dial_number (li_domain (w_login w)) number \<and>
     gl_tracked g' rid = Some (O_OnSipXmpp, ctx) \<and> same_view w w'"
  using assms
  by (auto simp: CallNumber_def Let_def send_command_def gloox_getID_def gloox_send_def gloox_trackID_def
      submit_form_def addField_def new_field_def form_value_def df_field_def field_value_def
      same_view_def engine_up_def)

theorem CallNumber_sends_example:
  "\<exists>r w'. CallNumber ''100'' 7 ''00000042'' sample_world = Some (r, w')"
  using CallNumber_sends [of sample_world "the (w_gloox sample_world)" "''100''" 7 "''00000042''"]
  by (auto simp: sample_world_def)

end
