(* ===== verification/CallHandlers.thy ===== *)
theory CallHandlers
  imports Xmpp
begin

text \<open>
  The three call state handlers of \<open>OnSipCallStateMachine.cpp\<close>: a call dialled on the phone
  (\<open>OnSipOutgoingCallStateHandler\<close>), an incoming call (\<open>OnSipIncomingCallStateHandler\<close>) and a
  call requested by the program (\<open>OnSipMakeCallStateHandler\<close>, which the server first places to
  the user's own phones and then to the number). The class hierarchy is one record with the
  class as a field; \<open>assignNewState\<close> deletes the event the handler held before.
\<close>

datatype call_kind = OutgoingCall | IncomingCall | MakeCall

record call_handler =
  ch_kind :: call_kind
  ch_item :: "(call_state, xmpp_event, call_data) state_item"
  ch_branches :: branches
  ch_droppedContextIds :: "long list"
  ch_bHasPreExecute :: bool
  ch_contextId :: long
  ch_out_id :: string
  ch_toSipField :: string
  ch_fromSipField :: string
  ch_in_sipCallId :: string
  ch_out_sipCallId :: string

abbreviation ch_state :: "call_handler \<Rightarrow> call_state" where "ch_state h \<equiv> si_state (ch_item h)"
abbreviation ch_data :: "call_handler \<Rightarrow> call_data" where "ch_data h \<equiv> si_data (ch_item h)"
abbreviation ch_event :: "call_handler \<Rightarrow> xmpp_event option" where "ch_event h \<equiv> si_event (ch_item h)"

definition set_data :: "call_data \<Rightarrow> call_handler \<Rightarrow> call_handler" where
  "set_data d h = h\<lparr>ch_item := ch_item h\<lparr>si_data := d\<rparr>\<rparr>"

definition IsState :: "call_handler \<Rightarrow> call_state \<Rightarrow> bool" where
  "IsState h s \<longleftrightarrow> s = ch_state h"

definition assignNewState ::
  "call_state \<Rightarrow> xmpp_event option \<Rightarrow> call_handler \<Rightarrow> world \<Rightarrow> call_handler \<times> world" where
  "assignNewState s ev h w =
     (let (it, old) = assign_new_state s ev (w_tick w) (ch_item h) in
      (h\<lparr>ch_item := it\<rparr>, delete_event_opt old w))"

definition new_call_handler :: "call_kind \<Rightarrow> call_state \<Rightarrow> xmpp_event option \<Rightarrow> dword \<Rightarrow> call_handler" where
  "new_call_handler k s ev tick =
     \<lparr>ch_kind = k, ch_item = new_state_item s ev new_call_data tick, ch_branches = [],
      ch_droppedContextIds = [], ch_bHasPreExecute = False, ch_contextId = 0, ch_out_id = '''',
      ch_toSipField = '''', ch_fromSipField = '''', ch_in_sipCallId = '''', ch_out_sipCallId = ''''\<rparr>"

section \<open>OnSipCallStateHandlerBase\<close>

definition MAKECALL_CREATE_TIMEOUT :: long where
  "MAKECALL_CREATE_TIMEOUT = word_of_int (10 * MSECS_IN_SEC)"
definition MAKECALL_INBOUND_REQUEST_TIMEOUT :: long where
  "MAKECALL_INBOUND_REQUEST_TIMEOUT = word_of_int (45 * MSECS_IN_SEC)"
definition MAKECALL_INBOUND_ANSWERED_TIMEOUT :: long where
  "MAKECALL_INBOUND_ANSWERED_TIMEOUT = word_of_int (15 * MSECS_IN_SEC)"
definition OUTBOUND_REQUEST_TIMEOUT :: long where
  "OUTBOUND_REQUEST_TIMEOUT = word_of_int (2 * MSECS_IN_MIN)"
definition CONNECTED_CALL_TIMEOUT :: long where
  "CONNECTED_CALL_TIMEOUT = word_of_int (3 * MSECS_IN_HOUR)"
definition INBOUND_OFFERING_TIMEOUT :: long where
  "INBOUND_OFFERING_TIMEOUT = word_of_int (2 * MSECS_IN_MIN)"
definition DROP_REQUEST_TIMEOUT :: long where
  "DROP_REQUEST_TIMEOUT = word_of_int (10 * MSECS_IN_SEC)"

lemmas timeout_defs = MAKECALL_CREATE_TIMEOUT_def MAKECALL_INBOUND_REQUEST_TIMEOUT_def
  MAKECALL_INBOUND_ANSWERED_TIMEOUT_def OUTBOUND_REQUEST_TIMEOUT_def CONNECTED_CALL_TIMEOUT_def
  INBOUND_OFFERING_TIMEOUT_def DROP_REQUEST_TIMEOUT_def msecs_defs

text \<open>The comparison is signed; the registry value can switch the timeouts off.\<close>

definition CheckStateTimeout ::
  "call_state \<Rightarrow> long \<Rightarrow> call_handler \<Rightarrow> world \<Rightarrow> bool \<times> call_handler \<times> world" where
  "CheckStateTimeout callState timeout h w =
     (if IsState h callState \<and>
         sint timeout < sint (MsecsSinceLastStateChange (ch_item h) (w_tick w)) then
        let (_, dwValue) = ReadKeyDword (w_DisableTimeout w) 0 in
        if dwValue \<noteq> 0 then (False, h, w)
        else let (h', w') = assignNewState CS_Dropped None h w in (True, h', w')
      else (False, h, w))"

text \<open>The loop of \<open>CheckDropRequestEvent\<close>: one terminate request per branch.\<close>

fun drop_branches :: "branches \<Rightarrow> world \<Rightarrow> (long list \<times> world) option" where
  "drop_branches [] w = Some ([], w)"
| "drop_branches (b # bs) w = do {
     let (contextId, w1) = getUniqueId w in do {
       (_, w2) \<leftarrow> DropCall (m_sipCallId b) (m_fromTag b) (m_toTag b) contextId w1;
       (ids, w3) \<leftarrow> drop_branches bs w2;
       Some (contextId # ids, w3)
     }
   }"

definition CheckDropRequestEvent ::
  "xmpp_event \<Rightarrow> long \<Rightarrow> call_handler \<Rightarrow> world \<Rightarrow> (bool \<times> call_handler \<times> world) option" where
  "CheckDropRequestEvent e callId h w =
     (if getDropRequestEvent e \<noteq> Some callId then Some (False, h, w)
      else do {
        (ids, w') \<leftarrow> drop_branches (ch_branches h) w;
        Some (True, h\<lparr>ch_droppedContextIds := ch_droppedContextIds h @ ids\<rparr>, w')
      })"

definition CheckIqReplyDropRequest :: "xmpp_event \<Rightarrow> call_handler \<Rightarrow> bool \<times> call_handler" where
  "CheckIqReplyDropRequest e h =
     (if \<not> getXmppIqResultEvent e then (False, h)
      else if xe_context e \<notin> set (ch_droppedContextIds h) then (False, h)
      else (True, h\<lparr>ch_droppedContextIds := remove1 (xe_context e) (ch_droppedContextIds h)\<rparr>))"

text \<open>
  The tail the three classes share: a drop request for this call, then the replies to the
  terminate requests.
\<close>

definition drop_or_reply ::
  "xmpp_event \<Rightarrow> call_handler \<Rightarrow> world \<Rightarrow> (bool \<times> call_handler \<times> world) option" where
  "drop_or_reply e h w = do {
     (drop, h1, w1) \<leftarrow> CheckDropRequestEvent e (m_callId (ch_data h)) h w;
     if drop then
       (case assignNewState CS_PreDropCall None h1 w1 of
          (h2, w2) \<Rightarrow> Some (True, h2, delete_event e w2))
     else
       (case CheckIqReplyDropRequest e h1 of (reply, h2) \<Rightarrow>
          if reply then Some (True, h2, delete_event e w1) else Some (False, h2, w1))
   }"

section \<open>OnSipOutgoingCallStateHandler\<close>

text \<open>
  The constructor is only called on an active-call event; \<open>AssignCallStateData\<close> returns early on
  a null event.
\<close>

definition assign_from :: "xmpp_event \<Rightarrow> long \<Rightarrow> call_data \<Rightarrow> call_data" where
  "assign_from e callId d =
     (case getActiveCallEvent e of None \<Rightarrow> d
      | Some ac \<Rightarrow> AssignCallStateData d (xe_id e) ac callId True None)"

definition new_OutgoingCall :: "xmpp_event \<Rightarrow> long \<Rightarrow> dword \<Rightarrow> call_handler" where
  "new_OutgoingCall e callId tick =
     (let h = new_call_handler OutgoingCall CS_PhysicalOutProceeding (Some e) tick;
          d = assign_from e callId ((ch_data h)\<lparr>m_callType := CT_PhysicalCall\<rparr>);
          h = set_data d h
      in h\<lparr>ch_branches := AddBranch d (ch_branches h)\<rparr>)"

definition Outgoing_IsYourEvent ::
  "call_handler \<Rightarrow> xmpp_event \<Rightarrow> world \<Rightarrow> (bool \<times> call_handler \<times> world) option" where
  "Outgoing_IsYourEvent h e w =
     (case getActiveCallEvent e of
        Some ac \<Rightarrow>
          if ac_sipCallid ac \<noteq> m_sipCallId (ch_data h) then Some (False, h, w)
          else
            let h1 = h\<lparr>ch_branches := AddBranchEvent (xe_id e) ac (m_callId (ch_data h))
                         (m_callType (ch_data h)) True None (ch_branches h)\<rparr>
            in if ac_dialogState ac = DS_CONFIRMED then
                 (case assignNewState CS_Connected (Some e) h1 w of
                    (h2, w2) \<Rightarrow>
                      Some (True, set_data (AssignCallStateData (ch_data h2) (xe_id e) ac (- 1) True None) h2, w2))
               else Some (True, h1, delete_event e w)
      | None \<Rightarrow>
          if getRetractCallEvent e then
            if \<not> HasId (xe_id e) (ch_branches h) then Some (False, h, w)
            else (case assignNewState CS_Dropped (Some e) h w of (h1, w1) \<Rightarrow> Some (True, h1, w1))
          else drop_or_reply e h w)"

text \<open>
  \<open>IsStillExist\<close> of the three classes: the first expired timeout puts the call into
  \<open>Dropped\<close> but still answers true, so that the next check removes it.
\<close>

fun check_timeouts ::
  "(call_state \<times> long) list \<Rightarrow> call_handler \<Rightarrow> world \<Rightarrow> bool \<times> call_handler \<times> world" where
  "check_timeouts [] h w = (\<not> IsState h CS_Dropped, h, w)"
| "check_timeouts ((s, t) # rest) h w =
     (let (fired, h', w') = CheckStateTimeout s t h w in
      if fired then (True, h', w') else check_timeouts rest h' w')"

definition Outgoing_IsStillExist :: "call_handler \<Rightarrow> world \<Rightarrow> bool \<times> call_handler \<times> world" where
  "Outgoing_IsStillExist =
     check_timeouts [(CS_PhysicalOutProceeding, OUTBOUND_REQUEST_TIMEOUT),
       (CS_Connected, CONNECTED_CALL_TIMEOUT), (CS_PreDropCall, DROP_REQUEST_TIMEOUT)]"

section \<open>OnSipIncomingCallStateHandler\<close>

definition new_IncomingCall :: "xmpp_event \<Rightarrow> long \<Rightarrow> dword \<Rightarrow> call_handler" where
  "new_IncomingCall e callId tick =
     (let h = new_call_handler IncomingCall CS_Offering (Some e) tick;
          d = assign_from e callId ((ch_data h)\<lparr>m_callType := CT_IncomingCall\<rparr>);
          h = set_data d h
      in case getActiveCallEvent e of None \<Rightarrow> h
         | Some ac \<Rightarrow>
             h\<lparr>ch_branches := AddBranchEvent (xe_id e) ac (m_callId d) (m_callType d) True None (ch_branches h)\<rparr>)"

definition Incoming_IsYourEvent ::
  "call_handler \<Rightarrow> xmpp_event \<Rightarrow> world \<Rightarrow> (bool \<times> call_handler \<times> world) option" where
  "Incoming_IsYourEvent h e w =
     (case getActiveCallEvent e of
        Some ac \<Rightarrow>
          if ac_sipCallid ac \<noteq> m_sipCallId (ch_data h) then Some (False, h, w)
          else
            let h1 = h\<lparr>ch_branches := AddBranchEvent (xe_id e) ac (m_callId (ch_data h))
                         (m_callType (ch_data h)) True None (ch_branches h)\<rparr>
            in if ac_dialogState ac = DS_CONFIRMED then
                 (case assignNewState CS_Connected (Some e) h1 w of
                    (h2, w2) \<Rightarrow>
                      Some (True, set_data (AssignCallStateData (ch_data h2) (xe_id e) ac (- 1) True None) h2, w2))
               else Some (True, h1, delete_event e w)
      | None \<Rightarrow>
          if getRetractCallEvent e then
            if \<not> HasId (xe_id e) (ch_branches h) then Some (False, h, w)
            else
              (case CheckDroppedCall (ch_data h) (xe_id e) (ch_branches h) of
                 (dropped, d, bs) \<Rightarrow>
                   let h1 = (set_data d h)\<lparr>ch_branches := bs\<rparr> in
                   if dropped then
                     (case assignNewState CS_Dropped (Some e) h1 w of (h2, w2) \<Rightarrow> Some (True, h2, w2))
                   else Some (True, h1, delete_event e w))
          else drop_or_reply e h w)"

definition Incoming_IsStillExist :: "call_handler \<Rightarrow> world \<Rightarrow> bool \<times> call_handler \<times> world" where
  "Incoming_IsStillExist =
     check_timeouts [(CS_Offering, INBOUND_OFFERING_TIMEOUT),
       (CS_Connected, CONNECTED_CALL_TIMEOUT), (CS_PreDropCall, DROP_REQUEST_TIMEOUT)]"

section \<open>OnSipMakeCallStateHandler\<close>

definition new_MakeCall :: "string \<Rightarrow> long \<Rightarrow> dword \<Rightarrow> call_handler" where
  "new_MakeCall todial callId tick =
     (let h = new_call_handler MakeCall CS_PreMakeCall None tick
      in (set_data ((ch_data h)\<lparr>m_callType := CT_MakeCall, m_callId := callId, m_remoteId := todial\<rparr>) h)
           \<lparr>ch_contextId := 0, ch_bHasPreExecute := True\<rparr>)"

definition call_setup_of_clock :: "long \<Rightarrow> string" where
  "call_setup_of_clock clk =
     (let s = format_08ld clk in if 8 < length s then drop (length s - 8) s else s)"

definition MakeCall_PreExecute ::
  "call_handler \<Rightarrow> world \<Rightarrow> (bool \<times> call_handler \<times> world) option" where
  "MakeCall_PreExecute h w =
     (let (ctx, w1) = getUniqueId w;
          h1 = h\<lparr>ch_contextId := ctx\<rparr>;
          toDial = c_str (m_remoteId (ch_data h1));
          callSetupId = call_setup_of_clock (w_clock w1);
          h2 = set_data ((ch_data h1)\<lparr>m_call_setup_id := callSetupId\<rparr>) h1
      in do {
        ((_, toF, fromF), w2) \<leftarrow> CallNumber toDial ctx callSetupId w1;
        (case assignNewState CS_MakeCallSet None (h2\<lparr>ch_toSipField := toF, ch_fromSipField := fromF\<rparr>) w2 of
           (h3, w3) \<Rightarrow> Some (True, h3, w3))
      })"

text \<open>The test that an active-call event belongs to the requested call.\<close>

definition MakeCall_matches :: "call_handler \<Rightarrow> active_call \<Rightarrow> bool" where
  "MakeCall_matches h ac \<longleftrightarrow>
     (ac_to_uri ac = ch_toSipField h \<or> ac_to_uri ac = ch_fromSipField h \<or>
      ac_from_uri ac = ch_toSipField h \<or> ac_from_uri ac = ch_fromSipField h) \<and>
     SameCallSetupId (ch_data h) (ac_call_setup_id ac)"

definition MakeCall_add_branch :: "xmpp_event \<Rightarrow> active_call \<Rightarrow> bool \<Rightarrow> call_handler \<Rightarrow> call_handler" where
  "MakeCall_add_branch e ac bUpdateCallerId h =
     h\<lparr>ch_branches := AddBranchEvent (xe_id e) ac (m_callId (ch_data h)) (m_callType (ch_data h))
         bUpdateCallerId (Some (c_str (m_call_setup_id (ch_data h)))) (ch_branches h)\<rparr>"

definition MakeCall_assign :: "xmpp_event \<Rightarrow> active_call \<Rightarrow> bool \<Rightarrow> call_handler \<Rightarrow> call_handler" where
  "MakeCall_assign e ac bUpdateCallerId h =
     set_data (AssignCallStateData (ch_data h) (xe_id e) ac (- 1) bUpdateCallerId None) h"

definition MakeCall_activeCall ::
  "call_handler \<Rightarrow> xmpp_event \<Rightarrow> active_call \<Rightarrow> world \<Rightarrow> bool \<times> call_handler \<times> world" where
  "MakeCall_activeCall h e ac w =
     (if \<not> MakeCall_matches h ac then (False, h, w)
      else if IsError e then
        (let (h1, w1) = assignNewState CS_Dropped (Some e) h w in (True, h1, w1))
      else
        let h = MakeCall_add_branch e ac False h in
        if ch_fromSipField h = ac_to_uri ac \<and> ac_dialogState ac = DS_REQUESTED then
          (if IsState h CS_MakeCallSet then
             (let (h1, w1) = assignNewState CS_MakeCallRequested (Some e) h w in
              (True, MakeCall_assign e ac False (h1\<lparr>ch_in_sipCallId := ac_sipCallid ac\<rparr>), w1))
           else (True, h, delete_event e w))
        else if IsState h CS_MakeCallRequested \<and> ch_fromSipField h = ac_to_uri ac then
          (let (h1, w1) = assignNewState
                 (if ac_dialogState ac = DS_CONFIRMED then CS_MakeCallRequestedAnswered else CS_Dropped)
                 (Some e) h w
           in (True, MakeCall_assign e ac False h1, w1))
        else if IsState h CS_MakeCallRequestedAnswered \<and> ch_toSipField h = ac_to_uri ac then
          (let (h1, w1) =
                 (if ac_dialogState ac = DS_CREATED then
                    (let (h1, w1) = assignNewState CS_MakeCallOutgoingCreated (Some e) h w in
                     (MakeCall_add_branch e ac True h1, w1))
                  else assignNewState CS_Dropped (Some e) h w)
           in (True, MakeCall_assign e ac True
                 (h1\<lparr>ch_out_sipCallId := ac_sipCallid ac, ch_out_id := xe_id e\<rparr>), w1))
        else if IsState h CS_MakeCallOutgoingCreated \<and> ch_toSipField h = ac_to_uri ac then
          (if ac_dialogState ac = DS_CONFIRMED then
             (let (h1, w1) = assignNewState CS_Connected (Some e) h w in
              (True, MakeCall_add_branch e ac True (MakeCall_assign e ac True h1), w1))
           else
             (let (h1, w1) = assignNewState CS_Dropped (Some e) h w in (True, h1, w1)))
        else (True, h, delete_event e w))"

definition MakeCall_retract ::
  "call_handler \<Rightarrow> xmpp_event \<Rightarrow> world \<Rightarrow> bool \<times> call_handler \<times> world" where
  "MakeCall_retract h e w =
     (if HasId (xe_id e) (ch_branches h) then
        (let (dropped, d, bs) = CheckDroppedCall (ch_data h) (xe_id e) (ch_branches h);
             h1 = (set_data d h)\<lparr>ch_branches := bs\<rparr>
         in if dropped then
              (let (h2, w2) = assignNewState CS_Dropped (Some e) h1 w in (True, h2, w2))
            else (True, h1, delete_event e w))
      else if ch_out_id h = xe_id e then
        (let (h1, w1) = assignNewState CS_Dropped (Some e) h w in (True, h1, w1))
      else (True, h, delete_event e w))"

definition MakeCall_callRequest ::
  "call_handler \<Rightarrow> xmpp_event \<Rightarrow> world \<Rightarrow> bool \<times> call_handler \<times> world" where
  "MakeCall_callRequest h e w =
     (if getCallRequestIqEvent e \<noteq> None \<and> ch_contextId h = xe_context e then
        (if IsError e then
           (let (h1, w1) = assignNewState CS_Dropped (Some e) h w in (True, h1, w1))
         else (True, h, delete_event e w))
      else (False, h, w))"

definition MakeCall_IsYourEvent ::
  "call_handler \<Rightarrow> xmpp_event \<Rightarrow> world \<Rightarrow> (bool \<times> call_handler \<times> world) option" where
  "MakeCall_IsYourEvent h e w =
     (case getActiveCallEvent e of
        Some ac \<Rightarrow> Some (MakeCall_activeCall h e ac w)
      | None \<Rightarrow>
          if getRetractCallEvent e then Some (MakeCall_retract h e w)
          else do {
            (mine, h1, w1) \<leftarrow> drop_or_reply e h w;
            if mine then Some (True, h1, w1) else Some (MakeCall_callRequest h1 e w1)
          })"

definition MakeCall_IsStillExist :: "call_handler \<Rightarrow> world \<Rightarrow> bool \<times> call_handler \<times> world" where
  "MakeCall_IsStillExist =
     check_timeouts [(CS_MakeCallSet, MAKECALL_CREATE_TIMEOUT),
       (CS_MakeCallRequested, MAKECALL_INBOUND_REQUEST_TIMEOUT),
       (CS_MakeCallRequestedAnswered, MAKECALL_INBOUND_ANSWERED_TIMEOUT),
       (CS_MakeCallOutgoingCreated, OUTBOUND_REQUEST_TIMEOUT),
       (CS_Connected, CONNECTED_CALL_TIMEOUT), (CS_PreDropCall, DROP_REQUEST_TIMEOUT)]"

section \<open>The virtual methods\<close>

fun Call_IsYourEvent ::
  "call_handler \<Rightarrow> xmpp_event \<Rightarrow> world \<Rightarrow> (bool \<times> call_handler \<times> world) option" where
  "Call_IsYourEvent h e w =
     (case ch_kind h of
        OutgoingCall \<Rightarrow> Outgoing_IsYourEvent h e w
      | IncomingCall \<Rightarrow> Incoming_IsYourEvent h e w
      | MakeCall \<Rightarrow> MakeCall_IsYourEvent h e w)"

fun Call_IsStillExist :: "call_handler \<Rightarrow> world \<Rightarrow> bool \<times> call_handler \<times> world" where
  "Call_IsStillExist h w =
     (case ch_kind h of
        OutgoingCall \<Rightarrow> Outgoing_IsStillExist h w
      | IncomingCall \<Rightarrow> Incoming_IsStillExist h w
      | MakeCall \<Rightarrow> MakeCall_IsStillExist h w)"

declare Call_IsYourEvent.simps [simp del] Call_IsStillExist.simps [simp del]

text \<open>The handler's destructor deletes the event its state item holds.\<close>

definition delete_call_handler :: "call_handler \<Rightarrow> world \<Rightarrow> world" where
  "delete_call_handler h w = delete_event_opt (ch_event h) w"

end
