(* ===== verification/CallMachine.thy ===== *)
theory CallMachine
  imports CallHandlers
begin

text \<open>
  \<open>OnSipCallStateMachine\<close>: the virtual methods of the call handlers as the operations of the
  state machine, with the three locales of \<open>StateMachine\<close> interpreted on them, and the facts on
  single handlers those rest on (event ownership, invariant, timeouts).
\<close>

section \<open>The machine\<close>

text \<open>\<open>OnSipCallStateMachine::UnknownEvent\<close>.\<close>

definition Call_UnknownEvent :: "xmpp_event \<Rightarrow> world \<Rightarrow> call_handler option \<times> world" where
  "Call_UnknownEvent e w =
     (case getActiveCallEvent e of
        None \<Rightarrow> (None, w)
      | Some ac \<Rightarrow>
          if ac_dialogState ac = DS_CREATED then
            (let (callId, w1) = getUniqueId w in (Some (new_OutgoingCall e callId (w_tick w1)), w1))
          else if ac_dialogState ac = DS_REQUESTED then
            (let (callId, w1) = getUniqueId w in (Some (new_IncomingCall e callId (w_tick w1)), w1))
          else (None, w))"

definition call_ops :: "(call_handler, xmpp_event, call_state, call_data, unit, world) ops" where
  "call_ops = \<lparr>
     op_IsYourEvent = Call_IsYourEvent,
     op_IsStillExist = Call_IsStillExist,
     op_PollStateHandler = (\<lambda>h w. Some (False, h, w)),
     op_getCurrentState = (\<lambda>h. ch_state h),
     op_getCurrentStateData = (\<lambda>h. ch_data h),
     op_UnknownEvent = Call_UnknownEvent,
     op_StateChange = (\<lambda>_. CallStateChange),
     op_deleteHandler = delete_call_handler,
     op_deleteEvent = delete_event,
     op_HasPreExecute = ch_bHasPreExecute,
     op_PreExecute = MakeCall_PreExecute\<rparr>"

type_synonym call_machine = "(call_handler, unit, xmpp_event) base_machine"

definition MakeCallAsync :: "string \<Rightarrow> call_machine \<Rightarrow> world \<Rightarrow> long \<times> call_machine \<times> world" where
  "MakeCallAsync phoneNumber m w =
     (let (callId, w1) = getUniqueId w in
      (callId, AddStateHandlerRequest (new_MakeCall phoneNumber callId (w_tick w1)) m, w1))"

definition DropCallAsync :: "long \<Rightarrow> call_machine \<Rightarrow> call_machine" where
  "DropCallAsync callId m = AddEvent (DropRequestEvent callId) m"

section \<open>Events have one owner\<close>

definition own_opt :: "xmpp_event option \<Rightarrow> xmpp_event multiset" where
  "own_opt ev = (case ev of None \<Rightarrow> {#} | Some e \<Rightarrow> {#e#})"

lemma own_opt_simps [simp]: "own_opt None = {#}" "own_opt (Some e) = {#e#}"
  by (simp_all add: own_opt_def)

abbreviation call_own :: "call_handler \<Rightarrow> xmpp_event multiset" where
  "call_own h \<equiv> own_opt (ch_event h)"

definition gone :: "world \<Rightarrow> xmpp_event multiset" where
  "gone w = mset (w_deleted w)"

lemma gone_delete [simp]:
  "gone (delete_event e w) = gone w + {#e#}"
  "gone (delete_event_opt ev w) = gone w + own_opt ev"
  by (auto simp: gone_def delete_event_def delete_event_opt_def split: option.split)

lemma gone_same_view: "same_view w w' \<Longrightarrow> gone w' = gone w"
  by (simp add: gone_def same_view_def)

lemma set_data_simps [simp]:
  "ch_event (set_data d h) = ch_event h" "ch_state (set_data d h) = ch_state h"
  "ch_data (set_data d h) = d" "ch_branches (set_data d h) = ch_branches h"
  "ch_kind (set_data d h) = ch_kind h" "ch_bHasPreExecute (set_data d h) = ch_bHasPreExecute h"
  "si_last (ch_item (set_data d h)) = si_last (ch_item h)"
  by (simp_all add: set_data_def)

lemma assignNewState_eq:
  "assignNewState s ev h w =
     (h\<lparr>ch_item := (ch_item h)\<lparr>si_state := s, si_event := ev, si_last := w_tick w\<rparr>\<rparr>,
      delete_event_opt (ch_event h) w)"
  by (simp add: assignNewState_def assign_new_state_def)

lemma add_branch_simps [simp]:
  "ch_event (MakeCall_add_branch e ac b h) = ch_event h" "ch_state (MakeCall_add_branch e ac b h) = ch_state h"
  "ch_data (MakeCall_add_branch e ac b h) = ch_data h" "ch_kind (MakeCall_add_branch e ac b h) = ch_kind h"
  "ch_bHasPreExecute (MakeCall_add_branch e ac b h) = ch_bHasPreExecute h"
  by (simp_all add: MakeCall_add_branch_def)

lemma mc_assign_simps [simp]:
  "ch_event (MakeCall_assign e ac b h) = ch_event h" "ch_state (MakeCall_assign e ac b h) = ch_state h"
  "ch_branches (MakeCall_assign e ac b h) = ch_branches h" "ch_kind (MakeCall_assign e ac b h) = ch_kind h"
  "ch_bHasPreExecute (MakeCall_assign e ac b h) = ch_bHasPreExecute h"
  by (simp_all add: MakeCall_assign_def)

lemma drop_branches_keeps [keeps]: "drop_branches bs w = Some (ids, w') \<Longrightarrow> same_view w w'"
proof (induction bs arbitrary: w ids w')
  case (Cons b bs)
  obtain c w1 where u: "getUniqueId w = (c, w1)" by (cases "getUniqueId w")
  with Cons.prems obtain rid w2 ids2 where d: "DropCall (m_sipCallId b) (m_fromTag b) (m_toTag b) c w1 = Some (rid, w2)"
    and r: "drop_branches bs w2 = Some (ids2, w')" by (auto simp: bind_eq_Some_conv)
  from getUniqueId_keeps [OF u] requests_keep(6) [OF d] Cons.IH [OF r]
  show ?case by (meson same_view_trans)
qed simp

definition conserves ::
  "xmpp_event \<Rightarrow> call_handler \<Rightarrow> world \<Rightarrow> bool \<times> call_handler \<times> world \<Rightarrow> bool" where
  "conserves e h w r \<longleftrightarrow>
     (case r of (b, h', w') \<Rightarrow>
        call_own h' + gone w' = call_own h + gone w + (if b then {#e#} else {#}))"

lemma CheckDropRequestEvent_conserves:
  "CheckDropRequestEvent e c h w = Some (b, h', w') \<Longrightarrow>
     ch_item h' = ch_item h \<and> gone w' = gone w \<and> ch_branches h' = ch_branches h"
  by (auto simp: CheckDropRequestEvent_def bind_eq_Some_conv split: if_splits
      dest!: drop_branches_keeps gone_same_view)

lemma CheckIqReply_item:
  "CheckIqReplyDropRequest e h = (b, h') \<Longrightarrow> ch_item h' = ch_item h \<and> ch_branches h' = ch_branches h"
  by (auto simp: CheckIqReplyDropRequest_def split: if_splits)

lemma drop_or_reply_conserves: "drop_or_reply e h w = Some r \<Longrightarrow> conserves e h w r"
  by (auto simp: drop_or_reply_def bind_eq_Some_conv assignNewState_eq conserves_def
      split: if_splits prod.splits
      dest!: CheckDropRequestEvent_conserves CheckIqReply_item)

lemma Outgoing_conserves: "Outgoing_IsYourEvent h e w = Some r \<Longrightarrow> conserves e h w r"
  unfolding Outgoing_IsYourEvent_def
  by (auto simp: assignNewState_eq Let_def conserves_def split: option.splits if_splits
      dest!: drop_or_reply_conserves)

lemma Incoming_conserves: "Incoming_IsYourEvent h e w = Some r \<Longrightarrow> conserves e h w r"
  unfolding Incoming_IsYourEvent_def
  by (auto simp: assignNewState_eq Let_def conserves_def split: option.splits if_splits prod.splits
      dest!: drop_or_reply_conserves)

lemma MakeCall_activeCall_conserves: "conserves e h w (MakeCall_activeCall h e ac w)"
  unfolding MakeCall_activeCall_def Let_def
  by (simp add: assignNewState_eq conserves_def)

lemma MakeCall_retract_conserves: "conserves e h w (MakeCall_retract h e w)"
  unfolding MakeCall_retract_def Let_def
  by (simp add: assignNewState_eq conserves_def split: prod.split)

lemma MakeCall_callRequest_conserves: "conserves e h w (MakeCall_callRequest h e w)"
  unfolding MakeCall_callRequest_def
  by (simp add: assignNewState_eq conserves_def)

lemma conserves_trans:
  "conserves e h w (False, h1, w1) \<Longrightarrow> conserves e h1 w1 r \<Longrightarrow> conserves e h w r"
  by (auto simp: conserves_def split: prod.splits)

lemma MakeCall_conserves: "MakeCall_IsYourEvent h e w = Some r \<Longrightarrow> conserves e h w r"
  unfolding MakeCall_IsYourEvent_def
  using MakeCall_activeCall_conserves MakeCall_retract_conserves
  by (auto simp: bind_eq_Some_conv split: option.splits if_splits
      dest!: drop_or_reply_conserves intro: conserves_trans [OF _ MakeCall_callRequest_conserves])

lemma Call_IsYourEvent_conserves: "Call_IsYourEvent h e w = Some r \<Longrightarrow> conserves e h w r"
  by (cases "ch_kind h")
    (auto simp: Call_IsYourEvent.simps intro: Outgoing_conserves Incoming_conserves MakeCall_conserves)

lemma CheckStateTimeout_conserves:
  "CheckStateTimeout s t h w = (b, h', w') \<Longrightarrow> call_own h' + gone w' = call_own h + gone w"
  by (auto simp: CheckStateTimeout_def assignNewState_eq ReadKeyDword_def split: if_splits option.splits)

lemma check_timeouts_conserves:
  "check_timeouts ts h w = (b, h', w') \<Longrightarrow> call_own h' + gone w' = call_own h + gone w"
  by (induction ts h w arbitrary: b h' w' rule: check_timeouts.induct)
    (auto split: prod.splits if_splits dest!: CheckStateTimeout_conserves)

text \<open>The timeouts a class checks, in order.\<close>

fun timeout_table :: "call_kind \<Rightarrow> (call_state \<times> long) list" where
  "timeout_table OutgoingCall =
     [(CS_PhysicalOutProceeding, OUTBOUND_REQUEST_TIMEOUT),
      (CS_Connected, CONNECTED_CALL_TIMEOUT), (CS_PreDropCall, DROP_REQUEST_TIMEOUT)]"
| "timeout_table IncomingCall =
     [(CS_Offering, INBOUND_OFFERING_TIMEOUT),
      (CS_Connected, CONNECTED_CALL_TIMEOUT), (CS_PreDropCall, DROP_REQUEST_TIMEOUT)]"
| "timeout_table MakeCall =
     [(CS_MakeCallSet, MAKECALL_CREATE_TIMEOUT),
      (CS_MakeCallRequested, MAKECALL_INBOUND_REQUEST_TIMEOUT),
      (CS_MakeCallRequestedAnswered, MAKECALL_INBOUND_ANSWERED_TIMEOUT),
      (CS_MakeCallOutgoingCreated, OUTBOUND_REQUEST_TIMEOUT),
      (CS_Connected, CONNECTED_CALL_TIMEOUT), (CS_PreDropCall, DROP_REQUEST_TIMEOUT)]"

lemma Call_IsStillExist_table:
  "Call_IsStillExist h w = check_timeouts (timeout_table (ch_kind h)) h w"
  by (cases "ch_kind h")
    (simp_all only: Call_IsStillExist.simps Outgoing_IsStillExist_def Incoming_IsStillExist_def
      MakeCall_IsStillExist_def timeout_table.simps call_kind.case)

lemma Call_IsStillExist_conserves:
  "Call_IsStillExist h w = (b, h', w') \<Longrightarrow> call_own h' + gone w' = call_own h + gone w"
  unfolding Call_IsStillExist_table by (rule check_timeouts_conserves)

lemma MakeCall_PreExecute_conserves:
  assumes "MakeCall_PreExecute h w = Some (b, h', w')"
  shows "call_own h' + gone w' = call_own h + gone w"
proof -
  obtain c w1 where u: "getUniqueId w = (c, w1)" by (cases "getUniqueId w")
  with assms obtain rid t f w2 where
    "CallNumber (c_str (m_remoteId (ch_data h))) c (call_setup_of_clock (w_clock w1)) w1 = Some ((rid, t, f), w2)"
    and "call_own h' + gone w' = call_own h + gone w2"
    by (auto simp: MakeCall_PreExecute_def Let_def bind_eq_Some_conv assignNewState_eq)
  with gone_same_view [OF getUniqueId_keeps [OF u]] gone_same_view [OF requests_keep(5)] show ?thesis
    by fastforce
qed

lemma new_Call_event [simp]:
  "ch_event (new_OutgoingCall e c t) = Some e" "ch_event (new_IncomingCall e c t) = Some e"
  "ch_event (new_MakeCall n c t) = None"
  by (simp_all add: new_OutgoingCall_def new_IncomingCall_def new_MakeCall_def new_call_handler_def
      new_state_item_def Let_def set_data_def split: option.split)

lemma Call_UnknownEvent_conserves:
  "Call_UnknownEvent e w = (r, w') \<Longrightarrow>
     (case r of None \<Rightarrow> gone w' = gone w | Some h \<Rightarrow> call_own h + gone w' = gone w + {#e#})"
  by (auto simp: Call_UnknownEvent_def split: option.splits if_splits prod.splits
      dest!: getUniqueId_keeps gone_same_view)

lemma gone_CallStateChange [simp]: "gone (CallStateChange s d r w) = gone w"
  by (simp add: CallStateChange_def gone_def)

interpretation call_owner: event_owner call_ops call_own gone
proof (unfold_locales, goal_cases)
  case (1 h e w b h' w')
  then show ?case using Call_IsYourEvent_conserves [of h e w "(b, h', w')"]
    by (auto simp: call_ops_def conserves_def)
next
  case (5 e w r w')
  then show ?case using Call_UnknownEvent_conserves [of e w r w'] by (simp add: call_ops_def)
next
  case (2 h w b h' w')
  then show ?case by (auto simp: call_ops_def intro: Call_IsStillExist_conserves)
next
  case (4 h w b h' w')
  then show ?case by (auto simp: call_ops_def intro: MakeCall_PreExecute_conserves)
qed (auto simp: call_ops_def delete_call_handler_def)

section \<open>The handlers' invariant\<close>

fun states_of :: "call_kind \<Rightarrow> call_state set" where
  "states_of OutgoingCall = {CS_PhysicalOutProceeding, CS_Connected, CS_Dropped, CS_PreDropCall}"
| "states_of IncomingCall = {CS_Offering, CS_Connected, CS_Dropped, CS_PreDropCall}"
| "states_of MakeCall =
     {CS_MakeCallSet, CS_MakeCallRequested, CS_MakeCallRequestedAnswered, CS_MakeCallOutgoingCreated,
      CS_Connected, CS_Dropped, CS_PreDropCall}"

fun type_of :: "call_kind \<Rightarrow> call_type" where
  "type_of OutgoingCall = CT_PhysicalCall"
| "type_of IncomingCall = CT_IncomingCall"
| "type_of MakeCall = CT_MakeCall"

definition call_inv :: "call_handler \<Rightarrow> bool" where
  "call_inv h \<longleftrightarrow>
     ch_state h \<in> states_of (ch_kind h) \<and> m_callType (ch_data h) = type_of (ch_kind h) \<and>
     branches_ok (ch_branches h) \<and> (\<forall>b \<in> set (ch_branches h). m_callType b = type_of (ch_kind h))"

definition call_requested :: "call_handler \<Rightarrow> bool" where
  "call_requested h \<longleftrightarrow>
     ch_kind h = MakeCall \<and> ch_bHasPreExecute h \<and> m_callType (ch_data h) = CT_MakeCall \<and>
     ch_branches h = []"

lemma AddBranchEvent_call:
  assumes "branches_ok bs" and "\<forall>b \<in> set bs. m_callType b = t"
  shows "branches_ok (AddBranchEvent i ac c t u s bs) \<and>
     (\<forall>b \<in> set (AddBranchEvent i ac c t u s bs). m_callType b = t)"
  using AddBranch_ok [OF assms(1)] assms(2) by (auto simp: AddBranchEvent_AddBranch dest: AddBranch_mem)

lemma call_inv_add:
  assumes "call_inv h" and "ch_branches h' = AddBranchEvent i ac c (type_of (ch_kind h)) u s (ch_branches h)"
    and "ch_kind h' = ch_kind h" and "ch_state h' \<in> states_of (ch_kind h)"
    and "m_callType (ch_data h') = type_of (ch_kind h)"
  shows "call_inv h'"
proof -
  from assms(1) have "branches_ok (ch_branches h)"
    "\<forall>b \<in> set (ch_branches h). m_callType b = type_of (ch_kind h)" by (simp_all add: call_inv_def)
  from AddBranchEvent_call [OF this] assms(2-5) show ?thesis by (simp add: call_inv_def)
qed

lemma call_inv_dropped:
  assumes "call_inv h" and "CheckDroppedCall (ch_data h) i (ch_branches h) = (r, d, bs)"
  shows "branches_ok bs" "m_callType d = type_of (ch_kind h)" "\<forall>b \<in> set bs. m_callType b = type_of (ch_kind h)"
  using assms CheckDroppedCall_ok [OF assms(2)] CheckDroppedCall_data [OF assms(2)]
    CheckDroppedCall_mem [OF assms(2)] by (auto simp: call_inv_def)

lemma drop_branches_total: "engine_up w \<Longrightarrow> \<exists>ids w'. drop_branches bs w = Some (ids, w')"
proof (induction bs arbitrary: w)
  case (Cons b bs)
  obtain c w1 where u: "getUniqueId w = (c, w1)" by (cases "getUniqueId w")
  have "engine_up w1" using same_viewD(6) [OF getUniqueId_keeps [OF u]] Cons.prems by simp
  then obtain rid w2 where d: "DropCall (m_sipCallId b) (m_fromTag b) (m_toTag b) c w1 = Some (rid, w2)"
    using requests_total(6) by blast
  with \<open>engine_up w1\<close> have "engine_up w2" using same_viewD(6) [OF requests_keep(6)] by blast
  from Cons.IH [OF this] u d show ?case by auto
qed simp

lemma engine_delete [simp]:
  "engine_up (delete_event e w) = engine_up w" "engine_up (delete_event_opt ev w) = engine_up w"
  by (auto simp: delete_event_def delete_event_opt_def engine_up_def split: option.split)

definition good :: "(bool \<times> call_handler \<times> world) option \<Rightarrow> bool" where
  "good r \<longleftrightarrow> (\<exists>b h' w'. r = Some (b, h', w') \<and> call_inv h' \<and> engine_up w')"

lemma good_simps [simp]: "good (Some (b, r)) \<longleftrightarrow> call_inv (fst r) \<and> engine_up (snd r)"
  by (cases r) (simp add: good_def)

lemma call_inv_same:
  "call_inv h \<Longrightarrow> ch_branches h' = ch_branches h \<Longrightarrow> ch_kind h' = ch_kind h \<Longrightarrow>
     m_callType (ch_data h') = m_callType (ch_data h) \<Longrightarrow> ch_state h' \<in> states_of (ch_kind h) \<Longrightarrow> call_inv h'"
  by (simp add: call_inv_def)

lemma drop_states: "CS_Dropped \<in> states_of k" "CS_PreDropCall \<in> states_of k" "CS_Connected \<in> states_of k"
  by (cases k; simp)+

lemma drop_or_reply_good:
  assumes "call_inv h" and "engine_up w"
  shows "good (drop_or_reply e h w)"
proof (cases "getDropRequestEvent e = Some (m_callId (ch_data h))")
  case True
  obtain ids w1 where d: "drop_branches (ch_branches h) w = Some (ids, w1)"
    using drop_branches_total [OF assms(2)] by blast
  from same_viewD(6) [OF drop_branches_keeps [OF d] assms(2)] have "engine_up w1" .
  with True d assms(1) show ?thesis
    by (auto simp: drop_or_reply_def CheckDropRequestEvent_def assignNewState_eq drop_states
        intro: call_inv_same)
next
  case False
  then show ?thesis using assms
    by (auto simp: drop_or_reply_def CheckDropRequestEvent_def CheckIqReplyDropRequest_def
        intro: call_inv_same split: prod.split) (auto simp: call_inv_def)
qed

lemma confirmed_or_kept:
  fixes e :: xmpp_event and ac :: active_call
  assumes "call_inv h" and "engine_up w"
  defines "h1 \<equiv> h\<lparr>ch_branches := AddBranchEvent (xe_id e) ac (m_callId (ch_data h))
      (m_callType (ch_data h)) True None (ch_branches h)\<rparr>"
  shows "call_inv h1"
    and "assignNewState CS_Connected (Some e) h1 w = (h2, w2) \<Longrightarrow>
      call_inv (set_data (AssignCallStateData (ch_data h2) (xe_id e) ac (- 1) True None) h2) \<and> engine_up w2"
proof -
  have t: "m_callType (ch_data h) = type_of (ch_kind h)" "ch_state h \<in> states_of (ch_kind h)"
    using assms(1) by (simp_all add: call_inv_def)
  show h1: "call_inv h1"
    unfolding h1_def t(1) by (rule call_inv_add [OF assms(1)]) (simp_all add: t)
  show "assignNewState CS_Connected (Some e) h1 w = (h2, w2) \<Longrightarrow>
      call_inv (set_data (AssignCallStateData (ch_data h2) (xe_id e) ac (- 1) True None) h2) \<and> engine_up w2"
    using assms(2) by (auto simp: assignNewState_eq drop_states intro!: call_inv_same [OF h1])
qed

lemma assign_good:
  assumes "call_inv h" and "engine_up w" and "s \<in> states_of (ch_kind h)"
  shows "call_inv (fst (assignNewState s ev h w)) \<and> engine_up (snd (assignNewState s ev h w))"
  using assms by (auto simp: assignNewState_eq intro: call_inv_same)

lemma Outgoing_good:
  assumes "call_inv h" and "engine_up w"
  shows "good (Outgoing_IsYourEvent h e w)"
proof (cases "getActiveCallEvent e")
  case None
  with drop_or_reply_good [OF assms] assms assign_good [OF assms drop_states(1)] show ?thesis
    by (auto simp: Outgoing_IsYourEvent_def split: prod.split)
next
  case (Some ac)
  with confirmed_or_kept [OF assms, of e ac] assms show ?thesis
    by (auto simp: Outgoing_IsYourEvent_def Let_def split: prod.split)
qed

lemma retract_good:
  assumes "call_inv h" and "engine_up w"
    and "CheckDroppedCall (ch_data h) i (ch_branches h) = (r, d, bs)"
  shows "call_inv ((set_data d h)\<lparr>ch_branches := bs\<rparr>)"
  using call_inv_dropped [OF assms(1,3)] assms(1) by (simp add: call_inv_def)

lemma Incoming_good:
  assumes "call_inv h" and "engine_up w"
  shows "good (Incoming_IsYourEvent h e w)"
proof (cases "getActiveCallEvent e")
  case None
  obtain r d bs where c: "CheckDroppedCall (ch_data h) (xe_id e) (ch_branches h) = (r, d, bs)"
    by (cases "CheckDroppedCall (ch_data h) (xe_id e) (ch_branches h)")
  note k = retract_good [OF assms c]
  from None c drop_or_reply_good [OF assms] assms k assign_good [OF k assms(2) drop_states(1)] show ?thesis
    by (auto simp: Incoming_IsYourEvent_def Let_def split: prod.split)
next
  case (Some ac)
  with confirmed_or_kept [OF assms, of e ac] assms show ?thesis
    by (auto simp: Incoming_IsYourEvent_def Let_def split: prod.split)
qed

lemma add_branch_good: "call_inv h \<Longrightarrow> call_inv (MakeCall_add_branch e ac b h)"
  by (rule call_inv_add) (auto simp: MakeCall_add_branch_def call_inv_def)

lemma mc_assign_good: "call_inv h \<Longrightarrow> call_inv (MakeCall_assign e ac b h)"
  by (auto simp: MakeCall_assign_def call_inv_def)

lemma mc_fields_good:
  "call_inv h \<Longrightarrow> call_inv (h\<lparr>ch_in_sipCallId := x\<rparr>)"
  "call_inv h \<Longrightarrow> call_inv (h\<lparr>ch_out_sipCallId := x, ch_out_id := y\<rparr>)"
  by (simp_all add: call_inv_def)

lemma MakeCall_activeCall_good:
  assumes "call_inv h" and "engine_up w" and k: "ch_kind h = MakeCall"
  shows "good (Some (MakeCall_activeCall h e ac w))"
proof -
  have a: "call_inv (fst (assignNewState s (Some e) g w))" "engine_up (snd (assignNewState s (Some e) g w))"
    if "call_inv g" "ch_kind g = MakeCall" "s \<in> states_of MakeCall" for s g
    using assign_good [OF that(1) assms(2)] that(2,3) by simp_all
  note b = add_branch_good [OF assms(1), of e ac False]
  show ?thesis
    unfolding MakeCall_activeCall_def Let_def split_beta
    by (simp add: a b assms mc_assign_good mc_fields_good add_branch_good)
qed

lemma MakeCall_retract_good:
  assumes "call_inv h" and "engine_up w"
  shows "good (Some (MakeCall_retract h e w))"
proof -
  obtain r d bs where c: "CheckDroppedCall (ch_data h) (xe_id e) (ch_branches h) = (r, d, bs)"
    by (cases "CheckDroppedCall (ch_data h) (xe_id e) (ch_branches h)")
  note k = retract_good [OF assms c]
  from c assms k assign_good [OF k assms(2) drop_states(1)] assign_good [OF assms drop_states(1)]
  show ?thesis by (auto simp: MakeCall_retract_def Let_def split: prod.split)
qed

lemma MakeCall_callRequest_good:
  assumes "call_inv h" and "engine_up w"
  shows "good (Some (MakeCall_callRequest h e w))"
  using assms assign_good [OF assms drop_states(1)]
  by (auto simp: MakeCall_callRequest_def split: prod.split)

lemma MakeCall_good:
  assumes "call_inv h" and "engine_up w" and "ch_kind h = MakeCall"
  shows "good (MakeCall_IsYourEvent h e w)"
proof -
  obtain b h1 w1 where d: "drop_or_reply e h w = Some (b, h1, w1)" "call_inv h1" "engine_up w1"
    using drop_or_reply_good [OF assms(1,2), of e] by (auto simp: good_def)
  from MakeCall_callRequest_good [OF this(2,3)] MakeCall_activeCall_good [OF assms]
    MakeCall_retract_good [OF assms(1,2)] d
  show ?thesis by (auto simp: MakeCall_IsYourEvent_def split: option.split)
qed

lemma Call_IsYourEvent_good:
  assumes "call_inv h" and "engine_up w"
  shows "good (Call_IsYourEvent h e w)"
  using Outgoing_good [OF assms] Incoming_good [OF assms] MakeCall_good [OF assms]
  by (cases "ch_kind h") (simp_all add: Call_IsYourEvent.simps)

lemma check_timeouts_good:
  "check_timeouts ts h w = (b, h', w') \<Longrightarrow> call_inv h \<Longrightarrow> engine_up w \<Longrightarrow> call_inv h' \<and> engine_up w'"
proof (induction ts h w arbitrary: b h' w' rule: check_timeouts.induct)
  case (2 s t rest h w)
  obtain f h1 w1 where c: "CheckStateTimeout s t h w = (f, h1, w1)" by (cases "CheckStateTimeout s t h w")
  have "call_inv h1 \<and> engine_up w1"
    using c "2.prems"(2,3) assign_good [OF "2.prems"(2,3) drop_states(1), of None]
    by (cases "assignNewState CS_Dropped None h w")
      (auto simp: CheckStateTimeout_def split: if_splits prod.splits)
  with c 2 show ?case by (cases f) auto
qed simp

lemma Call_IsStillExist_good:
  "Call_IsStillExist h w = (b, h', w') \<Longrightarrow> call_inv h \<Longrightarrow> engine_up w \<Longrightarrow> call_inv h' \<and> engine_up w'"
  unfolding Call_IsStillExist_table by (rule check_timeouts_good)

lemma new_call_inv:
  "call_inv (new_OutgoingCall e c t)" "call_inv (new_IncomingCall e c t)"
  by (auto simp: new_OutgoingCall_def new_IncomingCall_def new_call_handler_def new_state_item_def
      Let_def call_inv_def assign_from_def branches_ok_def AddBranchEvent_AddBranch split: option.split)

lemma Call_UnknownEvent_good:
  "Call_UnknownEvent e w = (r, w') \<Longrightarrow> engine_up w \<Longrightarrow> engine_up w' \<and> (\<forall>h. r = Some h \<longrightarrow> call_inv h)"
  by (auto simp: Call_UnknownEvent_def new_call_inv split: option.splits if_splits prod.splits
      dest!: getUniqueId_keeps same_viewD(6))

lemma MakeCall_PreExecute_eq:
  assumes "getUniqueId w = (ctx, w1)"
    and "CallNumber (c_str (m_remoteId (ch_data h))) ctx (call_setup_of_clock (w_clock w1)) w1 =
      Some ((rid, toF, fromF), w2)"
  shows "MakeCall_PreExecute h w =
     Some (True, fst (assignNewState CS_MakeCallSet None
       ((set_data ((ch_data h)\<lparr>m_call_setup_id := call_setup_of_clock (w_clock w1)\<rparr>) (h\<lparr>ch_contextId := ctx\<rparr>))
          \<lparr>ch_toSipField := toF, ch_fromSipField := fromF\<rparr>) w2), delete_event_opt (ch_event h) w2)"
  using assms by (simp add: MakeCall_PreExecute_def Let_def assignNewState_eq)

lemma MakeCall_PreExecute_good:
  assumes "call_requested h" and "engine_up w"
  shows "\<exists>h' w'. MakeCall_PreExecute h w = Some (True, h', w') \<and> call_inv h' \<and> engine_up w'"
proof -
  obtain ctx w1 where u: "getUniqueId w = (ctx, w1)" by (cases "getUniqueId w")
  have up: "engine_up w1" using same_viewD(6) [OF getUniqueId_keeps [OF u] assms(2)] .
  obtain rid toF fromF w2 where n: "CallNumber (c_str (m_remoteId (ch_data h))) ctx
      (call_setup_of_clock (w_clock w1)) w1 = Some ((rid, toF, fromF), w2)"
    using requests_total(5) [OF up] by fastforce
  have "engine_up w2" using same_viewD(6) [OF requests_keep(5) [OF n] up] .
  with MakeCall_PreExecute_eq [OF u n] assms(1) show ?thesis
    by (simp add: assignNewState_eq call_requested_def call_inv_def branches_ok_def)
qed

lemma new_MakeCall_requested: "call_requested (new_MakeCall n c t)"
  by (simp add: call_requested_def new_MakeCall_def new_call_handler_def new_state_item_def Let_def)

interpretation call_safe: handler_safe call_ops call_inv call_requested engine_up "\<lambda>_ _. True"
proof (unfold_locales, goal_cases)
  case (1 h w e)
  then show ?case using Call_IsYourEvent_good [of h w e] by (simp add: call_ops_def good_def)
next
  case (2 h w b h' w')
  then show ?case using Call_IsStillExist_good [of h w b h' w'] by (simp add: call_ops_def)
next
  case (4 e w r w')
  then show ?case using Call_UnknownEvent_good [of e w r w'] by (simp add: call_ops_def)
next
  case (8 h w)
  then show ?case using MakeCall_PreExecute_good [of h w] by (auto simp: call_ops_def)
qed (auto simp: call_ops_def CallStateChange_def engine_up_def delete_call_handler_def
    delete_event_opt_def delete_event_def call_requested_def split: option.split)

end
