(* ===== verification/CallProtocol.thy ===== *)
theory CallProtocol
  imports CallMachine
begin

text \<open>
  What the call machine guarantees: the timeouts of \<open>IsStillExist\<close>, the order of the states of a
  requested call, the routing of drop requests, the conservation of events, and two behaviours
  the source does not intend.
\<close>

section \<open>Timeouts\<close>

definition timeouts_on :: "world \<Rightarrow> bool" where
  "timeouts_on w \<longleftrightarrow> snd (ReadKeyDword (w_DisableTimeout w) 0) = 0"

definition overdue :: "call_handler \<Rightarrow> world \<Rightarrow> bool" where
  "overdue h w \<longleftrightarrow>
     (\<exists>t. map_of (timeout_table (ch_kind h)) (ch_state h) = Some t \<and>
        sint t < sint (MsecsSinceLastStateChange (ch_item h) (w_tick w)))"

lemma CheckStateTimeout_eq:
  "CheckStateTimeout s t h w =
     (if s = ch_state h \<and> sint t < sint (MsecsSinceLastStateChange (ch_item h) (w_tick w)) \<and> timeouts_on w
      then (True, assignNewState CS_Dropped None h w) else (False, h, w))"
  by (auto simp: CheckStateTimeout_def IsState_def timeouts_on_def split: prod.splits)

lemma check_timeouts_eq:
  "distinct (map fst ts) \<Longrightarrow> check_timeouts ts h w =
     (if timeouts_on w \<and> (\<exists>t. map_of ts (ch_state h) = Some t \<and>
           sint t < sint (MsecsSinceLastStateChange (ch_item h) (w_tick w)))
      then (True, assignNewState CS_Dropped None h w) else (ch_state h \<noteq> CS_Dropped, h, w))"
proof (induction ts h w rule: check_timeouts.induct)
  case (1 h w)
  then show ?case by (auto simp: IsState_def)
next
  case (2 s t rest h w)
  show ?case
  proof (cases "s = ch_state h")
    case True
    with "2.prems" have "map_of rest (ch_state h) = None"
      by (auto simp: map_of_eq_None_iff)
    with True 2 show ?thesis by (auto simp: CheckStateTimeout_eq)
  next
    case False
    with 2 show ?thesis by (simp add: CheckStateTimeout_eq)
  qed
qed

lemma timeout_table_distinct: "distinct (map fst (timeout_table k))"
  by (cases k) simp_all

lemma Call_IsStillExist_eq:
  "Call_IsStillExist h w =
     (if timeouts_on w \<and> overdue h w then (True, assignNewState CS_Dropped None h w)
      else (ch_state h \<noteq> CS_Dropped, h, w))"
  unfolding Call_IsStillExist_table overdue_def
  by (rule check_timeouts_eq [OF timeout_table_distinct])

text \<open>Every state a handler can rest in has a timeout, at most \<open>CONNECTED_CALL_TIMEOUT\<close>.\<close>

lemma timeout_table_total:
  "s \<in> states_of k \<Longrightarrow> s \<noteq> CS_Dropped \<Longrightarrow>
     \<exists>t. map_of (timeout_table k) s = Some t \<and> 0 < sint t \<and> sint t \<le> 10800000"
  by (cases k) (auto simp: timeout_defs sint_word_of_small_int)

lemma overdue_after:
  assumes "call_inv h" and "ch_state h \<noteq> CS_Dropped"
    and "w_tick w = si_last (ch_item h) + word_of_nat n" and "10800000 < n" and "n < 2 ^ 31"
  shows "overdue h w"
proof -
  from assms(1) have "ch_state h \<in> states_of (ch_kind h)" by (simp add: call_inv_def)
  then obtain t where "map_of (timeout_table (ch_kind h)) (ch_state h) = Some t" "sint t \<le> 10800000"
    using timeout_table_total assms(2) by blast
  with assms(3-5) show ?thesis
    by (simp add: overdue_def MsecsSinceLastStateChange_def sint_of_small_nat)
qed

lemma Dropped_not_overdue: "ch_state h = CS_Dropped \<Longrightarrow> \<not> overdue h w"
  by (cases "ch_kind h") (simp_all add: overdue_def)

text \<open>One existence check of a list of expired calls leaves only dropped ones.\<close>

lemma checkExist_overdue:
  assumes "checkExist call_ops ns hs w = (hs', w')" and "timeouts_on w"
    and "\<forall>h \<in> set hs. ch_state h = CS_Dropped \<or> overdue h w"
  shows "(\<forall>h \<in> set hs'. ch_state h = CS_Dropped) \<and> w_DisableTimeout w' = w_DisableTimeout w"
  using assms
proof (induction hs arbitrary: w hs' w')
  case (Cons h hs)
  have same: "timeouts_on w1 = timeouts_on w" "overdue g w1 = overdue g w"
    if "w_tick w1 = w_tick w" "w_DisableTimeout w1 = w_DisableTimeout w" for w1 g
    using that by (simp_all add: timeouts_on_def overdue_def)
  have frame: "w_tick (CallStateChange s d r w) = w_tick w"
    "w_DisableTimeout (CallStateChange s d r w) = w_DisableTimeout w"
    "w_tick (delete_event_opt ev w) = w_tick w"
    "w_DisableTimeout (delete_event_opt ev w) = w_DisableTimeout w" for s d r ev w
    by (auto simp: CallStateChange_def delete_event_opt_def delete_event_def split: option.split)
  have frame2: "w_tick (OnStateChange call_ops ns g r w) = w_tick w"
    "w_DisableTimeout (OnStateChange call_ops ns g r w) = w_DisableTimeout w" for g r w
    unfolding OnStateChange_def by (induction ns arbitrary: w) (simp_all add: call_ops_def frame)
  show ?case
  proof (cases "overdue h w")
    case True
    let ?w1 = "delete_event_opt (ch_event h) w"
    obtain hs2 where c: "checkExist call_ops ns hs ?w1 = (hs2, w')"
      and hs': "hs' = fst (assignNewState CS_Dropped None h w) # hs2"
      using Cons.prems True
      by (auto simp: call_ops_def Call_IsStillExist_eq assignNewState_eq split: prod.splits)
    have "timeouts_on ?w1 = timeouts_on w" "\<And>g. overdue g ?w1 = overdue g w"
      by (rule same; simp add: frame)+
    with Cons.IH [OF c] Cons.prems hs' show ?thesis by (simp add: frame assignNewState_eq)
  next
    case False
    with Cons.prems have d: "ch_state h = CS_Dropped" by simp
    let ?w1 = "delete_call_handler h (OnStateChange call_ops ns h RemovedHandler w)"
    have f: "w_tick ?w1 = w_tick w" "w_DisableTimeout ?w1 = w_DisableTimeout w"
      by (simp_all add: delete_call_handler_def frame frame2)
    have "checkExist call_ops ns (h # hs) w = checkExist call_ops ns hs ?w1"
      using False d by (simp add: call_ops_def Call_IsStillExist_eq)
    with Cons.prems have "checkExist call_ops ns hs ?w1 = (hs', w')" by simp
    moreover have "timeouts_on ?w1 = timeouts_on w" "\<And>g. overdue g ?w1 = overdue g w"
      by (rule same; simp add: f)+
    ultimately show ?thesis using Cons.IH [of ?w1 hs' w'] Cons.prems f by simp
  qed
qed simp

lemma checkExist_Dropped:
  "\<forall>h \<in> set hs. ch_state h = CS_Dropped \<Longrightarrow> fst (checkExist call_ops ns hs w) = []"
proof (induction hs arbitrary: w)
  case (Cons h hs)
  then have "op_IsStillExist call_ops h w = (False, h, w)"
    by (simp add: call_ops_def Call_IsStillExist_eq Dropped_not_overdue)
  with Cons show ?case by simp
qed simp

lemma call_pollLoop: "pollLoop call_ops ns hs w = Some (hs, w)"
  by (induction hs) (simp_all add: call_ops_def)

lemma call_PollStateHandlers:
  "PollStateHandlers call_ops m w = Some (checkStateHandlersExist call_ops m w)"
  by (simp add: PollStateHandlers_def call_pollLoop)

text \<open>
  \<open>IsStillExist\<close> of all three handler classes, on every branch: a call past the limit of its
  state, by the signed difference of the tick counts, is put into \<open>Dropped\<close> with its event
  deleted and still reported alive, unless the registry disables the timeouts; otherwise nothing
  changes, and only a dropped call is reported gone.
\<close>
theorem IsStillExist_spec:
  "Call_IsStillExist h w =
     (if timeouts_on w \<and> overdue h w
      then (True, h\<lparr>ch_item := (ch_item h)\<lparr>si_state := CS_Dropped, si_event := None, si_last := w_tick w\<rparr>\<rparr>,
            delete_event_opt (ch_event h) w)
      else (ch_state h \<noteq> CS_Dropped, h, w))"
  by (simp add: Call_IsStillExist_eq assignNewState_eq)


definition sample_call :: active_call where
  "sample_call = \<lparr>ac_dialogState = DS_REQUESTED, ac_to_aor = ''alice@onsip.com'', ac_sipCallid = ''sip1'',
     ac_from_uri = ''sip:bob@onsip.com'', ac_to_uri = ''sip:alice@onsip.com'', ac_from_tag = ''f'',
     ac_to_tag = ''t'', ac_branch = ''b1'', ac_call_setup_id = ''''\<rparr>"

definition sample_event :: "string \<Rightarrow> active_call \<Rightarrow> xmpp_event" where
  "sample_event i ac = (simple_event EVT_PUBSUB_ACTIVECALL_EVENT (ActiveCallBody ac))\<lparr>xe_id := i\<rparr>"

definition sample_machine :: call_machine where
  "sample_machine =
     new_base_machine\<lparr>sm_handlers := [new_IncomingCall (sample_event ''call1'' sample_call) 1 4294967000]\<rparr>"

lemma sample_handler:
  "sm_handlers sample_machine = [new_IncomingCall (sample_event ''call1'' sample_call) 1 4294967000]"
  by (simp add: sample_machine_def)

lemma new_IncomingCall_last [simp]: "si_last (ch_item (new_IncomingCall e c t)) = t"
  by (simp add: new_IncomingCall_def new_call_handler_def new_state_item_def Let_def split: option.split)


section \<open>The states of a requested call\<close>

text \<open>The steps forward of \<open>OnSipMakeCallStateHandler\<close>; from every state a call can be dropped.\<close>

inductive mc_step :: "call_state \<Rightarrow> call_state \<Rightarrow> bool" where
  requested: "mc_step CS_MakeCallSet CS_MakeCallRequested"
| answered: "mc_step CS_MakeCallRequested CS_MakeCallRequestedAnswered"
| created: "mc_step CS_MakeCallRequestedAnswered CS_MakeCallOutgoingCreated"
| connected: "mc_step CS_MakeCallOutgoingCreated CS_Connected"
| dropped: "mc_step s CS_Dropped"
| dropping: "mc_step s CS_PreDropCall"

inductive_simps mc_step_simps [simp]:
  "mc_step s CS_MakeCallSet" "mc_step s CS_MakeCallRequested" "mc_step s CS_MakeCallRequestedAnswered"
  "mc_step s CS_MakeCallOutgoingCreated" "mc_step s CS_Connected" "mc_step s CS_Dropped"
  "mc_step s CS_PreDropCall"

lemma drop_or_reply_state:
  "drop_or_reply e h w = Some (b, h', w') \<Longrightarrow>
     ch_kind h' = ch_kind h \<and> (ch_state h' = ch_state h \<or> ch_state h' = CS_PreDropCall)"
  by (auto simp: drop_or_reply_def CheckDropRequestEvent_def CheckIqReplyDropRequest_def
      bind_eq_Some_conv assignNewState_eq split: if_splits prod.splits)

lemma MakeCall_activeCall_state:
  "MakeCall_activeCall h e ac w = (b, h', w') \<Longrightarrow>
     ch_kind h' = ch_kind h \<and> (ch_state h' = ch_state h \<or> mc_step (ch_state h) (ch_state h'))"
  unfolding MakeCall_activeCall_def Let_def split_beta assignNewState_eq
  by (auto simp: IsState_def split: if_splits)

lemma MakeCall_retract_state:
  "MakeCall_retract h e w = (b, h', w') \<Longrightarrow>
     ch_kind h' = ch_kind h \<and> (ch_state h' = ch_state h \<or> ch_state h' = CS_Dropped)"
  by (auto simp: MakeCall_retract_def Let_def assignNewState_eq split: if_splits prod.splits)

lemma MakeCall_callRequest_state:
  "MakeCall_callRequest h e w = (b, h', w') \<Longrightarrow>
     ch_kind h' = ch_kind h \<and> (ch_state h' = ch_state h \<or> ch_state h' = CS_Dropped)"
  by (auto simp: MakeCall_callRequest_def assignNewState_eq split: if_splits)

lemma MakeCall_IsYourEvent_state:
  assumes "MakeCall_IsYourEvent h e w = Some (b, h', w')"
  shows "ch_kind h' = ch_kind h \<and> (ch_state h' = ch_state h \<or> mc_step (ch_state h) (ch_state h'))"
proof (cases "getActiveCallEvent e")
  case (Some ac)
  with assms MakeCall_activeCall_state show ?thesis by (auto simp: MakeCall_IsYourEvent_def)
next
  case None
  show ?thesis
  proof (cases "getRetractCallEvent e")
    case True
    with None assms have "MakeCall_retract h e w = (b, h', w')" by (simp add: MakeCall_IsYourEvent_def)
    from MakeCall_retract_state [OF this] show ?thesis by auto
  next
    case False
    with None assms obtain mine h1 w1 where d: "drop_or_reply e h w = Some (mine, h1, w1)"
      and r: "(if mine then Some (True, h1, w1) else Some (MakeCall_callRequest h1 e w1)) = Some (b, h', w')"
      by (auto simp: MakeCall_IsYourEvent_def bind_eq_Some_conv)
    from drop_or_reply_state [OF d] r MakeCall_callRequest_state [of h1 e w1 b h' w'] show ?thesis
      by (cases mine) auto
  qed
qed

lemma Call_IsStillExist_state:
  "Call_IsStillExist h w = (b, h', w') \<Longrightarrow>
     ch_kind h' = ch_kind h \<and> (ch_state h' = ch_state h \<or> ch_state h' = CS_Dropped)"
  by (auto simp: IsStillExist_spec split: if_splits)

text \<open>
  The history of a handler under any sequence of events and existence checks, at any times: the
  states it was in.
\<close>

inductive call_run :: "call_handler \<Rightarrow> call_state list \<Rightarrow> call_handler \<Rightarrow> bool" for h0 where
  start: "call_run h0 [ch_state h0] h0"
| event: "call_run h0 tr h \<Longrightarrow> Call_IsYourEvent h e w = Some (b, h', w') \<Longrightarrow>
    call_run h0 (tr @ [ch_state h']) h'"
| check: "call_run h0 tr h \<Longrightarrow> Call_IsStillExist h w = (b, h', w') \<Longrightarrow>
    call_run h0 (tr @ [ch_state h']) h'"

fun mc_path :: "call_state \<Rightarrow> call_state list" where
  "mc_path CS_MakeCallSet = [CS_MakeCallSet]"
| "mc_path CS_MakeCallRequested = [CS_MakeCallSet, CS_MakeCallRequested]"
| "mc_path CS_MakeCallRequestedAnswered =
     [CS_MakeCallSet, CS_MakeCallRequested, CS_MakeCallRequestedAnswered]"
| "mc_path CS_MakeCallOutgoingCreated =
     [CS_MakeCallSet, CS_MakeCallRequested, CS_MakeCallRequestedAnswered, CS_MakeCallOutgoingCreated]"
| "mc_path CS_Connected =
     [CS_MakeCallSet, CS_MakeCallRequested, CS_MakeCallRequestedAnswered, CS_MakeCallOutgoingCreated,
      CS_Connected]"
| "mc_path _ = []"

lemma subseq_snoc: "subseq xs ys \<Longrightarrow> subseq (xs @ [x]) (ys @ [x])"
  by (simp add: list_emb_append_mono)

lemma subseq_right: "subseq xs ys \<Longrightarrow> subseq xs (ys @ zs)"
  using list_emb_append_mono [of "(=)" xs ys "[]" zs] by simp

lemma mc_path_step:
  assumes "mc_step s s'" and "subseq (mc_path s) tr"
  shows "subseq (mc_path s') (tr @ [s'])"
  using assms(1)
proof (cases rule: mc_step.cases)
  case requested
  with subseq_snoc [OF assms(2), of s'] show ?thesis by simp
next
  case answered
  with subseq_snoc [OF assms(2), of s'] show ?thesis by simp
next
  case created
  with subseq_snoc [OF assms(2), of s'] show ?thesis by simp
next
  case connected
  with subseq_snoc [OF assms(2), of s'] show ?thesis by simp
qed simp_all

lemma call_run_history:
  assumes "call_run h0 tr h" and "ch_kind h0 = MakeCall" and "ch_state h0 = CS_MakeCallSet"
  shows "ch_kind h = MakeCall \<and> subseq (mc_path (ch_state h)) tr"
  using assms(1)
proof (induction rule: call_run.induct)
  case start
  with assms(2,3) show ?case by simp
next
  case (event tr h e w b h' w')
  then have "MakeCall_IsYourEvent h e w = Some (b, h', w')" by (simp add: Call_IsYourEvent.simps)
  from MakeCall_IsYourEvent_state [OF this] event.IH show ?case
    by (metis mc_path_step subseq_right)
next
  case (check tr h w b h' w')
  from Call_IsStillExist_state [OF check(2)] check.IH show ?case
    by (metis mc_path_step mc_step.dropped subseq_right)
qed

text \<open>
  C2. A requested call is reported connected only after the whole protocol: in every history of
  a \<open>MakeCall\<close> handler after its dial request, under any events, in any order and at any times,
  a connected state is preceded by \<open>MakeCallSet\<close>, \<open>MakeCallRequested\<close>,
  \<open>MakeCallRequestedAnswered\<close> and \<open>MakeCallOutgoingCreated\<close>, in this order.
\<close>
theorem makecall_connects_in_order:
  assumes "call_run h0 tr h" and "ch_kind h0 = MakeCall" and "ch_state h0 = CS_MakeCallSet"
    and "ch_state h = CS_Connected"
  shows "subseq [CS_MakeCallSet, CS_MakeCallRequested, CS_MakeCallRequestedAnswered,
     CS_MakeCallOutgoingCreated, CS_Connected] tr"
  using call_run_history [OF assms(1-3)] assms(4) by simp

definition mc_call :: "dialog_state \<Rightarrow> string \<Rightarrow> active_call" where
  "mc_call ds to_uri = sample_call\<lparr>ac_dialogState := ds, ac_to_uri := to_uri, ac_call_setup_id := ''00000042''\<rparr>"

definition mc_h0 :: call_handler where
  "mc_h0 = fst (assignNewState CS_MakeCallSet None
     ((set_data ((ch_data (new_MakeCall ''100'' 5 0))\<lparr>m_call_setup_id := ''00000042''\<rparr>) (new_MakeCall ''100'' 5 0))
        \<lparr>ch_toSipField := ''sip:100@onsip.com'', ch_fromSipField := ''sip:alice@onsip.com''\<rparr>) sample_world)"

definition mc_after :: "dialog_state \<Rightarrow> string \<Rightarrow> call_handler \<Rightarrow> call_handler" where
  "mc_after ds to_uri h =
     fst (snd (MakeCall_activeCall h (sample_event ''c'' (mc_call ds to_uri)) (mc_call ds to_uri) sample_world))"

definition mc_h1 :: call_handler where "mc_h1 = mc_after DS_REQUESTED ''sip:alice@onsip.com'' mc_h0"
definition mc_h2 :: call_handler where "mc_h2 = mc_after DS_CONFIRMED ''sip:alice@onsip.com'' mc_h1"
definition mc_h3 :: call_handler where "mc_h3 = mc_after DS_CREATED ''sip:100@onsip.com'' mc_h2"
definition mc_h4 :: call_handler where "mc_h4 = mc_after DS_CONFIRMED ''sip:100@onsip.com'' mc_h3"

lemma getActiveCallEvent_sample [simp]: "getActiveCallEvent (sample_event i ac) = Some ac"
  by (simp add: getActiveCallEvent_def sample_event_def simple_event_def)

lemma mc_run:
  assumes "call_run h0 tr h" and "ch_kind h = MakeCall"
  shows "call_run h0 (tr @ [ch_state (mc_after ds u h)]) (mc_after ds u h) \<and> ch_kind (mc_after ds u h) = MakeCall"
proof -
  obtain b h' w' where m: "MakeCall_activeCall h (sample_event ''c'' (mc_call ds u)) (mc_call ds u) sample_world = (b, h', w')"
    by (cases "MakeCall_activeCall h (sample_event ''c'' (mc_call ds u)) (mc_call ds u) sample_world")
  then have "Call_IsYourEvent h (sample_event ''c'' (mc_call ds u)) sample_world = Some (b, h', w')"
    using assms(2) by (simp add: Call_IsYourEvent.simps MakeCall_IsYourEvent_def)
  from call_run.event [OF assms(1) this] MakeCall_activeCall_state [OF m] assms(2) m
  show ?thesis by (simp add: mc_after_def)
qed

lemma mc_states:
  "ch_state mc_h0 = CS_MakeCallSet" "ch_kind mc_h0 = MakeCall" "ch_state mc_h4 = CS_Connected"
  by code_simp+

theorem makecall_connects_in_order_witness:
  "\<exists>tr. call_run mc_h0 tr mc_h4 \<and> subseq [CS_MakeCallSet, CS_MakeCallRequested,
     CS_MakeCallRequestedAnswered, CS_MakeCallOutgoingCreated, CS_Connected] tr"
proof -
  have r1: "\<exists>tr. call_run mc_h0 tr mc_h1 \<and> ch_kind mc_h1 = MakeCall"
    unfolding mc_h1_def using mc_run [OF call_run.start mc_states(2)] by blast
  then have r2: "\<exists>tr. call_run mc_h0 tr mc_h2 \<and> ch_kind mc_h2 = MakeCall"
    unfolding mc_h2_def using mc_run by blast
  then have r3: "\<exists>tr. call_run mc_h0 tr mc_h3 \<and> ch_kind mc_h3 = MakeCall"
    unfolding mc_h3_def using mc_run by blast
  then obtain tr where "call_run mc_h0 tr mc_h4"
    unfolding mc_h4_def using mc_run by blast
  with makecall_connects_in_order [OF this mc_states(2,1,3)] show ?thesis by blast
qed

section \<open>Events and faults\<close>

text \<open>Every event the call machine knows of, each as often as it exists.\<close>

definition known_events :: "call_machine \<Rightarrow> world \<Rightarrow> xmpp_event multiset" where
  "known_events m w =
     (\<Sum>h\<leftarrow>sm_handlers m. call_own h) + gone w +
     (\<Sum>h\<leftarrow>bm_handlerRequests m. call_own h) + mset (bm_events m)"

lemma known_events_account: "known_events m w = call_owner.account m w"
  by (simp add: known_events_def call_owner.account_def call_owner.holds_def)

text \<open>
  C7. No event is leaked or deleted twice by the call machine: signalling an event adds exactly
  that event to those held or deleted when it is handled or the machine is told to delete it, and
  nothing when it is handed back to the caller; a poll, with its queued requests and events,
  keeps the multiset of the events held by handlers, deleted or queued.
\<close>
theorem call_events_conserved:
  "(SignalEvent call_ops (Some e) bDelete m w = Some (handled, m', w') \<longrightarrow>
      known_events m' w' = known_events m w + (if handled \<or> bDelete then {#e#} else {#})) \<and>
   (BasePollStateHandlers call_ops m w = Some (m'', w'') \<longrightarrow> known_events m'' w'' = known_events m w)"
  unfolding known_events_account using call_owner.SignalEvent_account call_owner.BasePoll_account by blast

lemma sample_ok: "engine_up sample_world" "call_safe.machine_ok sample_machine"
  by (simp_all add: engine_up_def sample_world_def call_safe.machine_ok_def sample_handler new_call_inv)

theorem call_events_conserved_witness:
  "\<exists>handled m' w'. SignalEvent call_ops (Some (DropRequestEvent 1)) True sample_machine sample_world = Some (handled, m', w')
     \<and> known_events m' w' = known_events sample_machine sample_world + {#DropRequestEvent 1#}"
proof -
  obtain handled m' w' where
    s: "SignalEvent call_ops (Some (DropRequestEvent 1)) True sample_machine sample_world = Some (handled, m', w')"
    using call_safe.SignalEvent_ok [OF sample_ok(2,1)] by blast
  with call_events_conserved [of "DropRequestEvent 1" True sample_machine sample_world handled m' w']
  show ?thesis by auto
qed

text \<open>
  C6. The call machine never dereferences a null pointer while the client exists: from handlers
  that satisfy the invariant (a state of their class, the call type of their class, distinct
  branches of that type), with any queued events and any queued \<open>MakeCall\<close> requests, both
  \<open>SignalEvent\<close> and a poll return, with the invariant intact.
\<close>
theorem call_machine_safe:
  assumes "\<forall>h \<in> set (sm_handlers m). call_inv h" and "engine_up w"
    and "\<forall>h \<in> set (bm_handlerRequests m). call_requested h"
  shows "(\<exists>handled m' w'. SignalEvent call_ops (Some e) bDelete m w = Some (handled, m', w') \<and>
        (\<forall>h \<in> set (sm_handlers m'). call_inv h) \<and> engine_up w') \<and>
     (\<exists>m' w'. BasePollStateHandlers call_ops m w = Some (m', w') \<and>
        (\<forall>h \<in> set (sm_handlers m'). call_inv h) \<and> engine_up w')"
  using call_safe.SignalEvent_ok [of m w e bDelete] call_safe.BasePoll_ok [of m w] assms
  unfolding call_safe.machine_ok_def by blast

theorem call_machine_safe_witness:
  "\<exists>m' w'. BasePollStateHandlers call_ops
     (AddStateHandlerRequest (new_MakeCall ''5551234'' 2 0) sample_machine) sample_world = Some (m', w')"
proof -
  have "\<forall>h \<in> set (sm_handlers (AddStateHandlerRequest (new_MakeCall ''5551234'' 2 0) sample_machine)). call_inv h"
    using sample_ok(2) by (simp add: AddStateHandlerRequest_def call_safe.machine_ok_def)
  moreover have "\<forall>h \<in> set (bm_handlerRequests (AddStateHandlerRequest (new_MakeCall ''5551234'' 2 0) sample_machine)).
      call_requested h"
    by (simp add: AddStateHandlerRequest_def sample_machine_def new_base_machine_def new_MakeCall_requested)
  ultimately show ?thesis using call_machine_safe [OF _ sample_ok(1)] by blast
qed

section \<open>Drop requests\<close>

definition terminate_request :: "call_data \<Rightarrow> string \<Rightarrow> request" where
  "terminate_request b rid = CommandIq ONSIP_ACTIVECALLS_COMMAND rid ''terminate''
     (submit_form [(''from-tag'', m_fromTag b), (''to-tag'', m_toTag b), (''call-id'', m_sipCallId b)])"

lemma drop_branches_sends:
  "w_gloox w = Some g \<Longrightarrow>
     \<exists>ids rids w' g'. drop_branches bs w = Some (ids, w') \<and> w_gloox w' = Some g' \<and>
        length ids = length bs \<and> length rids = length bs \<and>
        gl_sent g' = gl_sent g @ map2 terminate_request bs rids \<and>
        w_tick w' = w_tick w"
proof (induction bs arbitrary: w g)
  case (Cons b bs)
  let ?w1 = "w\<lparr>w_ids := w_ids w + 1\<rparr>"
  obtain rid g1 where s: "send_command ONSIP_ACTIVECALLS_COMMAND ''terminate''
      (submit_form [(''from-tag'', m_fromTag b), (''to-tag'', m_toTag b), (''call-id'', m_sipCallId b)])
      O_OnSipXmpp (w_ids w + 1) g = (rid, g1)"
    by (cases "send_command ONSIP_ACTIVECALLS_COMMAND ''terminate''
      (submit_form [(''from-tag'', m_fromTag b), (''to-tag'', m_toTag b), (''call-id'', m_sipCallId b)])
      O_OnSipXmpp (w_ids w + 1) g")
  then have g1: "gl_sent g1 = gl_sent g @ [terminate_request b rid]"
    by (auto simp: send_command_def gloox_getID_def gloox_send_def gloox_trackID_def terminate_request_def
        Let_def split: if_splits)
  let ?w2 = "?w1\<lparr>w_gloox := Some g1\<rparr>"
  have d: "DropCall (m_sipCallId b) (m_fromTag b) (m_toTag b) (w_ids w + 1) ?w1 = Some (rid, ?w2)"
    using Cons.prems s by (simp add: DropCall_def Let_def)
  obtain ids rids w' g' where r: "drop_branches bs ?w2 = Some (ids, w')" "w_gloox w' = Some g'"
    "length ids = length bs" "length rids = length bs"
    "gl_sent g' = gl_sent g1 @ map2 terminate_request bs rids" "w_tick w' = w_tick ?w2"
    using Cons.IH [of ?w2 g1] by auto
  have "drop_branches (b # bs) w = Some ((w_ids w + 1) # ids, w')"
    using d r(1) by (simp add: getUniqueId_eq)
  moreover have "gl_sent g' = gl_sent g @ map2 terminate_request (b # bs) (rid # rids)"
    using r(5) g1 by simp
  ultimately show ?case using r by (intro exI [of _ "(w_ids w + 1) # ids"] exI [of _ "rid # rids"]) auto
qed simp


lemma drop_event_casts:
  "getActiveCallEvent (DropRequestEvent c) = None" "\<not> getRetractCallEvent (DropRequestEvent c)"
  "getDropRequestEvent (DropRequestEvent c) = Some c" "\<not> getXmppIqResultEvent (DropRequestEvent c)"
  "getCallRequestIqEvent (DropRequestEvent c) = None"
  by (simp_all add: DropRequestEvent_def simple_event_def new_event_def getActiveCallEvent_def
      getRetractCallEvent_def getDropRequestEvent_def getXmppIqResultEvent_def getCallRequestIqEvent_def)

lemma Call_drop_request:
  "Call_IsYourEvent h (DropRequestEvent c) w = drop_or_reply (DropRequestEvent c) h w"
proof -
  have "MakeCall_callRequest h' (DropRequestEvent c) w' = (False, h', w')" for h' w'
    by (simp add: MakeCall_callRequest_def drop_event_casts)
  then show ?thesis
    by (cases "ch_kind h"; cases "drop_or_reply (DropRequestEvent c) h w")
      (auto simp: Call_IsYourEvent.simps Outgoing_IsYourEvent_def Incoming_IsYourEvent_def
        MakeCall_IsYourEvent_def drop_event_casts)
qed

lemma drop_request_other:
  "m_callId (ch_data h) \<noteq> c \<Longrightarrow> Call_IsYourEvent h (DropRequestEvent c) w = Some (False, h, w)"
  by (auto simp: Call_drop_request drop_or_reply_def CheckDropRequestEvent_def
      CheckIqReplyDropRequest_def drop_event_casts)

lemma drop_request_mine:
  assumes "m_callId (ch_data h) = c" and "w_gloox w = Some g"
  shows "\<exists>ids rids h' w' g'. Call_IsYourEvent h (DropRequestEvent c) w = Some (True, h', w') \<and>
     ch_state h' = CS_PreDropCall \<and> ch_data h' = ch_data h \<and> ch_branches h' = ch_branches h \<and>
     ch_droppedContextIds h' = ch_droppedContextIds h @ ids \<and>
     length ids = length (ch_branches h) \<and> length rids = length (ch_branches h) \<and>
     w_gloox w' = Some g' \<and> gl_sent g' = gl_sent g @ map2 terminate_request (ch_branches h) rids"
proof -
  obtain ids rids w1 g1 where d: "drop_branches (ch_branches h) w = Some (ids, w1)" "w_gloox w1 = Some g1"
    "length ids = length (ch_branches h)" "length rids = length (ch_branches h)"
    "gl_sent g1 = gl_sent g @ map2 terminate_request (ch_branches h) rids"
    using drop_branches_sends [OF assms(2)] by blast
  have keep: "w_gloox (delete_event_opt ev w) = w_gloox w" "w_gloox (delete_event e w) = w_gloox w" for ev e w
    by (simp_all add: delete_event_opt_def delete_event_def split: option.split)
  from d assms(1) show ?thesis
    by (auto simp: Call_drop_request drop_or_reply_def CheckDropRequestEvent_def drop_event_casts
        assignNewState_eq keep)
qed



section \<open>Retractions\<close>

text \<open>
  C35. Finding: the handler of a requested call takes every retraction, also of a call it knows
  nothing of, deletes the event and does not change. The handlers after it, of which one may be
  the call that was retracted, are never asked, so that call stays on the list until a timeout.
\<close>
theorem retract_swallowed:
  assumes "getRetractCallEvent e" and "getActiveCallEvent e = None" and "ch_kind mc = MakeCall"
    and "\<not> HasId (xe_id e) (ch_branches mc)" and "ch_out_id mc \<noteq> xe_id e"
  shows "\<exists>w'. offerEvent call_ops ns e (mc # after) w = Some (True, mc # after, w') \<and>
     gone w' = gone w + {#e#}"
proof -
  have "Call_IsYourEvent mc e w = Some (True, mc, delete_event e w)"
    using assms by (simp add: Call_IsYourEvent.simps MakeCall_IsYourEvent_def MakeCall_retract_def)
  then have i: "op_IsYourEvent call_ops mc e w = Some (True, mc, delete_event e w)"
    by (simp add: call_ops_def)
  then show ?thesis by simp
qed

definition sample_retract_event :: "string \<Rightarrow> xmpp_event" where
  "sample_retract_event i = (simple_event EVT_PUBSUB_RETRACTCALL_EVENT RetractBody)\<lparr>xe_id := i\<rparr>"

theorem retract_swallowed_witness:
  "HasId ''call1'' (ch_branches (new_IncomingCall (sample_event ''call1'' sample_call) 1 0)) \<and>
   (\<exists>w'. offerEvent call_ops [()] (sample_retract_event ''call1'')
      [mc_h0, new_IncomingCall (sample_event ''call1'' sample_call) 1 0] sample_world =
      Some (True, [mc_h0, new_IncomingCall (sample_event ''call1'' sample_call) 1 0], w'))"
proof -
  have "getRetractCallEvent (sample_retract_event ''call1'')" "getActiveCallEvent (sample_retract_event ''call1'') = None"
    "\<not> HasId (xe_id (sample_retract_event ''call1'')) (ch_branches mc_h0)"
    "ch_out_id mc_h0 \<noteq> xe_id (sample_retract_event ''call1'')"
    "HasId ''call1'' (ch_branches (new_IncomingCall (sample_event ''call1'' sample_call) 1 0))"
    by code_simp+
  with retract_swallowed [OF this(1,2) mc_states(2) this(3,4), of "[()]"] show ?thesis by blast
qed

end
