(* ===== verification/Workers.thy ===== *)
theory Workers
  imports Xmpp
begin

text \<open>
  The workers of \<open>OnSipWorkers.h/.cpp\<close>, which renew the authorization and the subscription while
  the engine is up: \<open>AuthorizeWorker\<close>, \<open>EnableCallEventsWorker\<close> and the state machine
  \<open>ReAuthorizeSubscribeWorker\<close> that runs one after the other. A worker is called back by gloox
  with the IQ result and the messages it registered for.
\<close>

section \<open>AuthorizeWorker\<close>

record auth_worker =
  aw_timer :: time_elapsed
  aw_bComplete :: bool
  aw_bError :: bool
  aw_expireDate :: string

definition new_AuthorizeWorker :: "world \<Rightarrow> auth_worker" where
  "new_AuthorizeWorker w =
     \<lparr>aw_timer = TimeElapsed_Reset (w_clock w), aw_bComplete = False, aw_bError = False, aw_expireDate = ''''\<rparr>"

definition AuthorizeWorker_Execute :: "world \<Rightarrow> world option" where
  "AuthorizeWorker_Execute w =
     (let (contextId, w1) = getUniqueId w in Authorize contextId O_Worker w1)"

text \<open>The event made here is used for its cast only and never deleted.\<close>

definition AuthorizeWorker_handleIqID :: "iq \<Rightarrow> long \<Rightarrow> auth_worker \<Rightarrow> auth_worker option" where
  "AuthorizeWorker_handleIqID i context a = do {
     evt \<leftarrow> iqFactory i context;
     let a1 = a\<lparr>aw_bComplete := True\<rparr>;
         evAuthEvent = (case evt of None \<Rightarrow> None | Some e \<Rightarrow> getAuthEvent e)
     in if evAuthEvent = None \<or> iq_error i \<noteq> None then Some (a1\<lparr>aw_bError := True\<rparr>)
        else Some (a1\<lparr>aw_expireDate := the evAuthEvent\<rparr>)
   }"

section \<open>EnableCallEventsWorker\<close>

record enable_worker =
  ew_timer :: time_elapsed
  ew_bComplete :: bool
  ew_bError :: bool
  ew_bRegister :: bool
  ew_subid :: string

definition new_EnableCallEventsWorker :: "world \<Rightarrow> enable_worker" where
  "new_EnableCallEventsWorker w =
     \<lparr>ew_timer = TimeElapsed_Reset (w_clock w), ew_bComplete = False, ew_bError = False,
      ew_bRegister = False, ew_subid = ''''\<rparr>"

definition registerMessageHandler :: "xmpp_object \<Rightarrow> gloox \<Rightarrow> gloox" where
  "registerMessageHandler mh g = g\<lparr>gl_messageHandlers := gl_messageHandlers g @ [mh]\<rparr>"

definition removeMessageHandler :: "xmpp_object \<Rightarrow> gloox \<Rightarrow> gloox" where
  "removeMessageHandler mh g = g\<lparr>gl_messageHandlers := removeAll mh (gl_messageHandlers g)\<rparr>"

definition EnableCallEventsWorker_Execute ::
  "string \<Rightarrow> enable_worker \<Rightarrow> world \<Rightarrow> (enable_worker \<times> world) option" where
  "EnableCallEventsWorker_Execute expireTime n w = do {
     let n1 = n\<lparr>ew_bRegister := True\<rparr> in do {
       g \<leftarrow> w_gloox w;
       (_, w1) \<leftarrow> SubscribeCallEvents expireTime (w\<lparr>w_gloox := Some (registerMessageHandler O_Worker g)\<rparr>);
       Some (n1, w1)
     }
   }"

definition EnableCallEventsWorker_handleMessage :: "message \<Rightarrow> enable_worker \<Rightarrow> enable_worker option" where
  "EnableCallEventsWorker_handleMessage m n =
     (if ew_bComplete n then Some n
      else do {
        evt \<leftarrow> msgFactory m;
        (case evt \<bind> getPubSubSubscribedEvent of
           None \<Rightarrow> Some n
         | Some subEvt \<Rightarrow>
             let n1 = (if msg_error m \<noteq> None \<or> \<not> ps_subscribed subEvt then n\<lparr>ew_bError := True\<rparr>
                       else n\<lparr>ew_subid := c_str (ps_subid subEvt)\<rparr>)
             in Some (n1\<lparr>ew_bComplete := True\<rparr>))
      })"

text \<open>\<open>_unregister\<close>, called by the destructor.\<close>

definition delete_EnableCallEventsWorker :: "enable_worker \<Rightarrow> world \<Rightarrow> world" where
  "delete_EnableCallEventsWorker n w =
     (if ew_bRegister n then
        (case w_gloox w of
           None \<Rightarrow> w\<lparr>w_fault := True\<rparr>
         | Some g \<Rightarrow> w\<lparr>w_gloox := Some (removeMessageHandler O_Worker g)\<rparr>)
      else w)"

section \<open>ReAuthorizeSubscribeWorker\<close>

datatype reauth_state = RA_None | RA_Authorizing | RA_Subscribing

record reauthorizer =
  ra_timer :: time_elapsed
  ra_authorizer :: "auth_worker option"
  ra_subscriber :: "enable_worker option"
  ra_bComplete :: bool
  ra_bError :: bool
  ra_subid :: string
  ra_state :: reauth_state

definition new_ReAuthorizeSubscribeWorker :: "world \<Rightarrow> reauthorizer" where
  "new_ReAuthorizeSubscribeWorker w =
     \<lparr>ra_timer = TimeElapsed_Reset (w_clock w), ra_authorizer = None, ra_subscriber = None,
      ra_bComplete = False, ra_bError = False, ra_subid = '''', ra_state = RA_None\<rparr>"

text \<open>\<open>OnSipWorker::Msecs\<close>.\<close>

definition ReAuthorize_Msecs :: "reauthorizer \<Rightarrow> world \<Rightarrow> long" where
  "ReAuthorize_Msecs r w = TimeElapsed_Msecs (ra_timer r) (w_clock w)"

definition ReAuthorize_Execute :: "reauthorizer \<Rightarrow> world \<Rightarrow> (reauthorizer \<times> world) option" where
  "ReAuthorize_Execute r w = do {
     let r1 = r\<lparr>ra_authorizer := Some (new_AuthorizeWorker w), ra_state := RA_Authorizing\<rparr> in do {
       w1 \<leftarrow> AuthorizeWorker_Execute w;
       Some (r1, w1)
     }
   }"

definition ReAuthorize_IsComplete ::
  "reauthorizer \<Rightarrow> world \<Rightarrow> (bool \<times> reauthorizer \<times> world) option" where
  "ReAuthorize_IsComplete r w =
     (if ra_bComplete r then Some (True, r, w)
      else if ra_state r = RA_Authorizing then
        do {
          a \<leftarrow> ra_authorizer r;
          if \<not> aw_bComplete a then Some (False, r, w)
          else
            let r1 = r\<lparr>ra_authorizer := None\<rparr> in
            if aw_bError a then Some (True, r1\<lparr>ra_bError := True, ra_bComplete := True\<rparr>, w)
            else do {
              (n, w1) \<leftarrow> EnableCallEventsWorker_Execute (aw_expireDate a) (new_EnableCallEventsWorker w) w;
              Some (False, r1\<lparr>ra_subscriber := Some n, ra_state := RA_Subscribing\<rparr>, w1)
            }
        }
      else if ra_state r = RA_Subscribing then
        do {
          n \<leftarrow> ra_subscriber r;
          if \<not> ew_bComplete n then Some (False, r, w)
          else
            let r1 = r\<lparr>ra_subid := ew_subid n, ra_subscriber := None\<rparr>;
                w1 = delete_EnableCallEventsWorker n w
            in if ew_bError n then Some (True, r1\<lparr>ra_bError := True, ra_bComplete := True\<rparr>, w1)
               else Some (True, r1\<lparr>ra_bComplete := True\<rparr>, w1)
        }
      else Some (False, r, w))"

definition delete_reauthorizer :: "reauthorizer \<Rightarrow> world \<Rightarrow> world" where
  "delete_reauthorizer r w =
     (case ra_subscriber r of None \<Rightarrow> w | Some n \<Rightarrow> delete_EnableCallEventsWorker n w)"

end
