(* ===== verification/InitMachine.thy ===== *)
theory InitMachine
  imports Workers CallMachine
begin

text \<open>
  \<open>OnSipInitStateMachine.h/.cpp\<close>: the handler that logs in, authorizes, subscribes to the call
  events, renews the subscription, pings the server, and unsubscribes at shutdown. Its machine
  has no state data. \<open>IsYourEvent\<close> answers \<^const>\<open>None\<close> at its null-pointer dereference, the
  plain IQ result taken for an authorization. The locales of \<open>StateMachine\<close> are interpreted on it.
\<close>

section \<open>The handler\<close>

definition AUTHTIMEOUT_QUICK_RETRY :: long where "AUTHTIMEOUT_QUICK_RETRY = word_of_int (30 * MSECS_IN_SEC)"
definition AUTHTIMEOUT_RETRY :: long where "AUTHTIMEOUT_RETRY = word_of_int (15 * MSECS_IN_MIN)"
definition SUBSCRIBE_QUICK_RETRY :: long where "SUBSCRIBE_QUICK_RETRY = word_of_int (30 * MSECS_IN_SEC)"
definition SUBSCRIBE_TIMEOUT :: long where "SUBSCRIBE_TIMEOUT = word_of_int (50 * MSECS_IN_MIN)"
definition PINGTIMEOUT :: long where "PINGTIMEOUT = word_of_int (5 * MSECS_IN_MIN)"
definition GENERAL_COMMUNICATION_TIMEOUT :: long where
  "GENERAL_COMMUNICATION_TIMEOUT = word_of_int (15 * MSECS_IN_SEC)"

lemmas init_timeout_defs = SUBSCRIBE_QUICK_RETRY_def SUBSCRIBE_TIMEOUT_def PINGTIMEOUT_def
  GENERAL_COMMUNICATION_TIMEOUT_def msecs_defs

record init_handler =
  ih_item :: "(init_state, xmpp_event, unit) state_item"
  ih_contextId :: long
  ih_enableCallEventsId :: tstring
  ih_authTO :: timeout
  ih_ping :: timeout
  ih_bEnabledCallEvents :: bool
  ih_subscribed_subid :: string
  ih_unsubscribe_contextId :: long
  ih_reauthorizer :: "reauthorizer option"

abbreviation ih_state :: "init_handler \<Rightarrow> init_state" where "ih_state h \<equiv> si_state (ih_item h)"
abbreviation ih_event :: "init_handler \<Rightarrow> xmpp_event option" where "ih_event h \<equiv> si_event (ih_item h)"

definition new_InitStateHandler :: "world \<Rightarrow> init_handler" where
  "new_InitStateHandler w =
     \<lparr>ih_item = new_state_item IS_PreLogin None () (w_tick w), ih_contextId = 0, ih_enableCallEventsId = '''',
      ih_authTO = TimeOut SUBSCRIBE_TIMEOUT (w_clock w), ih_ping = TimeOut PINGTIMEOUT (w_clock w),
      ih_bEnabledCallEvents = False, ih_subscribed_subid = '''', ih_unsubscribe_contextId = 0,
      ih_reauthorizer = None\<rparr>"

definition ih_assignNewState ::
  "init_state \<Rightarrow> init_handler \<Rightarrow> world \<Rightarrow> init_handler \<times> world" where
  "ih_assignNewState s h w =
     (let (it, old) = assign_new_state s None (w_tick w) (ih_item h) in
      (h\<lparr>ih_item := it\<rparr>, delete_event_opt old w))"

text \<open>The first two branches of \<open>IsYourEvent\<close>: logging in and authorizing.\<close>

definition Init_preLogin ::
  "init_handler \<Rightarrow> xmpp_event \<Rightarrow> world \<Rightarrow> (bool \<times> init_handler \<times> world) option" where
  "Init_preLogin h e w =
     (if getOnConnectEvent e \<and> \<not> IsError e then
        (let (ctx, w1) = getUniqueId w; h1 = h\<lparr>ih_contextId := ctx\<rparr> in do {
           w2 \<leftarrow> getSubscriptions w1;
           w3 \<leftarrow> Authorize ctx O_OnSipXmpp w2;
           (case ih_assignNewState IS_Authorizing h1 w3 of (h2, w4) \<Rightarrow> Some (True, h2, delete_event e w4))
         })
      else (case ih_assignNewState IS_LoginError h w of (h1, w1) \<Rightarrow> Some (True, h1, delete_event e w1)))"

definition Init_authorizing ::
  "init_handler \<Rightarrow> xmpp_event \<Rightarrow> world \<Rightarrow> (bool \<times> init_handler \<times> world) option" where
  "Init_authorizing h e w =
     (if \<not> IsError e then
        (case ih_assignNewState IS_EnablingCallEvents h w of (h1, w1) \<Rightarrow> do {
           expire \<leftarrow> getAuthEvent e;
           (rid, w2) \<leftarrow> SubscribeCallEvents expire w1;
           Some (True, h1\<lparr>ih_enableCallEventsId := rid\<rparr>, delete_event e w2)
         })
      else (case ih_assignNewState IS_AuthorizedError h w of (h1, w1) \<Rightarrow> Some (True, h1, delete_event e w1)))"

definition Init_enabling ::
  "init_handler \<Rightarrow> xmpp_event \<Rightarrow> subscribed \<Rightarrow> world \<Rightarrow> bool \<times> init_handler \<times> world" where
  "Init_enabling h e ps w =
     (if \<not> IsError e then
        (let (h1, w1) = ih_assignNewState IS_OK h w in
         (True, h1\<lparr>ih_authTO := SetMsecs (ih_authTO h1) SUBSCRIBE_TIMEOUT (w_clock w1),
                  ih_bEnabledCallEvents := True, ih_subscribed_subid := ps_subid ps\<rparr>, delete_event e w1))
      else
        (let (h1, w1) = ih_assignNewState IS_EnabledCallError h w in
         (True, h1\<lparr>ih_bEnabledCallEvents := False\<rparr>, delete_event e w1)))"

definition Init_IsYourEvent ::
  "init_handler \<Rightarrow> xmpp_event \<Rightarrow> world \<Rightarrow> (bool \<times> init_handler \<times> world) option" where
  "Init_IsYourEvent h e w =
     (if ih_state h = IS_PreLogin \<and> (getOnConnectEvent e \<or> getOnDisconnectEvent e) then Init_preLogin h e w
      else if ih_state h = IS_Authorizing \<and>
              (getXmppIqResultEvent e \<and> xe_context e = ih_contextId h \<or> getAuthEvent e \<noteq> None) then
        Init_authorizing h e w
      else
        (case (if ih_state h = IS_EnablingCallEvents then getPubSubSubscribedEvent e else None) of
           Some ps \<Rightarrow> Some (Init_enabling h e ps w)
         | None \<Rightarrow>
             if getOnDisconnectEvent e then
               (case ih_assignNewState IS_Disconnected h w of (h1, w1) \<Rightarrow> Some (True, h1, delete_event e w1))
             else if getShutdownRequestEvent e then do {
               (ctx, w1) \<leftarrow> UnsubscribeCallEvents (ih_subscribed_subid h) O_OnSipXmpp w;
               (case ih_assignNewState IS_ShuttingDown (h\<lparr>ih_unsubscribe_contextId := ctx\<rparr>) w1 of
                  (h1, w2) \<Rightarrow> Some (True, h1, delete_event e w2))
             }
             else if ih_state h = IS_ShuttingDown \<and> getXmppIqResultEvent e \<and>
                     xe_context e = ih_unsubscribe_contextId h then
               (case ih_assignNewState IS_ShutDown h w of (h1, w1) \<Rightarrow> Some (True, h1, delete_event e w1))
             else Some (False, h, w)))"

definition delete_reauthorizer_opt :: "init_handler \<Rightarrow> world \<Rightarrow> init_handler \<times> world" where
  "delete_reauthorizer_opt h w =
     (h\<lparr>ih_reauthorizer := None\<rparr>,
      case ih_reauthorizer h of None \<Rightarrow> w | Some r \<Rightarrow> delete_reauthorizer r w)"

definition Init_IsStillExist :: "init_handler \<Rightarrow> world \<Rightarrow> bool \<times> init_handler \<times> world" where
  "Init_IsStillExist h w =
     (if ih_state h = IS_ShutDown then (let (h1, w1) = delete_reauthorizer_opt h w in (False, h1, w1))
      else (True, h, w))"

section \<open>Polling\<close>

definition Init_CheckStateTimeout ::
  "init_state \<Rightarrow> long \<Rightarrow> init_handler \<Rightarrow> world \<Rightarrow> bool \<times> init_handler \<times> world" where
  "Init_CheckStateTimeout s timeout h w =
     (if ih_state h = s \<and> sint timeout < sint (MsecsSinceLastStateChange (ih_item h) (w_tick w)) then
        (let (h1, w1) = ih_assignNewState IS_Disconnected h w in (True, h1, w1))
      else (False, h, w))"

definition handleReAuthorize :: "init_handler \<Rightarrow> world \<Rightarrow> (bool \<times> init_handler \<times> world) option" where
  "handleReAuthorize h w =
     (case ih_reauthorizer h of
        None \<Rightarrow> do {
          (r, w1) \<leftarrow> ReAuthorize_Execute (new_ReAuthorizeSubscribeWorker w) w;
          Some (True, h\<lparr>ih_reauthorizer := Some r\<rparr>, w1)
        }
      | Some r0 \<Rightarrow> do {
          (complete, r, w1) \<leftarrow> ReAuthorize_IsComplete r0 w;
          let h1 = h\<lparr>ih_reauthorizer := Some r\<rparr> in
          if complete then
            let h2 = (if ra_bError r
                      then h1\<lparr>ih_authTO := SetMsecs (ih_authTO h1) SUBSCRIBE_QUICK_RETRY (w_clock w1)\<rparr>
                      else h1\<lparr>ih_subscribed_subid := ra_subid r,
                             ih_authTO := SetMsecs (ih_authTO h1) SUBSCRIBE_TIMEOUT (w_clock w1)\<rparr>);
                (h3, w2) = delete_reauthorizer_opt h2 w1
            in Some (True, h3, w2)
          else if sint GENERAL_COMMUNICATION_TIMEOUT * 3 < sint (ReAuthorize_Msecs r w1) then
            let (h2, w2) = ih_assignNewState IS_Disconnected h1 w1;
                (h3, w3) = delete_reauthorizer_opt h2 w2
            in Some (False, h3, w3)
          else Some (True, h1, w1)
        })"

fun check_init_timeouts ::
  "init_state list \<Rightarrow> init_handler \<Rightarrow> world \<Rightarrow> bool \<times> init_handler \<times> world" where
  "check_init_timeouts [] h w = (False, h, w)"
| "check_init_timeouts (s # ss) h w =
     (let (fired, h1, w1) = Init_CheckStateTimeout s GENERAL_COMMUNICATION_TIMEOUT h w in
      if fired then (True, h1, w1) else check_init_timeouts ss h1 w1)"

definition Init_PollStateHandler :: "init_handler \<Rightarrow> world \<Rightarrow> (bool \<times> init_handler \<times> world) option" where
  "Init_PollStateHandler h w = do {
     (ok, h1, w1) \<leftarrow>
       (if ih_state h = IS_OK \<and> IsExpired (ih_authTO h) (w_clock w) then handleReAuthorize h w
        else Some (True, h, w));
     if \<not> ok then Some (True, h1, w1)
     else
       let (h2, w2) =
         (if ih_state h1 = IS_OK \<and> IsExpired (ih_ping h1) (w_clock w1)
          then (h1\<lparr>ih_ping := TimeOut_Reset (ih_ping h1) (w_clock w1)\<rparr>, Ping w1) else (h1, w1))
       in Some (check_init_timeouts [IS_PreLogin, IS_Authorizing, IS_EnablingCallEvents, IS_ShuttingDown] h2 w2)
   }"

section \<open>The machine\<close>

definition Init_UnknownEvent :: "xmpp_event \<Rightarrow> world \<Rightarrow> init_handler option \<times> world" where
  "Init_UnknownEvent e w = (None, w)"

text \<open>The handler's destructor deletes its re-authorizer and its event.\<close>

definition delete_init_handler :: "init_handler \<Rightarrow> world \<Rightarrow> world" where
  "delete_init_handler h w = delete_event_opt (ih_event h) (snd (delete_reauthorizer_opt h w))"

definition init_ops :: "(init_handler, xmpp_event, init_state, unit, unit, world) ops" where
  "init_ops = \<lparr>
     op_IsYourEvent = Init_IsYourEvent,
     op_IsStillExist = Init_IsStillExist,
     op_PollStateHandler = Init_PollStateHandler,
     op_getCurrentState = (\<lambda>h. ih_state h),
     op_getCurrentStateData = (\<lambda>_. ()),
     op_UnknownEvent = Init_UnknownEvent,
     op_StateChange = (\<lambda>_ s _. InitStateChange s),
     op_deleteHandler = delete_init_handler,
     op_deleteEvent = delete_event,
     op_HasPreExecute = (\<lambda>_. False),
     op_PreExecute = (\<lambda>h w. Some (False, h, w))\<rparr>"

type_synonym init_machine = "(init_handler, unit, xmpp_event) base_machine"

section \<open>Events have one owner\<close>

abbreviation init_own :: "init_handler \<Rightarrow> xmpp_event multiset" where
  "init_own h \<equiv> own_opt (ih_event h)"

lemma ih_assignNewState_eq:
  "ih_assignNewState s h w =
     (h\<lparr>ih_item := (ih_item h)\<lparr>si_state := s, si_event := None, si_last := w_tick w\<rparr>\<rparr>,
      delete_event_opt (ih_event h) w)"
  by (simp add: ih_assignNewState_def assign_new_state_def)

text \<open>The steps that neither take nor delete an event and leave the handler's item alone.\<close>

lemma gone_update [simp]:
  "gone (w\<lparr>w_gloox := g\<rparr>) = gone w" "gone (w\<lparr>w_fault := f\<rparr>) = gone w" "gone (w\<lparr>w_ids := i\<rparr>) = gone w"
  by (simp_all add: gone_def)

lemma gone_requests:
  "Authorize ctx h w = Some w' \<Longrightarrow> gone w' = gone w"
  "SubscribeCallEvents x w = Some (rid, w') \<Longrightarrow> gone w' = gone w"
  "UnsubscribeCallEvents x h w = Some (c, w') \<Longrightarrow> gone w' = gone w"
  "getSubscriptions w = Some w' \<Longrightarrow> gone w' = gone w"
  "getUniqueId w = (i, w') \<Longrightarrow> gone w' = gone w"
  by (auto intro: gone_same_view getUniqueId_keeps requests_keep)

lemma gone_Ping [simp]: "gone (Ping w) = gone w"
  by (simp add: gone_same_view requests_keep(7))

lemma gone_workers [simp]:
  "gone (delete_EnableCallEventsWorker n w) = gone w"
  "gone (delete_reauthorizer r w) = gone w"
  "gone (snd (delete_reauthorizer_opt h w)) = gone w"
  by (auto simp: delete_EnableCallEventsWorker_def delete_reauthorizer_def delete_reauthorizer_opt_def
      split: option.split)

lemma gone_Execute:
  "AuthorizeWorker_Execute w = Some w' \<Longrightarrow> gone w' = gone w"
  "EnableCallEventsWorker_Execute x n w = Some (n', w') \<Longrightarrow> gone w' = gone w"
  "ReAuthorize_Execute r w = Some (r', w') \<Longrightarrow> gone w' = gone w"
  "ReAuthorize_IsComplete r w = Some (b, r'', w'') \<Longrightarrow> gone w'' = gone w"
  by (auto simp: AuthorizeWorker_Execute_def EnableCallEventsWorker_Execute_def ReAuthorize_Execute_def
      ReAuthorize_IsComplete_def Let_def bind_eq_Some_conv split: prod.splits if_splits
      dest!: gone_requests)

definition init_conserves ::
  "xmpp_event \<Rightarrow> init_handler \<Rightarrow> world \<Rightarrow> bool \<times> init_handler \<times> world \<Rightarrow> bool" where
  "init_conserves e h w r \<longleftrightarrow>
     (case r of (b, h', w') \<Rightarrow>
        init_own h' + gone w' = init_own h + gone w + (if b then {#e#} else {#}))"

lemma Init_branches_conserve:
  "Init_preLogin h e w = Some r \<Longrightarrow> init_conserves e h w r"
  "Init_authorizing h e w = Some r \<Longrightarrow> init_conserves e h w r"
  "init_conserves e h w (Init_enabling h e ps w)"
  by (auto simp: Init_preLogin_def Init_authorizing_def Init_enabling_def Let_def init_conserves_def
      ih_assignNewState_eq bind_eq_Some_conv split: if_splits prod.splits dest!: gone_requests)

lemma Init_IsYourEvent_conserves:
  assumes "Init_IsYourEvent h e w = Some r"
  shows "init_conserves e h w r"
proof -
  let ?rest = "if getOnDisconnectEvent e then
       (case ih_assignNewState IS_Disconnected h w of (h1, w1) \<Rightarrow> Some (True, h1, delete_event e w1))
     else if getShutdownRequestEvent e then do {
       (ctx, w1) \<leftarrow> UnsubscribeCallEvents (ih_subscribed_subid h) O_OnSipXmpp w;
       (case ih_assignNewState IS_ShuttingDown (h\<lparr>ih_unsubscribe_contextId := ctx\<rparr>) w1 of
          (h1, w2) \<Rightarrow> Some (True, h1, delete_event e w2))
     }
     else if ih_state h = IS_ShuttingDown \<and> getXmppIqResultEvent e \<and>
             xe_context e = ih_unsubscribe_contextId h then
       (case ih_assignNewState IS_ShutDown h w of (h1, w1) \<Rightarrow> Some (True, h1, delete_event e w1))
     else Some (False, h, w)"
  have "?rest = Some r \<Longrightarrow> init_conserves e h w r"
    by (auto simp: init_conserves_def ih_assignNewState_eq bind_eq_Some_conv split: if_splits
        dest!: gone_requests)
  with assms Init_branches_conserve show ?thesis
    unfolding Init_IsYourEvent_def by (auto split: if_splits option.splits)
qed

lemma check_init_timeouts_conserves:
  "check_init_timeouts ss h w = (b, h', w') \<Longrightarrow> init_own h' + gone w' = init_own h + gone w"
  by (induction ss h w arbitrary: b h' w' rule: check_init_timeouts.induct)
    (auto simp: Init_CheckStateTimeout_def ih_assignNewState_eq split: prod.splits if_splits)

lemma delete_opt_conserves:
  "delete_reauthorizer_opt h w = (h', w') \<Longrightarrow> ih_event h' = ih_event h \<and> gone w' = gone w"
  using gone_workers(3) [of h w] by (auto simp: delete_reauthorizer_opt_def)

lemma handleReAuthorize_conserves:
  "handleReAuthorize h w = Some (b, h', w') \<Longrightarrow> init_own h' + gone w' = init_own h + gone w"
  by (auto simp: handleReAuthorize_def Let_def bind_eq_Some_conv ih_assignNewState_eq
      split: option.splits if_splits prod.splits dest!: gone_Execute delete_opt_conserves)

lemma Init_PollStateHandler_conserves:
  "Init_PollStateHandler h w = Some (b, h', w') \<Longrightarrow> init_own h' + gone w' = init_own h + gone w"
  by (auto simp: Init_PollStateHandler_def Let_def bind_eq_Some_conv
      simp del: check_init_timeouts.simps split: if_splits
      dest!: handleReAuthorize_conserves check_init_timeouts_conserves)

lemma gone_InitStateChange [simp]: "gone (InitStateChange s r w) = gone w"
  by (simp add: InitStateChange_def gone_def Let_def)

interpretation init_owner: event_owner init_ops init_own gone
proof (unfold_locales, goal_cases)
  case (1 h e w b h' w')
  then show ?case using Init_IsYourEvent_conserves [of h e w "(b, h', w')"]
    by (auto simp: init_ops_def init_conserves_def)
next
  case (2 h w b h' w')
  then show ?case
    by (auto simp: init_ops_def Init_IsStillExist_def split: if_splits prod.splits
        dest!: delete_opt_conserves)
next
  case (3 h w b h' w')
  then show ?case by (auto simp: init_ops_def intro: Init_PollStateHandler_conserves)
next
  case (4 h w b h' w')
  then show ?case by (auto simp: init_ops_def)
next
  case (5 e w r w')
  then show ?case by (auto simp: init_ops_def Init_UnknownEvent_def)
qed (auto simp: init_ops_def delete_init_handler_def)

section \<open>The handlers' invariant\<close>

text \<open>A running re-authorizer owns the worker its state names.\<close>

definition ra_ok :: "reauthorizer \<Rightarrow> bool" where
  "ra_ok r \<longleftrightarrow> ra_bComplete r \<or> ra_state r = RA_Authorizing \<and> ra_authorizer r \<noteq> None \<or>
     ra_state r = RA_Subscribing \<and> ra_subscriber r \<noteq> None"

definition init_inv :: "init_handler \<Rightarrow> bool" where
  "init_inv h \<longleftrightarrow> (case ih_reauthorizer h of None \<Rightarrow> True | Some r \<Rightarrow> ra_ok r)"

definition engine_ok :: "world \<Rightarrow> bool" where
  "engine_ok w \<longleftrightarrow> engine_up w \<and> \<not> w_fault w"

definition init_safe :: "init_handler \<Rightarrow> xmpp_event \<Rightarrow> bool" where
  "init_safe h e \<longleftrightarrow>
     \<not> (ih_state h = IS_Authorizing \<and> getXmppIqResultEvent e \<and> xe_context e = ih_contextId h \<and> \<not> IsError e)"

lemma engine_ok_same: "same_view w w' \<Longrightarrow> engine_ok w \<Longrightarrow> engine_ok w'"
  by (auto simp: engine_ok_def dest: same_viewD)

lemma engine_ok_delete [simp]:
  "engine_ok (delete_event e w) = engine_ok w" "engine_ok (delete_event_opt ev w) = engine_ok w"
  by (auto simp: engine_ok_def delete_event_def delete_event_opt_def engine_up_def split: option.split)

lemma engine_ok_workers [simp]:
  "engine_ok w \<Longrightarrow> engine_ok (delete_EnableCallEventsWorker n w)"
  "engine_ok w \<Longrightarrow> engine_ok (delete_reauthorizer r w)"
  "engine_ok w \<Longrightarrow> engine_ok (snd (delete_reauthorizer_opt h w))"
  by (auto simp: delete_EnableCallEventsWorker_def delete_reauthorizer_def delete_reauthorizer_opt_def
      engine_ok_def engine_up_def split: option.split)

lemma engine_ok_Ping [simp]: "engine_ok w \<Longrightarrow> engine_ok (Ping w)"
  by (rule engine_ok_same [OF requests_keep(7)])

lemma requests_ok:
  assumes "engine_ok w"
  shows "\<exists>w'. Authorize ctx h w = Some w' \<and> engine_ok w'"
    and "\<exists>rid w'. SubscribeCallEvents x w = Some (rid, w') \<and> engine_ok w'"
    and "\<exists>c w'. UnsubscribeCallEvents x h w = Some (c, w') \<and> engine_ok w'"
    and "\<exists>w'. getSubscriptions w = Some w' \<and> engine_ok w'"
    and "\<exists>i w'. getUniqueId w = (i, w') \<and> engine_ok w'"
proof -
  have up: "engine_up w" using assms by (simp add: engine_ok_def)
  note same = engine_ok_same [OF _ assms]
  show "\<exists>w'. Authorize ctx h w = Some w' \<and> engine_ok w'"
    using requests_total(1) [OF up] requests_keep(1) same by blast
  show "\<exists>rid w'. SubscribeCallEvents x w = Some (rid, w') \<and> engine_ok w'"
    using requests_total(2) [OF up] requests_keep(2) same by blast
  show "\<exists>c w'. UnsubscribeCallEvents x h w = Some (c, w') \<and> engine_ok w'"
    using requests_total(3) [OF up] requests_keep(3) same by blast
  show "\<exists>w'. getSubscriptions w = Some w' \<and> engine_ok w'"
    using requests_total(4) [OF up] requests_keep(4) same by blast
  show "\<exists>i w'. getUniqueId w = (i, w') \<and> engine_ok w'"
    using getUniqueId_keeps engine_ok_same [OF _ assms] by (cases "getUniqueId w") blast
qed

lemma Execute_ok:
  assumes "engine_ok w"
  shows "\<exists>w'. AuthorizeWorker_Execute w = Some w' \<and> engine_ok w'"
    and "\<exists>n' w'. EnableCallEventsWorker_Execute x n w = Some (n', w') \<and> engine_ok w'"
    and "\<exists>r' w'. ReAuthorize_Execute r w = Some (r', w') \<and> ra_ok r' \<and> engine_ok w'"
proof -
  obtain i w1 where u: "getUniqueId w = (i, w1)" "engine_ok w1" using requests_ok(5) [OF assms] by blast
  from requests_ok(1) [OF u(2), of i O_Worker] u
  show a: "\<exists>w'. AuthorizeWorker_Execute w = Some w' \<and> engine_ok w'"
    by (auto simp: AuthorizeWorker_Execute_def)
  from a show "\<exists>r' w'. ReAuthorize_Execute r w = Some (r', w') \<and> ra_ok r' \<and> engine_ok w'"
    by (auto simp: ReAuthorize_Execute_def Let_def ra_ok_def)
  obtain g where g: "w_gloox w = Some g" using assms by (auto simp: engine_ok_def engine_up_def)
  let ?w = "w\<lparr>w_gloox := Some (registerMessageHandler O_Worker g)\<rparr>"
  have "engine_ok ?w" using assms by (simp add: engine_ok_def engine_up_def)
  from requests_ok(2) [OF this, of x] g
  show "\<exists>n' w'. EnableCallEventsWorker_Execute x n w = Some (n', w') \<and> engine_ok w'"
    by (auto simp: EnableCallEventsWorker_Execute_def Let_def)
qed

lemma ReAuthorize_IsComplete_ok:
  assumes "engine_ok w" and "ra_ok r"
  shows "\<exists>b r' w'. ReAuthorize_IsComplete r w = Some (b, r', w') \<and> ra_ok r' \<and> engine_ok w'"
proof (cases "ra_bComplete r")
  case True
  then have "ReAuthorize_IsComplete r w = Some (True, r, w)" by (simp add: ReAuthorize_IsComplete_def)
  with assms show ?thesis by blast
next
  case False
  with assms(2) consider (a) a where "ra_state r = RA_Authorizing" "ra_authorizer r = Some a"
    | (s) n where "ra_state r = RA_Subscribing" "ra_subscriber r = Some n"
    by (auto simp: ra_ok_def)
  then show ?thesis
  proof cases
    case a
    obtain n' w' where "EnableCallEventsWorker_Execute (aw_expireDate a) (new_EnableCallEventsWorker w) w = Some (n', w')"
      "engine_ok w'" using Execute_ok(2) [OF assms(1)] by blast
    with a False assms show ?thesis
      by (auto simp: ReAuthorize_IsComplete_def Let_def ra_ok_def)
  next
    case s
    with False assms show ?thesis by (auto simp: ReAuthorize_IsComplete_def Let_def ra_ok_def)
  qed
qed

lemma handleReAuthorize_ok:
  assumes "engine_ok w" and "init_inv h"
  shows "\<exists>b h' w'. handleReAuthorize h w = Some (b, h', w') \<and> init_inv h' \<and> engine_ok w'"
proof (cases "ih_reauthorizer h")
  case None
  with Execute_ok(3) [OF assms(1), of "new_ReAuthorizeSubscribeWorker w"] show ?thesis
    by (auto simp: handleReAuthorize_def init_inv_def)
next
  case (Some r0)
  with assms(2) have "ra_ok r0" by (simp add: init_inv_def)
  from ReAuthorize_IsComplete_ok [OF assms(1) this] obtain c r w1 where
    i: "ReAuthorize_IsComplete r0 w = Some (c, r, w1)" "ra_ok r" "engine_ok w1" by blast
  have d: "ih_reauthorizer h' = None \<and> engine_ok w'"
    if "delete_reauthorizer_opt g v = (h', w')" "engine_ok v" for g v h' w'
    using that engine_ok_workers(3) [of v g] by (auto simp: delete_reauthorizer_opt_def)
  show ?thesis
  proof (cases "handleReAuthorize h w")
    case None
    with Some i(1) show ?thesis by (simp add: handleReAuthorize_def Let_def split_beta split: if_splits)
  next
    case s: (Some x)
    obtain b h' w' where x: "x = (b, h', w')" by (cases x)
    from s [unfolded x] Some i have "init_inv h' \<and> engine_ok w'"
      by (auto simp: handleReAuthorize_def Let_def ih_assignNewState_eq init_inv_def
          split: if_splits prod.splits dest!: d)
    with s x show ?thesis by blast
  qed
qed

lemma check_init_timeouts_ok:
  "check_init_timeouts ss h w = (b, h', w') \<Longrightarrow> init_inv h \<Longrightarrow> engine_ok w \<Longrightarrow> init_inv h' \<and> engine_ok w'"
  by (induction ss h w arbitrary: b h' w' rule: check_init_timeouts.induct)
    (auto simp: Init_CheckStateTimeout_def ih_assignNewState_eq init_inv_def split: prod.splits if_splits)

lemma Init_PollStateHandler_ok:
  assumes "engine_ok w" and "init_inv h"
  shows "\<exists>b h' w'. Init_PollStateHandler h w = Some (b, h', w') \<and> init_inv h' \<and> engine_ok w'"
proof -
  obtain b h1 w1 where r:
    "(if ih_state h = IS_OK \<and> IsExpired (ih_authTO h) (w_clock w) then handleReAuthorize h w
      else Some (True, h, w)) = Some (b, h1, w1)" "init_inv h1" "engine_ok w1"
    using handleReAuthorize_ok [OF assms] assms
    by (cases "ih_state h = IS_OK \<and> IsExpired (ih_authTO h) (w_clock w)") auto
  show ?thesis
  proof (cases b)
    case False
    with r show ?thesis by (simp add: Init_PollStateHandler_def)
  next
    case True
    define h2 where "h2 = (if ih_state h1 = IS_OK \<and> IsExpired (ih_ping h1) (w_clock w1)
      then h1\<lparr>ih_ping := TimeOut_Reset (ih_ping h1) (w_clock w1)\<rparr> else h1)"
    define w2 where "w2 = (if ih_state h1 = IS_OK \<and> IsExpired (ih_ping h1) (w_clock w1) then Ping w1 else w1)"
    obtain c h3 w3 where k: "check_init_timeouts [IS_PreLogin, IS_Authorizing, IS_EnablingCallEvents, IS_ShuttingDown]
        h2 w2 = (c, h3, w3)" by (cases "check_init_timeouts [IS_PreLogin, IS_Authorizing, IS_EnablingCallEvents, IS_ShuttingDown] h2 w2")
    have "init_inv h2" "engine_ok w2" using r by (simp_all add: h2_def w2_def init_inv_def)
    from check_init_timeouts_ok [OF k this]
    have "init_inv h3" "engine_ok w3" by simp_all
    moreover have "Init_PollStateHandler h w = Some (c, h3, w3)"
      using r(1) True k unfolding Init_PollStateHandler_def h2_def w2_def
      by (cases "ih_state h1 = IS_OK \<and> IsExpired (ih_ping h1) (w_clock w1)")
        (auto simp del: check_init_timeouts.simps)
    ultimately show ?thesis by blast
  qed
qed

lemma Init_branches_ok:
  assumes "engine_ok w" and "init_inv h"
  shows "\<exists>b h' w'. Init_preLogin h e w = Some (b, h', w') \<and> init_inv h' \<and> engine_ok w'"
    and "getAuthEvent e \<noteq> None \<or> IsError e \<Longrightarrow>
      \<exists>b h' w'. Init_authorizing h e w = Some (b, h', w') \<and> init_inv h' \<and> engine_ok w'"
proof -
  obtain i w1 where u: "getUniqueId w = (i, w1)" "engine_ok w1" using requests_ok(5) [OF assms(1)] by blast
  obtain w2 where s: "getSubscriptions w1 = Some w2" "engine_ok w2" using requests_ok(4) [OF u(2)] by blast
  obtain w3 where a: "Authorize i O_OnSipXmpp w2 = Some w3" "engine_ok w3" using requests_ok(1) [OF s(2)] by blast
  show "\<exists>b h' w'. Init_preLogin h e w = Some (b, h', w') \<and> init_inv h' \<and> engine_ok w'"
    using assms u s a by (simp add: Init_preLogin_def ih_assignNewState_eq init_inv_def)
  show "\<exists>b h' w'. Init_authorizing h e w = Some (b, h', w') \<and> init_inv h' \<and> engine_ok w'"
    if "getAuthEvent e \<noteq> None \<or> IsError e"
  proof (cases "IsError e")
    case True
    with assms show ?thesis by (simp add: Init_authorizing_def ih_assignNewState_eq init_inv_def)
  next
    case False
    with that obtain x where x: "getAuthEvent e = Some x" by blast
    obtain rid w4 where "SubscribeCallEvents x (delete_event_opt (ih_event h) w) = Some (rid, w4)" "engine_ok w4"
      using requests_ok(2) [of "delete_event_opt (ih_event h) w" x] assms(1) by auto
    with False x assms show ?thesis by (simp add: Init_authorizing_def ih_assignNewState_eq init_inv_def)
  qed
qed

lemma event_getters_exclusive:
  "getXmppIqResultEvent e \<Longrightarrow> getAuthEvent e = None"
  "getAuthEvent e = Some x \<Longrightarrow> \<not> getXmppIqResultEvent e"
  by (auto simp: getXmppIqResultEvent_def getAuthEvent_def)

lemma Init_IsYourEvent_ok:
  assumes "engine_ok w" and "init_inv h" and "init_safe h e"
  shows "\<exists>b h' w'. Init_IsYourEvent h e w = Some (b, h', w') \<and> init_inv h' \<and> engine_ok w'"
proof -
  consider (pre) "ih_state h = IS_PreLogin" "getOnConnectEvent e \<or> getOnDisconnectEvent e"
    | (auth) "ih_state h = IS_Authorizing"
        "getXmppIqResultEvent e \<and> xe_context e = ih_contextId h \<or> getAuthEvent e \<noteq> None"
    | (enab) ps where "ih_state h = IS_EnablingCallEvents" "getPubSubSubscribedEvent e = Some ps"
    | (other) "\<not> (ih_state h = IS_PreLogin \<and> (getOnConnectEvent e \<or> getOnDisconnectEvent e))"
        "\<not> (ih_state h = IS_Authorizing \<and>
          (getXmppIqResultEvent e \<and> xe_context e = ih_contextId h \<or> getAuthEvent e \<noteq> None))"
        "(if ih_state h = IS_EnablingCallEvents then getPubSubSubscribedEvent e else None) = None"
    by (cases "if ih_state h = IS_EnablingCallEvents then getPubSubSubscribedEvent e else None")
      (blast, metis option.distinct(1))
  then show ?thesis
  proof cases
    case pre
    with Init_branches_ok(1) [OF assms(1,2), of e] show ?thesis by (simp add: Init_IsYourEvent_def)
  next
    case auth
    with assms(3) have "getAuthEvent e \<noteq> None \<or> IsError e" by (auto simp: init_safe_def)
    from Init_branches_ok(2) [OF assms(1,2) this] auth show ?thesis by (simp add: Init_IsYourEvent_def)
  next
    case enab
    then have "Init_IsYourEvent h e w = Some (Init_enabling h e ps w)" by (simp add: Init_IsYourEvent_def)
    moreover obtain b h' w' where "Init_enabling h e ps w = (b, h', w')" by (cases "Init_enabling h e ps w")
    moreover from this assms have "init_inv h' \<and> engine_ok w'"
      by (auto simp: Init_enabling_def Let_def ih_assignNewState_eq init_inv_def split: if_splits)
    ultimately show ?thesis by simp
  next
    case other
    obtain c w1 where "UnsubscribeCallEvents (ih_subscribed_subid h) O_OnSipXmpp w = Some (c, w1)" "engine_ok w1"
      using requests_ok(3) [OF assms(1), of "ih_subscribed_subid h" O_OnSipXmpp] by auto
    with other assms show ?thesis
      unfolding Init_IsYourEvent_def if_not_P [OF other(1)] if_not_P [OF other(2)] other(3)
      by (simp add: ih_assignNewState_eq init_inv_def)
  qed
qed

interpretation init_safe: handler_safe init_ops init_inv init_inv engine_ok init_safe
proof (unfold_locales, goal_cases)
  case (1 h w e)
  then show ?case using Init_IsYourEvent_ok [of w h e] by (simp add: init_ops_def)
next
  case (2 h w b h' w')
  then have "Init_IsStillExist h w = (b, h', w')" by (simp add: init_ops_def)
  with 2(2,3) engine_ok_workers(3) [of w h] show ?case
    by (auto simp: Init_IsStillExist_def delete_reauthorizer_opt_def init_inv_def split: if_splits)
next
  case (3 h w)
  then show ?case using Init_PollStateHandler_ok [of w h] by (simp add: init_ops_def)
next
  case (4 e w r w')
  then show ?case by (simp add: init_ops_def Init_UnknownEvent_def)
next
  case (5 w n s d reason)
  then show ?case by (simp add: init_ops_def InitStateChange_def engine_ok_def engine_up_def Let_def)
qed (auto simp: init_ops_def delete_init_handler_def)

end
