(* ===== verification/InitProtocol.thy ===== *)
theory InitProtocol
  imports InitMachine CallProtocol
begin

text \<open>
  What the init machine guarantees: the order of the login, the requests each step sends, the
  15-second limit of every waiting state, the renewal of the subscription, shutdown, the
  conservation of events, and the one event it faults on.
\<close>

section \<open>The order of the login\<close>

inductive init_step :: "init_state \<Rightarrow> init_state \<Rightarrow> bool" where
  connected: "init_step IS_PreLogin IS_Authorizing"
| refused: "init_step IS_PreLogin IS_LoginError"
| authorized: "init_step IS_Authorizing IS_EnablingCallEvents"
| unauthorized: "init_step IS_Authorizing IS_AuthorizedError"
| subscribed: "init_step IS_EnablingCallEvents IS_OK"
| unsubscribed: "init_step IS_EnablingCallEvents IS_EnabledCallError"
| lost: "init_step s IS_Disconnected"
| closing: "init_step s IS_ShuttingDown"
| closed: "init_step IS_ShuttingDown IS_ShutDown"

inductive_simps init_step_simps [simp]:
  "init_step s IS_NotSet" "init_step s IS_PreLogin" "init_step s IS_LoginError" "init_step s IS_Authorizing"
  "init_step s IS_Authorized" "init_step s IS_AuthorizedError" "init_step s IS_EnablingCallEvents"
  "init_step s IS_OK" "init_step s IS_EnabledCallError" "init_step s IS_Disconnected"
  "init_step s IS_ShuttingDown" "init_step s IS_ShutDown"

definition steps_to :: "init_handler \<Rightarrow> init_handler \<Rightarrow> bool" where
  "steps_to h h' \<longleftrightarrow> ih_state h' = ih_state h \<or> init_step (ih_state h) (ih_state h')"

lemma Init_IsYourEvent_steps:
  assumes "Init_IsYourEvent h e w = Some (b, h', w')"
  shows "steps_to h h'"
  using assms
  by (auto simp: Init_IsYourEvent_def Init_preLogin_def Init_authorizing_def Init_enabling_def Let_def
      bind_eq_Some_conv ih_assignNewState_eq steps_to_def split: if_splits option.splits prod.splits)

lemma delete_opt_state [simp]: "ih_item (fst (delete_reauthorizer_opt h w)) = ih_item h"
  by (simp add: delete_reauthorizer_opt_def)

lemma handleReAuthorize_state:
  assumes "handleReAuthorize h w = Some (b, h', w')"
  shows "if b then ih_item h' = ih_item h else ih_state h' = IS_Disconnected"
  using assms
  by (auto simp: handleReAuthorize_def Let_def bind_eq_Some_conv ih_assignNewState_eq
      delete_reauthorizer_opt_def split: option.splits if_splits)

lemma check_init_timeouts_state:
  "check_init_timeouts ss h w = (b, h', w') \<Longrightarrow> ih_state h' = ih_state h \<or> ih_state h' = IS_Disconnected"
  by (induction ss h w arbitrary: b h' w' rule: check_init_timeouts.induct)
    (auto simp: Init_CheckStateTimeout_def ih_assignNewState_eq split: prod.splits if_splits)

lemma Init_Poll_state:
  assumes "Init_PollStateHandler h w = Some (b, h', w')"
  shows "ih_state h' = ih_state h \<or> ih_state h' = IS_Disconnected"
  using assms
  by (auto simp: Init_PollStateHandler_def Let_def bind_eq_Some_conv
      simp del: check_init_timeouts.simps split: if_splits
      dest!: handleReAuthorize_state check_init_timeouts_state)

text \<open>The history of a handler under events, polls and existence checks, at any times.\<close>

inductive init_run :: "init_handler \<Rightarrow> init_state list \<Rightarrow> init_handler \<Rightarrow> bool" for h0 where
  start: "init_run h0 [ih_state h0] h0"
| event: "init_run h0 tr h \<Longrightarrow> Init_IsYourEvent h e w = Some (b, h', w') \<Longrightarrow> init_run h0 (tr @ [ih_state h']) h'"
| poll: "init_run h0 tr h \<Longrightarrow> Init_PollStateHandler h w = Some (b, h', w') \<Longrightarrow> init_run h0 (tr @ [ih_state h']) h'"
| check: "init_run h0 tr h \<Longrightarrow> Init_IsStillExist h w = (b, h', w') \<Longrightarrow> init_run h0 (tr @ [ih_state h']) h'"

fun init_path :: "init_state \<Rightarrow> init_state list" where
  "init_path IS_PreLogin = [IS_PreLogin]"
| "init_path IS_Authorizing = [IS_PreLogin, IS_Authorizing]"
| "init_path IS_EnablingCallEvents = [IS_PreLogin, IS_Authorizing, IS_EnablingCallEvents]"
| "init_path IS_OK = [IS_PreLogin, IS_Authorizing, IS_EnablingCallEvents, IS_OK]"
| "init_path IS_ShutDown = [IS_ShuttingDown, IS_ShutDown]"
| "init_path IS_ShuttingDown = [IS_ShuttingDown]"
| "init_path _ = []"

lemma subseq_new: "subseq [x] (ys @ [x])"
  using subseq_snoc [of "[]" ys x] by simp

lemma init_path_step:
  assumes "init_step s s'" and "subseq (init_path s) tr"
  shows "subseq (init_path s') (tr @ [s'])"
  using assms(1)
proof (cases rule: init_step.cases)
  case closing
  then show ?thesis by (simp add: subseq_new)
next
  case connected
  with subseq_snoc [OF assms(2), of s'] show ?thesis by simp
next
  case authorized
  with subseq_snoc [OF assms(2), of s'] show ?thesis by simp
next
  case subscribed
  with subseq_snoc [OF assms(2), of s'] show ?thesis by simp
next
  case closed
  with subseq_snoc [OF assms(2), of s'] show ?thesis by simp
qed simp_all

lemma init_path_steps:
  "steps_to h h' \<Longrightarrow> subseq (init_path (ih_state h)) tr \<Longrightarrow> subseq (init_path (ih_state h')) (tr @ [ih_state h'])"
  unfolding steps_to_def by (metis init_path_step subseq_right)

lemma init_run_history:
  assumes "init_run h0 tr h" and "ih_state h0 = IS_PreLogin"
  shows "subseq (init_path (ih_state h)) tr"
  using assms(1)
proof (induction rule: init_run.induct)
  case start
  with assms(2) show ?case by simp
next
  case (event tr h e w b h' w')
  from init_path_steps [OF Init_IsYourEvent_steps [OF event(2)] event.IH] show ?case .
next
  case (poll tr h w b h' w')
  from Init_Poll_state [OF poll(2)] have "steps_to h h'" by (auto simp: steps_to_def)
  from init_path_steps [OF this poll.IH] show ?case .
next
  case (check tr h w b h' w')
  then have "steps_to h h'"
    by (auto simp: Init_IsStillExist_def delete_reauthorizer_opt_def steps_to_def split: if_splits)
  from init_path_steps [OF this check.IH] show ?case .
qed

text \<open>
  C3. The engine reports itself ready only after the whole login: in every history of an init
  handler, under any events in any order and polls at any times, \<open>OK\<close> is preceded by
  \<open>PreLogin\<close>, \<open>Authorizing\<close> and \<open>EnablingCallEvents\<close> in this order, and a shut down handler has
  been shutting down before.
\<close>
theorem init_ok_in_order:
  assumes "init_run (new_InitStateHandler w) tr h"
  shows "(ih_state h = IS_OK \<longrightarrow>
       subseq [IS_PreLogin, IS_Authorizing, IS_EnablingCallEvents, IS_OK] tr) \<and>
     (ih_state h = IS_ShutDown \<longrightarrow> subseq [IS_ShuttingDown, IS_ShutDown] tr)"
proof -
  have "ih_state (new_InitStateHandler w) = IS_PreLogin"
    by (simp add: new_InitStateHandler_def new_state_item_def)
  from init_run_history [OF assms this] show ?thesis by (cases "ih_state h") auto
qed

definition sample_auth :: xmpp_event where
  "sample_auth = simple_event EVT_PUBSUB_AUTH (AuthBody ''2010-03-31T23:59Z'')"

definition sample_subscribed :: xmpp_event where
  "sample_subscribed = simple_event EVT_PUBSUB_SUBSCRIBE (SubscribedBody \<lparr>ps_subscription = ''subscribed'',
     ps_node = ''/onsip.com/alice'', ps_jid = ''alice'', ps_subscribed = True, ps_subid = ''sub7''\<rparr>)"

definition init_after :: "xmpp_event \<Rightarrow> init_handler \<Rightarrow> init_handler" where
  "init_after e h = fst (snd (the (Init_IsYourEvent h e sample_world)))"

definition init_h0 :: init_handler where "init_h0 = new_InitStateHandler sample_world"
definition init_h1 :: init_handler where "init_h1 = init_after OnConnectEvent init_h0"
definition init_h2 :: init_handler where "init_h2 = init_after sample_auth init_h1"
definition init_h3 :: init_handler where "init_h3 = init_after sample_subscribed init_h2"

lemma init_states:
  "ih_state init_h0 = IS_PreLogin" "ih_state init_h1 = IS_Authorizing"
  "ih_state init_h2 = IS_EnablingCallEvents" "ih_state init_h3 = IS_OK"
  by code_simp+

lemma sample_engine_ok: "engine_ok sample_world"
  by (simp add: engine_ok_def engine_up_def sample_world_def)

lemma init_run_after:
  assumes "init_run h0 tr h" and "init_inv h" and "\<not> getXmppIqResultEvent e"
  shows "init_run h0 (tr @ [ih_state (init_after e h)]) (init_after e h) \<and> init_inv (init_after e h)"
proof -
  obtain b h' w' where i: "Init_IsYourEvent h e sample_world = Some (b, h', w')" "init_inv h'"
    using Init_IsYourEvent_ok [OF sample_engine_ok assms(2), of e] assms(3) by (auto simp: init_safe_def)
  with init_run.event [OF assms(1) i(1)] show ?thesis by (simp add: init_after_def)
qed

lemma init_sample_run: "\<exists>tr. init_run init_h0 tr init_h3"
proof -
  have n: "\<not> getXmppIqResultEvent OnConnectEvent" "\<not> getXmppIqResultEvent sample_auth"
    "\<not> getXmppIqResultEvent sample_subscribed" by code_simp+
  have "init_inv init_h0" by (simp add: init_h0_def new_InitStateHandler_def init_inv_def)
  from init_run_after [OF init_run.start this n(1)]
  have "\<exists>tr. init_run init_h0 tr init_h1 \<and> init_inv init_h1" unfolding init_h1_def by blast
  then have "\<exists>tr. init_run init_h0 tr init_h2 \<and> init_inv init_h2"
    unfolding init_h2_def using init_run_after n(2) by blast
  then show ?thesis unfolding init_h3_def using init_run_after n(3) by blast
qed

theorem init_ok_in_order_witness:
  "\<exists>tr. init_run init_h0 tr init_h3 \<and>
     subseq [IS_PreLogin, IS_Authorizing, IS_EnablingCallEvents, IS_OK] tr"
  using init_sample_run init_ok_in_order [of sample_world _ init_h3] init_states(4)
  unfolding init_h0_def by blast

section \<open>What the login sends\<close>

definition authorize_form :: "login \<Rightarrow> data_form" where
  "authorize_form l = addField (new_field ''password'' (li_password l) TypeTextPrivate)
     (submit_form [(''sip-address'', SIPAddress l)])"

lemma Authorize_sends:
  assumes "w_gloox w = Some g"
  shows "\<exists>rid g'. Authorize ctx ih w = Some (w\<lparr>w_gloox := Some g'\<rparr>) \<and>
     gl_sent g' = gl_sent g @ [CommandIq ONSIP_AUTH_COMMAND rid ''authorize-plain'' (authorize_form (w_login w))] \<and>
     gl_tracked g' rid = Some (ih, ctx)"
proof -
  let ?c = "send_command ONSIP_AUTH_COMMAND ''authorize-plain'' (authorize_form (w_login w)) ih ctx g"
  have "Authorize ctx ih w = Some (w\<lparr>w_gloox := Some (snd ?c)\<rparr>)"
    using assms by (simp add: Authorize_def authorize_form_def Let_def)
  then show ?thesis
    by (intro exI [of _ "fst ?c"] exI [of _ "snd ?c"])
      (simp add: send_command_def gloox_getID_def gloox_send_def gloox_trackID_def)
qed

lemma authorize_form_values:
  "form_value (authorize_form l) ''sip-address'' = Some (SIPAddress l)"
  "form_value (authorize_form l) ''password'' = Some (li_password l)"
  by (simp_all add: authorize_form_def submit_form_def addField_def new_field_def form_value_def
      df_field_def field_value_def)

lemma Subscribe_sends:
  assumes "w_gloox w = Some g" and "w_pubSub w"
  shows "\<exists>rid g'. SubscribeCallEvents expire w = Some (rid, w\<lparr>w_gloox := Some g'\<rparr>) \<and>
     gl_sent g' = gl_sent g @ [SubscribeIq PUBSUB_SERVICE rid (subscription_node w) (j_full (gl_jid g)) expire] \<and>
     gl_messageHandlers g' = gl_messageHandlers g"
  using assms
  by (auto simp: SubscribeCallEvents_def pubsub_subscribe_def subscription_node_def Let_def gloox_getID_def
      gloox_send_def gloox_trackID_def)

lemma getSubscriptions_sends:
  assumes "w_gloox w = Some g" and "w_pubSub w"
  shows "\<exists>rid g'. getSubscriptions w = Some (w\<lparr>w_gloox := Some g'\<rparr>) \<and>
     gl_sent g' = gl_sent g @ [GetSubscriptionsIq PUBSUB_SERVICE rid]"
proof -
  let ?c = "pubsub_getSubscriptions PUBSUB_SERVICE g"
  have "getSubscriptions w = Some (w\<lparr>w_gloox := Some (snd ?c)\<rparr>)"
    using assms by (simp add: getSubscriptions_def)
  then show ?thesis
    by (intro exI [of _ "fst ?c"] exI [of _ "snd ?c"])
      (simp add: pubsub_getSubscriptions_def gloox_getID_def gloox_send_def gloox_trackID_def)
qed

lemma delete_opt_gloox [simp]:
  "w_gloox (delete_event_opt ev w) = w_gloox w" "w_pubSub (delete_event_opt ev w) = w_pubSub w"
  "w_gloox (delete_event e w) = w_gloox w" "w_pubSub (delete_event e w) = w_pubSub w"
  "w_login (delete_event_opt ev w) = w_login w"
  by (auto simp: delete_event_opt_def delete_event_def split: option.split)

text \<open>What the world looks like after a step that sent some requests and deleted its event.\<close>

definition sent_since :: "gloox \<Rightarrow> world \<Rightarrow> request list \<Rightarrow> bool" where
  "sent_since g w' rs \<longleftrightarrow> (\<exists>g'. w_gloox w' = Some g' \<and> gl_sent g' = gl_sent g @ rs)"

lemma preLogin_sends:
  assumes "w_gloox w = Some g" and "w_pubSub w" and "ih_state h = IS_PreLogin"
  shows "\<exists>rid rid' form h' w'. Init_IsYourEvent h OnConnectEvent w = Some (True, h', w') \<and>
     ih_state h' = IS_Authorizing \<and> ih_contextId h' = w_ids w + 1 \<and>
     sent_since g w' [GetSubscriptionsIq PUBSUB_SERVICE rid, CommandIq ONSIP_AUTH_COMMAND rid' ''authorize-plain'' form] \<and>
     form_value form ''sip-address'' = Some (SIPAddress (w_login w)) \<and>
     form_value form ''password'' = Some (li_password (w_login w)) \<and>
     gl_tracked (the (w_gloox w')) rid' = Some (O_OnSipXmpp, ih_contextId h')"
proof -
  let ?w1 = "w\<lparr>w_ids := w_ids w + 1\<rparr>"
  obtain rid g1 where s: "getSubscriptions ?w1 = Some (?w1\<lparr>w_gloox := Some g1\<rparr>)"
    "gl_sent g1 = gl_sent g @ [GetSubscriptionsIq PUBSUB_SERVICE rid]"
    using getSubscriptions_sends [of ?w1 g] assms by auto
  obtain rid' g2 where a: "Authorize (w_ids w + 1) O_OnSipXmpp (?w1\<lparr>w_gloox := Some g1\<rparr>) =
      Some (?w1\<lparr>w_gloox := Some g2\<rparr>)"
    "gl_sent g2 = gl_sent g1 @
      [CommandIq ONSIP_AUTH_COMMAND rid' ''authorize-plain'' (authorize_form (w_login w))]"
    "gl_tracked g2 rid' = Some (O_OnSipXmpp, w_ids w + 1)"
    using Authorize_sends [of "?w1\<lparr>w_gloox := Some g1\<rparr>" g1 "w_ids w + 1" O_OnSipXmpp] by auto
  have e: "getOnConnectEvent OnConnectEvent" "\<not> IsError OnConnectEvent" by code_simp+
  show ?thesis
    using assms(3) s a e
    by (auto simp: Init_IsYourEvent_def Init_preLogin_def getUniqueId_eq ih_assignNewState_eq sent_since_def
        authorize_form_values)
qed

lemma authorizing_sends:
  assumes "w_gloox w = Some g" and "w_pubSub w" and "ih_state h = IS_Authorizing"
    and "getAuthEvent e = Some expire" and "\<not> IsError e"
  shows "\<exists>rid h' w'. Init_IsYourEvent h e w = Some (True, h', w') \<and> ih_state h' = IS_EnablingCallEvents \<and>
     sent_since g w' [SubscribeIq PUBSUB_SERVICE rid (subscription_node w) (j_full (gl_jid g)) expire]"
proof -
  let ?w1 = "delete_event_opt (ih_event h) w"
  obtain rid g1 where s: "SubscribeCallEvents expire ?w1 = Some (rid, ?w1\<lparr>w_gloox := Some g1\<rparr>)"
    "gl_sent g1 = gl_sent g @ [SubscribeIq PUBSUB_SERVICE rid (subscription_node w) (j_full (gl_jid g)) expire]"
    using Subscribe_sends [of ?w1 g expire] assms(1,2) by (auto simp: subscription_node_def)
  with assms(3-5) show ?thesis
    by (auto simp: Init_IsYourEvent_def Init_authorizing_def ih_assignNewState_eq sent_since_def)
qed

text \<open>
  Each step of the login sends exactly what the next one answers: a connect in \<open>PreLogin\<close> asks
  for the subscriptions and sends one authorization with the login's SIP address and password,
  tracked under a fresh context id that the handler keeps; an authorization subscribes to the
  user's call events until the date the server gave; a confirmed subscription makes the
  handler \<open>OK\<close>, keeps the subscription id for the unsubscription, restarts the 50-minute
  renewal timeout and sends nothing. In each case the event is accepted.
\<close>
theorem login_step_requests:
  assumes "w_gloox w = Some g" and "w_pubSub w"
  shows "(ih_state h = IS_PreLogin \<longrightarrow>
      (\<exists>rid rid' form h' w'. Init_IsYourEvent h OnConnectEvent w = Some (True, h', w') \<and>
         ih_state h' = IS_Authorizing \<and> ih_contextId h' = w_ids w + 1 \<and>
         sent_since g w' [GetSubscriptionsIq PUBSUB_SERVICE rid,
           CommandIq ONSIP_AUTH_COMMAND rid' ''authorize-plain'' form] \<and>
         form_value form ''sip-address'' = Some (SIPAddress (w_login w)) \<and>
         form_value form ''password'' = Some (li_password (w_login w)) \<and>
         gl_tracked (the (w_gloox w')) rid' = Some (O_OnSipXmpp, ih_contextId h'))) \<and>
     (\<forall>e expire. ih_state h = IS_Authorizing \<and> getAuthEvent e = Some expire \<and> \<not> IsError e \<longrightarrow>
      (\<exists>rid h' w'. Init_IsYourEvent h e w = Some (True, h', w') \<and> ih_state h' = IS_EnablingCallEvents \<and>
         sent_since g w' [SubscribeIq PUBSUB_SERVICE rid (subscription_node w) (j_full (gl_jid g)) expire])) \<and>
     (\<forall>e ps. ih_state h = IS_EnablingCallEvents \<and> getPubSubSubscribedEvent e = Some ps \<and> \<not> IsError e \<longrightarrow>
      (\<exists>h' w'. Init_IsYourEvent h e w = Some (True, h', w') \<and> ih_state h' = IS_OK \<and>
         ih_subscribed_subid h' = ps_subid ps \<and>
         ih_authTO h' = TimeOut SUBSCRIBE_TIMEOUT (w_clock w) \<and> w_gloox w' = w_gloox w))"
proof (intro conjI allI impI)
  fix e ps
  assume "ih_state h = IS_EnablingCallEvents \<and> getPubSubSubscribedEvent e = Some ps \<and> \<not> IsError e"
  moreover have "w_clock (delete_event_opt ev w) = w_clock w" for ev
    by (auto simp: delete_event_opt_def delete_event_def split: option.split)
  ultimately show "\<exists>h' w'. Init_IsYourEvent h e w = Some (True, h', w') \<and> ih_state h' = IS_OK \<and>
      ih_subscribed_subid h' = ps_subid ps \<and>
      ih_authTO h' = TimeOut SUBSCRIBE_TIMEOUT (w_clock w) \<and> w_gloox w' = w_gloox w"
    by (simp add: Init_IsYourEvent_def Init_enabling_def Let_def ih_assignNewState_eq SetMsecs_def TimeOut_def
        TimeElapsed_Reset_def)
qed (use preLogin_sends [OF assms] authorizing_sends [OF assms] in blast)+

theorem login_step_requests_example:
  "\<exists>rid h' w'. Init_IsYourEvent init_h1 sample_auth sample_world = Some (True, h', w') \<and>
     sent_since (new_gloox empty_JID ''secret'') w'
       [SubscribeIq PUBSUB_SERVICE rid ''/onsip.com/alice'' (j_full (gl_jid (new_gloox empty_JID ''secret'')))
          ''2010-03-31T23:59Z'']"
proof -
  have w: "w_gloox sample_world = Some (new_gloox empty_JID ''secret'')" "w_pubSub sample_world"
    by (simp_all add: sample_world_def)
  have "getAuthEvent sample_auth = Some ''2010-03-31T23:59Z''" "\<not> IsError sample_auth"
    "subscription_node sample_world = ''/onsip.com/alice''" by code_simp+
  with login_step_requests [OF w, of init_h1] init_states(2) show ?thesis by fastforce
qed

section \<open>Faults and events\<close>

text \<open>
  C34. Finding: with the engine up, the init handler dereferences a null pointer on exactly one kind of
  event: a plain IQ result without error that carries the context of the authorization request
  and arrives while the handler is authorizing (it reads the expiry date of an authorization event
  that is not there). Every other event in every state is handled or refused.
\<close>
theorem init_fault_iff:
  assumes "engine_ok w" and "init_inv h"
  shows "Init_IsYourEvent h e w = None \<longleftrightarrow>
     ih_state h = IS_Authorizing \<and> getXmppIqResultEvent e \<and> xe_context e = ih_contextId h \<and> \<not> IsError e"
proof (cases "init_safe h e")
  case True
  with Init_IsYourEvent_ok [OF assms True] show ?thesis by (auto simp: init_safe_def)
next
  case False
  then have "Init_IsYourEvent h e w = None"
    by (simp add: init_safe_def Init_IsYourEvent_def Init_authorizing_def ih_assignNewState_eq
        event_getters_exclusive)
  with False show ?thesis by (auto simp: init_safe_def)
qed

theorem init_fault_iff_witness:
  "Init_IsYourEvent init_h1 ((simple_event EVT_IQ_RESULT IqResultBody)\<lparr>xe_context := 1\<rparr>) sample_world = None"
proof -
  have "init_inv init_h1" "ih_contextId init_h1 = 1"
    "getXmppIqResultEvent ((simple_event EVT_IQ_RESULT IqResultBody)\<lparr>xe_context := 1\<rparr>)"
    "\<not> IsError ((simple_event EVT_IQ_RESULT IqResultBody)\<lparr>xe_context := 1\<rparr>)" by code_simp+
  with init_fault_iff [OF sample_engine_ok this(1)] init_states(2) show ?thesis by (simp add: simple_event_def)
qed

definition known_init_events :: "init_machine \<Rightarrow> world \<Rightarrow> xmpp_event multiset" where
  "known_init_events m w =
     (\<Sum>h\<leftarrow>sm_handlers m. init_own h) + gone w +
     (\<Sum>h\<leftarrow>bm_handlerRequests m. init_own h) + mset (bm_events m)"

lemma known_init_events_account: "known_init_events m w = init_owner.account m w"
  by (simp add: known_init_events_def init_owner.account_def init_owner.holds_def)

text \<open>
  C8. The init machine leaks no event and deletes none twice, and with the engine up it polls
  without a fault: from handlers with the invariant (a running re-authorizer owns the worker its
  state names), whatever handlers are queued and with only shutdown requests queued, a poll
  returns, keeps the invariant, leaves the engine up, and keeps the multiset of the events held,
  deleted or queued.
\<close>
theorem init_machine_safe:
  assumes "\<forall>h \<in> set (sm_handlers m). init_inv h" and "engine_ok w"
    and "\<forall>h \<in> set (bm_handlerRequests m). init_inv h" and "\<forall>e \<in> set (bm_events m). e = ShutdownRequestEvent"
  shows "\<exists>m' w'. BasePollStateHandlers init_ops m w = Some (m', w') \<and>
     (\<forall>h \<in> set (sm_handlers m'). init_inv h) \<and> engine_ok w' \<and>
     known_init_events m' w' = known_init_events m w"
proof -
  have "\<not> getXmppIqResultEvent ShutdownRequestEvent" by code_simp
  then have "\<forall>e \<in> set (bm_events m). \<forall>h. init_inv h \<longrightarrow> init_safe h e"
    using assms(4) by (auto simp: init_safe_def)
  from init_safe.BasePoll_ok [OF _ assms(2,3) this] assms(1) obtain m' w' where
    p: "BasePollStateHandlers init_ops m w = Some (m', w')" "init_safe.machine_ok m'" "engine_ok w'"
    by (auto simp: init_safe.machine_ok_def)
  from init_owner.BasePoll_account [OF p(1)] p show ?thesis
    by (auto simp: init_safe.machine_ok_def known_init_events_account)
qed

definition init_sample :: init_machine where
  "init_sample = new_base_machine\<lparr>sm_handlers := [init_h3]\<rparr>"

lemma init_h3_inv: "init_inv init_h3"
  by code_simp

lemma init_sample_handlers:
  "sm_handlers init_sample = [init_h3]" "bm_handlerRequests init_sample = []" "bm_events init_sample = []"
  by (simp_all add: init_sample_def new_base_machine_def)

theorem init_machine_safe_witness:
  "\<exists>m' w'. BasePollStateHandlers init_ops (AddEvent ShutdownRequestEvent init_sample) sample_world = Some (m', w')"
proof -
  have "sm_handlers (AddEvent ShutdownRequestEvent init_sample) = [init_h3]"
    "bm_handlerRequests (AddEvent ShutdownRequestEvent init_sample) = []"
    "bm_events (AddEvent ShutdownRequestEvent init_sample) = [ShutdownRequestEvent]"
    by (simp_all add: AddEvent_def init_sample_handlers)
  with init_machine_safe [of "AddEvent ShutdownRequestEvent init_sample" sample_world] sample_engine_ok
    init_h3_inv
  show ?thesis by fastforce
qed

section \<open>Silence of the server\<close>

definition waiting :: "init_state \<Rightarrow> bool" where
  "waiting s \<longleftrightarrow> s \<in> {IS_PreLogin, IS_Authorizing, IS_EnablingCallEvents, IS_ShuttingDown}"

lemma waiting_cases: "waiting s \<Longrightarrow> s \<noteq> IS_OK"
  by (auto simp: waiting_def)

lemma check_init_timeouts_eq:
  "check_init_timeouts ss h w =
     (if ih_state h \<in> set ss \<and>
         sint GENERAL_COMMUNICATION_TIMEOUT < sint (MsecsSinceLastStateChange (ih_item h) (w_tick w))
      then (True, ih_assignNewState IS_Disconnected h w) else (False, h, w))"
  by (induction ss h w rule: check_init_timeouts.induct)
    (auto simp: Init_CheckStateTimeout_def split: prod.splits)

lemma sint_GENERAL: "sint GENERAL_COMMUNICATION_TIMEOUT = 15000"
  by (simp add: init_timeout_defs sint_word_of_small_int)

text \<open>
  No waiting state outlives a silent server, on every branch: polled while logging in,
  authorizing, enabling the call events or shutting down, the handler changes exactly when its
  state is older than 15 seconds by the wrapping tick count, and then to \<open>Disconnected\<close> with the
  change reported and its event deleted; before that, nothing changes and nothing is sent.
\<close>
theorem waiting_times_out:
  assumes "waiting (ih_state h)"
    and "w_tick w = si_last (ih_item h) + word_of_nat n" and "n < 2 ^ 31"
  shows "Init_PollStateHandler h w =
     (if 15000 < n
      then Some (True, h\<lparr>ih_item := (ih_item h)\<lparr>si_state := IS_Disconnected, si_event := None, si_last := w_tick w\<rparr>\<rparr>,
                 delete_event_opt (ih_event h) w)
      else Some (False, h, w))"
  using assms waiting_cases [OF assms(1)]
  by (auto simp: Init_PollStateHandler_def check_init_timeouts_eq sint_GENERAL ih_assignNewState_eq
      MsecsSinceLastStateChange_def sint_of_small_nat waiting_def simp del: check_init_timeouts.simps)

lemma waiting_times_out_example:
  "(\<exists>h' w'. Init_PollStateHandler init_h1 (sample_world\<lparr>w_tick := 4294967000 + word_of_nat 15001\<rparr>) = Some (True, h', w') \<and>
      ih_state h' = IS_Disconnected) \<and>
   Init_PollStateHandler init_h1 (sample_world\<lparr>w_tick := 4294967000 + word_of_nat 15000\<rparr>) =
     Some (False, init_h1, sample_world\<lparr>w_tick := 4294967000 + word_of_nat 15000\<rparr>)"
proof -
  have "si_last (ih_item init_h1) = 4294967000" by code_simp
  with waiting_times_out [of init_h1 "sample_world\<lparr>w_tick := 4294967000 + word_of_nat 15001\<rparr>" 15001]
    waiting_times_out [of init_h1 "sample_world\<lparr>w_tick := 4294967000 + word_of_nat 15000\<rparr>" 15000] init_states(2)
  show ?thesis by (simp add: waiting_def)
qed

section \<open>Renewal of the subscription\<close>

definition late :: "reauthorizer \<Rightarrow> world \<Rightarrow> bool" where
  "late r w \<longleftrightarrow> 45000 < sint (ReAuthorize_Msecs r w)"

text \<open>The worker the re-authorizer waits for is done, with or without an error, or not.\<close>

definition authorizing :: "reauthorizer \<Rightarrow> auth_worker \<Rightarrow> bool" where
  "authorizing r a \<longleftrightarrow> \<not> ra_bComplete r \<and> \<not> ra_bError r \<and>
     ra_state r = RA_Authorizing \<and> ra_authorizer r = Some a \<and> ra_subscriber r = None"

definition subscribing :: "reauthorizer \<Rightarrow> enable_worker \<Rightarrow> bool" where
  "subscribing r n \<longleftrightarrow> \<not> ra_bComplete r \<and> \<not> ra_bError r \<and>
     ra_state r = RA_Subscribing \<and> ra_subscriber r = Some n \<and> ew_bRegister n"

definition listening :: "world \<Rightarrow> bool" where
  "listening w \<longleftrightarrow> (\<exists>g. w_gloox w = Some g \<and> O_Worker \<in> set (gl_messageHandlers g))"

lemma renewal_start:
  assumes "w_gloox w = Some g" and "ih_reauthorizer h = None"
  shows "\<exists>rid a r h' w'. handleReAuthorize h w = Some (True, h', w') \<and> ih_item h' = ih_item h \<and>
     ih_reauthorizer h' = Some r \<and> authorizing r a \<and> \<not> aw_bComplete a \<and>
     sent_since g w' [CommandIq ONSIP_AUTH_COMMAND rid ''authorize-plain'' (authorize_form (w_login w))] \<and>
     gl_tracked (the (w_gloox w')) rid = Some (O_Worker, w_ids w + 1)"
proof -
  let ?w1 = "w\<lparr>w_ids := w_ids w + 1\<rparr>"
  obtain rid g' where "Authorize (w_ids w + 1) O_Worker ?w1 = Some (?w1\<lparr>w_gloox := Some g'\<rparr>)"
    "gl_sent g' = gl_sent g @ [CommandIq ONSIP_AUTH_COMMAND rid ''authorize-plain'' (authorize_form (w_login w))]"
    "gl_tracked g' rid = Some (O_Worker, w_ids w + 1)"
    using Authorize_sends [of ?w1 g "w_ids w + 1" O_Worker] assms(1) by auto
  with assms(2) show ?thesis
    by (auto simp: handleReAuthorize_def ReAuthorize_Execute_def AuthorizeWorker_Execute_def getUniqueId_eq
        sent_since_def authorizing_def new_ReAuthorizeSubscribeWorker_def new_AuthorizeWorker_def)
qed

lemma renewal_subscribe:
  assumes "w_gloox w = Some g" and "w_pubSub w" and "ih_reauthorizer h = Some r" and "authorizing r a"
    and "aw_bComplete a" and "\<not> aw_bError a" and "\<not> late r w"
  shows "\<exists>rid n r' h' w'. handleReAuthorize h w = Some (True, h', w') \<and> ih_item h' = ih_item h \<and>
     ih_reauthorizer h' = Some r' \<and> subscribing r' n \<and> \<not> ew_bComplete n \<and> listening w' \<and>
     sent_since g w' [SubscribeIq PUBSUB_SERVICE rid (subscription_node w) (j_full (gl_jid g)) (aw_expireDate a)]"
proof -
  let ?g1 = "registerMessageHandler O_Worker g"
  let ?w1 = "w\<lparr>w_gloox := Some ?g1\<rparr>"
  obtain rid g' where s: "SubscribeCallEvents (aw_expireDate a) ?w1 = Some (rid, ?w1\<lparr>w_gloox := Some g'\<rparr>)"
    "gl_sent g' = gl_sent g @ [SubscribeIq PUBSUB_SERVICE rid (subscription_node w) (j_full (gl_jid g)) (aw_expireDate a)]"
    "gl_messageHandlers g' = gl_messageHandlers g @ [O_Worker]"
    using Subscribe_sends [of ?w1 ?g1 "aw_expireDate a"] assms(2)
    by (auto simp: registerMessageHandler_def subscription_node_def)
  have late: "\<not> sint GENERAL_COMMUNICATION_TIMEOUT * 3 <
      sint (ReAuthorize_Msecs (r\<lparr>ra_authorizer := None, ra_subscriber := x, ra_state := y\<rparr>) (w\<lparr>w_gloox := Some g'\<rparr>))" for x y
    using assms(7) by (simp add: late_def sint_GENERAL ReAuthorize_Msecs_def)
  have "ReAuthorize_IsComplete r w = Some (False, r\<lparr>ra_authorizer := None,
      ra_subscriber := Some ((new_EnableCallEventsWorker w)\<lparr>ew_bRegister := True\<rparr>), ra_state := RA_Subscribing\<rparr>,
      w\<lparr>w_gloox := Some g'\<rparr>)"
    using assms(1,4-6) s(1)
    by (simp add: ReAuthorize_IsComplete_def authorizing_def EnableCallEventsWorker_Execute_def Let_def)
  with assms(3,4) s late show ?thesis
    by (auto simp: handleReAuthorize_def sent_since_def subscribing_def listening_def authorizing_def
        new_EnableCallEventsWorker_def)
qed

lemma renewal_done:
  assumes "w_gloox w = Some g" and "ih_reauthorizer h = Some r" and "subscribing r n" and "ew_bComplete n"
  shows "\<exists>w'. handleReAuthorize h w = Some (True, h\<lparr>ih_reauthorizer := None,
       ih_subscribed_subid := (if ew_bError n then ih_subscribed_subid h else ew_subid n),
       ih_authTO := TimeOut (if ew_bError n then SUBSCRIBE_QUICK_RETRY else SUBSCRIBE_TIMEOUT) (w_clock w)\<rparr>, w') \<and>
     \<not> listening w' \<and> sent_since g w' []"
  using assms
  by (auto simp: handleReAuthorize_def ReAuthorize_IsComplete_def subscribing_def Let_def
      delete_EnableCallEventsWorker_def removeMessageHandler_def delete_reauthorizer_opt_def
      delete_reauthorizer_def listening_def sent_since_def SetMsecs_def TimeOut_def TimeElapsed_Reset_def)

lemma renewal_refused:
  assumes "ih_reauthorizer h = Some r" and "authorizing r a" and "aw_bComplete a" and "aw_bError a"
  shows "handleReAuthorize h w = Some (True, h\<lparr>ih_reauthorizer := None,
     ih_authTO := TimeOut SUBSCRIBE_QUICK_RETRY (w_clock w)\<rparr>, w)"
  using assms
  by (auto simp: handleReAuthorize_def ReAuthorize_IsComplete_def authorizing_def Let_def
      delete_reauthorizer_opt_def delete_reauthorizer_def SetMsecs_def TimeOut_def TimeElapsed_Reset_def)

lemma renewal_late:
  assumes "w_gloox w = Some g" and "ih_reauthorizer h = Some r" and "late r w"
    and "authorizing r a \<and> \<not> aw_bComplete a \<or> subscribing r n \<and> \<not> ew_bComplete n"
  shows "\<exists>h' w'. handleReAuthorize h w = Some (False, h', w') \<and> ih_state h' = IS_Disconnected \<and>
     ih_reauthorizer h' = None \<and> (subscribing r n \<longrightarrow> \<not> listening w') \<and> sent_since g w' []"
proof -
  have i: "ReAuthorize_IsComplete r w = Some (False, r, w)"
    using assms(4) by (auto simp: ReAuthorize_IsComplete_def authorizing_def subscribing_def)
  have "sint GENERAL_COMMUNICATION_TIMEOUT * 3 < sint (ReAuthorize_Msecs r w)"
    using assms(3) by (simp add: late_def sint_GENERAL)
  with i assms(1,2,4) show ?thesis
    by (auto simp: handleReAuthorize_def ih_assignNewState_eq delete_reauthorizer_opt_def delete_reauthorizer_def
        authorizing_def subscribing_def delete_EnableCallEventsWorker_def removeMessageHandler_def
        sent_since_def listening_def split: option.split)
qed



section \<open>Shutdown\<close>

lemma Unsubscribe_sends:
  assumes "w_gloox w = Some g" and "w_pubSub w"
  shows "\<exists>rid g'. UnsubscribeCallEvents subid ih w =
       Some (w_ids w + 1, w\<lparr>w_ids := w_ids w + 1, w_gloox := Some g'\<rparr>) \<and>
     gl_sent g' = gl_sent g @ [UnsubscribeIq PUBSUB_SERVICE rid (subscription_node w) (j_full (gl_jid g)) subid] \<and>
     gl_tracked g' rid = Some (ih, w_ids w + 1)"
proof -
  let ?c = "pubsub_unsubscribe PUBSUB_SERVICE (subscription_node w) subid (j_full (gl_jid g)) g"
  let ?g = "gloox_trackID ih (fst ?c) (w_ids w + 1) (snd ?c)"
  have "UnsubscribeCallEvents subid ih w = Some (w_ids w + 1, w\<lparr>w_ids := w_ids w + 1, w_gloox := Some ?g\<rparr>)"
    using assms by (simp add: UnsubscribeCallEvents_def getUniqueId_eq split_beta)
  then show ?thesis
    by (intro exI [of _ "fst ?c"] exI [of _ ?g])
      (simp add: pubsub_unsubscribe_def gloox_getID_def gloox_send_def gloox_trackID_def)
qed

lemma shutdown_casts:
  "getShutdownRequestEvent ShutdownRequestEvent" "\<not> getOnConnectEvent ShutdownRequestEvent"
  "\<not> getOnDisconnectEvent ShutdownRequestEvent" "\<not> getXmppIqResultEvent ShutdownRequestEvent"
  "getAuthEvent ShutdownRequestEvent = None" "getPubSubSubscribedEvent ShutdownRequestEvent = None"
  by code_simp+

text \<open>
  Shutdown, on every branch: from any state the shutdown request unsubscribes the subscription
  the handler holds, under a fresh context id tracked to the engine, and goes to
  \<open>ShuttingDown\<close>; there an IQ result ends in \<open>ShutDown\<close> exactly when it carries that context, with or
  without an error; and a handler reports itself gone exactly when it is shut down.
\<close>
theorem shutdown_protocol:
  assumes "w_gloox w = Some g" and "w_pubSub w"
  shows "(\<exists>rid h' w'. Init_IsYourEvent h ShutdownRequestEvent w = Some (True, h', w') \<and>
      ih_state h' = IS_ShuttingDown \<and> ih_unsubscribe_contextId h' = w_ids w + 1 \<and>
      sent_since g w' [UnsubscribeIq PUBSUB_SERVICE rid (subscription_node w) (j_full (gl_jid g)) (ih_subscribed_subid h)] \<and>
      gl_tracked (the (w_gloox w')) rid = Some (O_OnSipXmpp, w_ids w + 1)) \<and>
     (\<forall>e. ih_state h = IS_ShuttingDown \<and> getXmppIqResultEvent e \<longrightarrow>
      (\<exists>b h' w'. Init_IsYourEvent h e w = Some (b, h', w') \<and> b = (xe_context e = ih_unsubscribe_contextId h) \<and>
         ih_state h' = (if b then IS_ShutDown else IS_ShuttingDown))) \<and>
     fst (Init_IsStillExist h w) = (ih_state h \<noteq> IS_ShutDown)"
proof (intro conjI allI impI)
  obtain rid g' where u: "UnsubscribeCallEvents (ih_subscribed_subid h) O_OnSipXmpp w =
       Some (w_ids w + 1, w\<lparr>w_ids := w_ids w + 1, w_gloox := Some g'\<rparr>)"
    "gl_sent g' = gl_sent g @ [UnsubscribeIq PUBSUB_SERVICE rid (subscription_node w) (j_full (gl_jid g)) (ih_subscribed_subid h)]"
    "gl_tracked g' rid = Some (O_OnSipXmpp, w_ids w + 1)"
    using Unsubscribe_sends [OF assms, of "ih_subscribed_subid h" O_OnSipXmpp] by blast
  then show "\<exists>rid h' w'. Init_IsYourEvent h ShutdownRequestEvent w = Some (True, h', w') \<and>
      ih_state h' = IS_ShuttingDown \<and> ih_unsubscribe_contextId h' = w_ids w + 1 \<and>
      sent_since g w' [UnsubscribeIq PUBSUB_SERVICE rid (subscription_node w) (j_full (gl_jid g)) (ih_subscribed_subid h)] \<and>
      gl_tracked (the (w_gloox w')) rid = Some (O_OnSipXmpp, w_ids w + 1)"
    by (auto simp: Init_IsYourEvent_def shutdown_casts ih_assignNewState_eq sent_since_def)
next
  fix e
  assume "ih_state h = IS_ShuttingDown \<and> getXmppIqResultEvent e"
  moreover from this have "\<not> getOnDisconnectEvent e" "\<not> getShutdownRequestEvent e"
    by (auto simp: getXmppIqResultEvent_def getOnDisconnectEvent_def getShutdownRequestEvent_def)
  ultimately show "\<exists>b h' w'. Init_IsYourEvent h e w = Some (b, h', w') \<and>
      b = (xe_context e = ih_unsubscribe_contextId h) \<and> ih_state h' = (if b then IS_ShutDown else IS_ShuttingDown)"
    by (auto simp: Init_IsYourEvent_def ih_assignNewState_eq)
qed (simp add: Init_IsStillExist_def split: prod.split)

lemma shutdown_protocol_example:
  "\<exists>rid h' w'. Init_IsYourEvent init_h3 ShutdownRequestEvent sample_world = Some (True, h', w') \<and>
     ih_state h' = IS_ShuttingDown \<and>
     sent_since (new_gloox empty_JID ''secret'') w'
       [UnsubscribeIq PUBSUB_SERVICE rid ''/onsip.com/alice'' (j_full (gl_jid (new_gloox empty_JID ''secret''))) ''sub7'']"
proof -
  have w: "w_gloox sample_world = Some (new_gloox empty_JID ''secret'')" "w_pubSub sample_world"
    by (simp_all add: sample_world_def)
  have "ih_subscribed_subid init_h3 = ''sub7''" "subscription_node sample_world = ''/onsip.com/alice''"
    by code_simp+
  with shutdown_protocol [OF w, of init_h3] show ?thesis by auto
qed

end
