(* ===== verification/Engine.thy ===== *)
theory Engine
  imports InitProtocol
begin

text \<open>
  \<open>OnSipXmpp\<close> as a whole: the engine with its two state machines, its callbacks from gloox, the
  polling loop of \<open>OnSipXmppBase\<close>, start, shutdown and cleanup. What the network delivers to
  \<open>recv\<close> and the passing of time are a schedule, an explicit argument. \<^const>\<open>None\<close> is a null
  or dangling pointer that the code would use.
\<close>

datatype conn_error =
  ConnNoError | ConnStreamError | ConnStreamVersionError | ConnStreamClosed | ConnProxyAuthRequired
| ConnProxyAuthFailed | ConnProxyNoSupportedAuth | ConnIoError | ConnParseError
| ConnConnectionRefused | ConnDnsError | ConnOutOfMemory | ConnNoSupportedAuth | ConnTlsFailed
| ConnTlsNotAvailable | ConnCompressionFailed | ConnAuthenticationFailed | ConnUserDisconnected
| ConnNotConnected

fun conn_code :: "conn_error \<Rightarrow> long" where
  "conn_code ConnNoError = 0"
| "conn_code ConnStreamError = 1"
| "conn_code ConnStreamVersionError = 2"
| "conn_code ConnStreamClosed = 3"
| "conn_code ConnProxyAuthRequired = 4"
| "conn_code ConnProxyAuthFailed = 5"
| "conn_code ConnProxyNoSupportedAuth = 6"
| "conn_code ConnIoError = 7"
| "conn_code ConnParseError = 8"
| "conn_code ConnConnectionRefused = 9"
| "conn_code ConnDnsError = 10"
| "conn_code ConnOutOfMemory = 11"
| "conn_code ConnNoSupportedAuth = 12"
| "conn_code ConnTlsFailed = 13"
| "conn_code ConnTlsNotAvailable = 14"
| "conn_code ConnCompressionFailed = 15"
| "conn_code ConnAuthenticationFailed = 16"
| "conn_code ConnUserDisconnected = 17"
| "conn_code ConnNotConnected = 18"

definition GetConnectionErrorString :: "conn_error \<Rightarrow> string" where
  "GetConnectionErrorString ce =
     (if ce = ConnNoError then ''''
      else if ce \<in> {ConnStreamError, ConnStreamVersionError, ConnStreamClosed} then
        ''Stream error occurred. '' @ format_ld (conn_code ce)
      else if ce \<in> {ConnProxyAuthRequired, ConnProxyAuthFailed, ConnProxyNoSupportedAuth} then
        ''Proxy error occurred. '' @ format_ld (conn_code ce)
      else if ce \<in> {ConnIoError, ConnParseError} then ''I/O error occurred. '' @ format_ld (conn_code ce)
      else if ce = ConnConnectionRefused then ''Connection was refused. '' @ format_ld (conn_code ce)
      else if ce = ConnDnsError then ''DNS error. '' @ format_ld (conn_code ce)
      else if ce = ConnOutOfMemory then ''Memory error. '' @ format_ld (conn_code ce)
      else if ce \<in> {ConnNoSupportedAuth, ConnTlsFailed, ConnTlsNotAvailable, ConnCompressionFailed,
                   ConnUserDisconnected} then
        ''Internal error. '' @ format_ld (conn_code ce)
      else if ce = ConnAuthenticationFailed then ''Authentication failed. '' @ format_ld (conn_code ce)
      else if ce = ConnNotConnected then ''Could not connect to server. '' @ format_ld (conn_code ce)
      else ''Unknown error. '' @ format_ld (conn_code ce))"

section \<open>OnSipXmpp\<close>

record engine =
  en_call :: call_machine
  en_init :: init_machine
  en_world :: world

definition new_OnSipXmpp :: "bool \<Rightarrow> dword \<Rightarrow> long \<Rightarrow> dword option \<Rightarrow> engine" where
  "new_OnSipXmpp bTapi tick clk disableTimeout =
     \<lparr>en_call = AddIStateNotify () new_base_machine, en_init = AddIStateNotify () new_base_machine,
      en_world = \<lparr>w_login = \<lparr>li_name = '''', li_password = '''', li_domain = ''''\<rparr>, w_jid = empty_JID,
        w_gloox = None, w_pubSub = False, w_bConnectEvent = False, w_bDisconnectEvent = False,
        w_tmrConnectLoop = TimeOut 250 clk, w_ids = 0, w_tick = tick, w_clock = clk,
        w_DisableTimeout = disableTimeout, w_deleted = [], w_fault = False, w_lastInitState = IS_NotSet,
        w_isTapi = bTapi, w_lstCallEvents = [], w_lstInitEvents = []\<rparr>\<rparr>"

text \<open>The destructor: no more notifications, then the machines delete their handlers, the init machine first.\<close>

definition delete_OnSipXmpp :: "engine \<Rightarrow> engine" where
  "delete_OnSipXmpp s =
     (let cm = ClearIStateNotifys (en_call s);
          im = ClearIStateNotifys (en_init s);
          (im', w1) = RemoveStateHandlers init_ops im (en_world s);
          (cm', w2) = RemoveStateHandlers call_ops cm w1
      in s\<lparr>en_init := im', en_call := cm', en_world := w2\<lparr>w_gloox := None, w_pubSub := False\<rparr>\<rparr>)"

definition signalEvent :: "xmpp_event \<Rightarrow> engine \<Rightarrow> engine option" where
  "signalEvent e s = do {
     (handled, im, w1) \<leftarrow> SignalEvent init_ops (Some e) False (en_init s) (en_world s);
     let s1 = s\<lparr>en_init := im, en_world := w1\<rparr> in
     if handled then Some s1
     else do {
       (handled, cm, w2) \<leftarrow> SignalEvent call_ops (Some e) False (en_call s1) (en_world s1);
       let s2 = s1\<lparr>en_call := cm, en_world := w2\<rparr> in
       if handled then Some s2
       else Some (s2\<lparr>en_world := delete_event e w2\<rparr>)
     }
   }"

definition onConnect :: "engine \<Rightarrow> engine option" where
  "onConnect s = signalEvent (connectFactory True) (s\<lparr>en_world := (en_world s)\<lparr>w_bConnectEvent := True\<rparr>\<rparr>)"

definition onDisconnect :: "engine \<Rightarrow> engine option" where
  "onDisconnect s =
     signalEvent (connectFactory False) (s\<lparr>en_world := (en_world s)\<lparr>w_bDisconnectEvent := True\<rparr>\<rparr>)"

definition onConnectLoop :: "engine \<Rightarrow> (bool \<times> engine) option" where
  "onConnectLoop s = do {
     (im, w1) \<leftarrow> BasePollStateHandlers init_ops (en_init s) (en_world s);
     (cm, w2) \<leftarrow> BasePollStateHandlers call_ops (en_call s) w1;
     Some (True, s\<lparr>en_init := im, en_call := cm, en_world := w2\<rparr>)
   }"

definition handleMessage :: "message \<Rightarrow> engine \<Rightarrow> engine option" where
  "handleMessage m s = do {
     evt \<leftarrow> msgFactory m;
     (case evt of None \<Rightarrow> Some s | Some e \<Rightarrow> signalEvent e s)
   }"

definition handleIqID :: "iq \<Rightarrow> long \<Rightarrow> engine \<Rightarrow> engine option" where
  "handleIqID i context s = do {
     evt \<leftarrow> iqFactory i context;
     (case evt of None \<Rightarrow> Some s | Some e \<Rightarrow> signalEvent e s)
   }"

section \<open>Start, shutdown and cleanup\<close>

text \<open>
  \<open>OnSipXmppBase::Start\<close> with \<open>bSync\<close> false; \<open>connects\<close> is whether the TCP connection that
  \<open>m_gloox->connect\<close> makes succeeds. When it does not, gloox calls the engine back with a disconnect
  before \<open>connect\<close> answers; without a server name it does not even try.
\<close>

definition BaseStart :: "login \<Rightarrow> bool \<Rightarrow> engine \<Rightarrow> (conn_error \<times> engine) option" where
  "BaseStart loginInfo connects s =
     (let w1 = (en_world s)\<lparr>w_login := loginInfo, w_jid := login_jid loginInfo\<rparr>;
          g = registerMessageHandler O_OnSipXmpp (new_gloox (w_jid w1) (li_password (w_login w1)));
          w2 = w1\<lparr>w_gloox := Some g, w_pubSub := True\<rparr>
      in if j_serverRaw (w_jid w1) = [] then Some (ConnNotConnected, s\<lparr>en_world := w2\<rparr>)
         else if \<not> connects then do {
           s2 \<leftarrow> onDisconnect (s\<lparr>en_world := w2\<rparr>);
           Some (ConnNotConnected, s2)
         }
         else Some (ConnNoError, s\<lparr>en_world := w2\<lparr>w_gloox := Some (g\<lparr>gl_connected := True\<rparr>)\<rparr>\<rparr>))"

text \<open>The new init handler is only requested: the next poll adds it.\<close>

definition Start :: "login \<Rightarrow> bool \<Rightarrow> engine \<Rightarrow> (conn_error \<times> engine) option" where
  "Start loginInfo connects s =
     (let (im, w1) = RemoveStateHandlers init_ops (en_init s) (en_world s);
          (cm, w2) = RemoveStateHandlers call_ops (en_call s) w1;
          im = AddStateHandlerRequest (new_InitStateHandler w2) im
      in BaseStart loginInfo connects (s\<lparr>en_init := im, en_call := cm, en_world := w2\<rparr>))"

definition AsyncShutdown :: "engine \<Rightarrow> engine" where
  "AsyncShutdown s = s\<lparr>en_init := AddEvent ShutdownRequestEvent (en_init s)\<rparr>"

definition IsShutdownComplete :: "engine \<Rightarrow> bool" where
  "IsShutdownComplete s \<longleftrightarrow> GetAllStates init_ops (en_init s) = []"

text \<open>\<open>ClientBase::disconnect\<close> calls the engine back when the socket was open.\<close>

definition gloox_disconnect :: "engine \<Rightarrow> engine option" where
  "gloox_disconnect s =
     (case w_gloox (en_world s) of
        None \<Rightarrow> None
      | Some g \<Rightarrow>
          if \<not> gl_connected g then Some s
          else onDisconnect (s\<lparr>en_world := (en_world s)\<lparr>w_gloox := Some (g\<lparr>gl_connected := False\<rparr>)\<rparr>\<rparr>))"

definition AsyncCleanup :: "engine \<Rightarrow> engine option" where
  "AsyncCleanup s = do {
     s1 \<leftarrow> (if w_gloox (en_world s) \<noteq> None then gloox_disconnect s else Some s);
     Some (s1\<lparr>en_world := (en_world s1)\<lparr>w_gloox := None\<rparr>\<rparr>)
   }"

definition Cleanup :: "engine \<Rightarrow> engine option" where
  "Cleanup s =
     (let (im, w1) = RemoveStateHandlers init_ops (en_init s) (en_world s);
          (cm, w2) = RemoveStateHandlers call_ops (en_call s) w1
      in AsyncCleanup (s\<lparr>en_init := im, en_call := cm, en_world := w2\<rparr>))"

definition OnSipXmpp_MakeCall :: "string \<Rightarrow> engine \<Rightarrow> long \<times> engine" where
  "OnSipXmpp_MakeCall number s =
     (let (callId, cm, w1) = MakeCallAsync number (en_call s) (en_world s)
      in (callId, s\<lparr>en_call := cm, en_world := w1\<rparr>))"

definition OnSipXmpp_DropCall :: "long \<Rightarrow> engine \<Rightarrow> engine" where
  "OnSipXmpp_DropCall callId s = s\<lparr>en_call := DropCallAsync callId (en_call s)\<rparr>"

definition GetInitStateMachineState :: "engine \<Rightarrow> init_state" where
  "GetInitStateMachineState s = w_lastInitState (en_world s)"

section \<open>Callbacks from gloox\<close>

text \<open>
  The workers live inside the init handlers. A message goes to the worker that listens, an IQ
  result to the authorizer it was tracked for; when that one has been deleted meanwhile the tracked
  pointer dangles.
\<close>

fun worker_handleMessage :: "message \<Rightarrow> init_handler list \<Rightarrow> init_handler list option" where
  "worker_handleMessage m [] = None"
| "worker_handleMessage m (h # hs) =
     (case ih_reauthorizer h \<bind> ra_subscriber of
        None \<Rightarrow> map_option (Cons h) (worker_handleMessage m hs)
      | Some n \<Rightarrow> do {
          n' \<leftarrow> EnableCallEventsWorker_handleMessage m n;
          Some (h\<lparr>ih_reauthorizer := map_option (\<lambda>r. r\<lparr>ra_subscriber := Some n'\<rparr>) (ih_reauthorizer h)\<rparr> # hs)
        })"

fun worker_handleIqID :: "iq \<Rightarrow> long \<Rightarrow> init_handler list \<Rightarrow> init_handler list option" where
  "worker_handleIqID i context [] = None"
| "worker_handleIqID i context (h # hs) =
     (case ih_reauthorizer h \<bind> ra_authorizer of
        None \<Rightarrow> map_option (Cons h) (worker_handleIqID i context hs)
      | Some a \<Rightarrow> do {
          a' \<leftarrow> AuthorizeWorker_handleIqID i context a;
          Some (h\<lparr>ih_reauthorizer := map_option (\<lambda>r. r\<lparr>ra_authorizer := Some a'\<rparr>) (ih_reauthorizer h)\<rparr> # hs)
        })"

definition set_init_handlers :: "init_handler list \<Rightarrow> engine \<Rightarrow> engine" where
  "set_init_handlers hs s = s\<lparr>en_init := (en_init s)\<lparr>sm_handlers := hs\<rparr>\<rparr>"

text \<open>\<open>ClientBase::notifyMessageHandlers\<close> without message sessions: every registered handler in order.\<close>

fun notifyMessages :: "xmpp_object list \<Rightarrow> message \<Rightarrow> engine \<Rightarrow> engine option" where
  "notifyMessages [] m s = Some s"
| "notifyMessages (mh # mhs) m s = do {
     s1 \<leftarrow>
       (case mh of
          O_OnSipXmpp \<Rightarrow> handleMessage m s
        | O_Worker \<Rightarrow> map_option (\<lambda>hs. set_init_handlers hs s) (worker_handleMessage m (sm_handlers (en_init s)))
        | O_PubSubManager \<Rightarrow> Some s);
     notifyMessages mhs m s1
   }"

definition notifyMessageHandlers :: "message \<Rightarrow> engine \<Rightarrow> engine option" where
  "notifyMessageHandlers m s = do {
     g \<leftarrow> w_gloox (en_world s);
     notifyMessages (gl_messageHandlers g) m s
   }"

text \<open>
  \<open>ClientBase::notifyIqHandlers\<close>: a tracked reply goes to its handler, whose entry is then erased.
  What the PubSub manager does with a reply is not modelled: it only logs here. The other
  IQ handlers are those of gloox itself.
\<close>

definition forget_id :: "string \<Rightarrow> engine \<Rightarrow> engine" where
  "forget_id rid s = s\<lparr>en_world := (en_world s)\<lparr>w_gloox :=
     map_option (\<lambda>g. g\<lparr>gl_tracked := (gl_tracked g)(rid := None)\<rparr>) (w_gloox (en_world s))\<rparr>\<rparr>"

definition notifyIqHandlers :: "iq \<Rightarrow> engine \<Rightarrow> engine option" where
  "notifyIqHandlers i s = do {
     g \<leftarrow> w_gloox (en_world s);
     (case gl_tracked g (iq_id i) of
        Some (ih, context) \<Rightarrow>
          if is_reply i then do {
            s1 \<leftarrow>
              (case ih of
                 O_OnSipXmpp \<Rightarrow> handleIqID i context s
               | O_Worker \<Rightarrow> map_option (\<lambda>hs. set_init_handlers hs s)
                   (worker_handleIqID i context (sm_handlers (en_init s)))
               | O_PubSubManager \<Rightarrow> Some s);
            Some (forget_id (iq_id i) s1)
          }
          else Some s
      | None \<Rightarrow> Some s)
   }"

datatype inbound = In_Connect | In_Disconnect | In_Message message | In_Iq iq

text \<open>A disconnect closes the socket before the engine is told.\<close>

definition deliver :: "inbound \<Rightarrow> engine \<Rightarrow> engine option" where
  "deliver x s =
     (case x of
        In_Connect \<Rightarrow> onConnect s
      | In_Disconnect \<Rightarrow>
          onDisconnect (s\<lparr>en_world := (en_world s)\<lparr>w_gloox :=
            map_option (\<lambda>g. g\<lparr>gl_connected := False\<rparr>) (w_gloox (en_world s))\<rparr>\<rparr>)
      | In_Message m \<Rightarrow> notifyMessageHandlers m s
      | In_Iq i \<Rightarrow> notifyIqHandlers i s)"

section \<open>Polling\<close>

text \<open>One call of \<open>recv\<close>: what it delivers, what it returns, and the clocks when it returns.\<close>

record recv_step =
  rs_inbound :: "inbound list"
  rs_result :: conn_error
  rs_tick :: dword
  rs_clock :: long

fun deliver_all :: "inbound list \<Rightarrow> engine \<Rightarrow> engine option" where
  "deliver_all [] s = Some s"
| "deliver_all (x # xs) s = do { s1 \<leftarrow> deliver x s; deliver_all xs s1 }"

definition gloox_recv :: "recv_step \<Rightarrow> engine \<Rightarrow> (conn_error \<times> engine) option" where
  "gloox_recv st s =
     (let s1 = s\<lparr>en_world := (en_world s)\<lparr>w_tick := rs_tick st, w_clock := rs_clock st\<rparr>\<rparr> in
      case w_gloox (en_world s) of
        None \<Rightarrow> None
      | Some g \<Rightarrow>
          if \<not> gl_connected g then Some (ConnNotConnected, s1)
          else do { s2 \<leftarrow> deliver_all (rs_inbound st) s1; Some (rs_result st, s2) })"

text \<open>
  The loop of \<open>AsyncPolling\<close>. The first component of the result is \<^const>\<open>None\<close> when the schedule
  ends while the loop still runs; the last is the rest of the schedule.
\<close>

definition polling_turn :: "engine \<Rightarrow> engine option" where
  "polling_turn s =
     (if IsExpired (w_tmrConnectLoop (en_world s)) (w_clock (en_world s)) then do {
        (_, s1) \<leftarrow> onConnectLoop s;
        Some (s1\<lparr>en_world := (en_world s1)\<lparr>w_tmrConnectLoop :=
          TimeOut_Reset (w_tmrConnectLoop (en_world s1)) (w_clock (en_world s1))\<rparr>\<rparr>)
      }
      else Some s)"

fun polling_loop ::
  "timeout \<Rightarrow> recv_step list \<Rightarrow> conn_error \<Rightarrow> engine \<Rightarrow> (conn_error option \<times> engine \<times> recv_step list) option" where
  "polling_loop until [] ce s =
     (if ce \<noteq> ConnNoError \<or> IsExpired until (w_clock (en_world s)) then Some (Some ce, s, [])
      else map_option (\<lambda>s1. (None, s1, [])) (polling_turn s))"
| "polling_loop until (st # rest) ce s =
     (if ce \<noteq> ConnNoError \<or> IsExpired until (w_clock (en_world s)) then Some (Some ce, s, st # rest)
      else do {
        s1 \<leftarrow> polling_turn s;
        (ce', s2) \<leftarrow> gloox_recv st s1;
        polling_loop until rest ce' s2
      })"

definition AsyncPolling ::
  "dword \<Rightarrow> recv_step list \<Rightarrow> engine \<Rightarrow> (conn_error option \<times> engine \<times> recv_step list) option" where
  "AsyncPolling dwMsecs schedule s =
     polling_loop (TimeOut dwMsecs (w_clock (en_world s))) schedule ConnNoError s"

definition PollXMPP ::
  "dword \<Rightarrow> recv_step list \<Rightarrow> engine \<Rightarrow> (conn_error option \<times> engine \<times> recv_step list) option" where
  "PollXMPP dwMsecs = AsyncPolling dwMsecs"

end
