(* ===== verification/MachineFrame.thy ===== *)
theory MachineFrame
  imports StateMachine
begin

text \<open>
  What a machine leaves alone: the interface \<open>world_frame\<close>. When every operation of a handler class
  keeps a preorder on worlds (for example, that the clocks, the login and the connection are the
  same), so does every operation of the machine that runs the handlers.
\<close>

locale world_frame =
  fixes ops :: "('h, 'e, 's, 'd, 'n, 'w) ops"
    and keep :: "'w \<Rightarrow> 'w \<Rightarrow> bool"
  assumes keep_refl [simp, intro]: "keep w w"
    and keep_trans [trans]: "keep w w' \<Longrightarrow> keep w' w'' \<Longrightarrow> keep w w''"
    and yours_keep: "op_IsYourEvent ops h e w = Some (b, h', w') \<Longrightarrow> keep w w'"
    and exist_keep: "op_IsStillExist ops h w = (b, h', w') \<Longrightarrow> keep w w'"
    and poll_keep: "op_PollStateHandler ops h w = Some (b, h', w') \<Longrightarrow> keep w w'"
    and pre_keep: "op_PreExecute ops h w = Some (b, h', w') \<Longrightarrow> keep w w'"
    and unknown_keep: "op_UnknownEvent ops e w = (r, w') \<Longrightarrow> keep w w'"
    and notify_keep: "keep w (op_StateChange ops n s d reason w)"
    and delete_handler_keep: "keep w (op_deleteHandler ops h w)"
    and delete_event_keep: "keep w (op_deleteEvent ops e w)"
begin

lemma OnStateChange_keep: "keep w (OnStateChange ops ns h r w)"
  unfolding OnStateChange_def
  by (induction ns arbitrary: w) (auto intro: notify_keep keep_trans)

lemma checkExist_keep: "checkExist ops ns hs w = (hs', w') \<Longrightarrow> keep w w'"
proof (induction hs arbitrary: w hs' w')
  case (Cons h hs)
  obtain b h1 w1 where e: "op_IsStillExist ops h w = (b, h1, w1)" by (cases "op_IsStillExist ops h w")
  have k: "keep w (op_deleteHandler ops h1 (OnStateChange ops ns h1 RemovedHandler w1))"
    by (meson exist_keep [OF e] OnStateChange_keep delete_handler_keep keep_trans)
  from Cons.prems e show ?case
    by (cases b) (auto split: prod.splits dest!: Cons.IH intro: keep_trans [OF exist_keep [OF e]] keep_trans [OF k])
qed simp

lemma checkStateHandlersExist_keep:
  "checkStateHandlersExist ops m w = (m', w') \<Longrightarrow> keep w w'"
  by (auto simp: checkStateHandlersExist_def split: prod.splits dest: checkExist_keep)

lemma offerEvent_keep: "offerEvent ops ns e hs w = Some (b, hs', w') \<Longrightarrow> keep w w'"
proof (induction hs arbitrary: w b hs' w')
  case (Cons h hs)
  obtain c h1 w1 where y: "op_IsYourEvent ops h e w = Some (c, h1, w1)"
    using Cons.prems by (auto simp: bind_eq_Some_conv)
  from Cons.prems y show ?case
    by (cases c)
      (auto simp: bind_eq_Some_conv dest!: Cons.IH
        intro: keep_trans [OF yours_keep [OF y]] keep_trans [OF yours_keep [OF y] OnStateChange_keep])
qed simp

lemma pollLoop_keep: "pollLoop ops ns hs w = Some (hs', w') \<Longrightarrow> keep w w'"
proof (induction hs arbitrary: w hs' w')
  case (Cons h hs)
  obtain c h1 w1 where y: "op_PollStateHandler ops h w = Some (c, h1, w1)"
    using Cons.prems by (auto simp: bind_eq_Some_conv)
  from Cons.prems y show ?case
    by (cases c)
      (auto simp: bind_eq_Some_conv dest!: Cons.IH
        intro: keep_trans [OF poll_keep [OF y]] keep_trans [OF poll_keep [OF y] OnStateChange_keep])
qed simp

lemma PollStateHandlers_keep: "PollStateHandlers ops m w = Some (m', w') \<Longrightarrow> keep w w'"
  by (auto simp: PollStateHandlers_def bind_eq_Some_conv
      dest!: pollLoop_keep checkStateHandlersExist_keep intro: keep_trans)

lemma SignalEvent_keep:
  assumes "SignalEvent ops (Some e) d m w = Some (b, m', w')"
  shows "keep w w'"
proof -
  obtain mine hs w1 where o: "offerEvent ops (sm_notifys m) e (sm_handlers m) w = Some (mine, hs, w1)"
    using assms by (auto simp: SignalEvent_def bind_eq_Some_conv)
  obtain r w2 where u: "op_UnknownEvent ops e w1 = (r, w2)" by (cases "op_UnknownEvent ops e w1")
  note k1 = offerEvent_keep [OF o] and k2 = keep_trans [OF offerEvent_keep [OF o] unknown_keep [OF u]]
  note k3 = keep_trans [OF k2 OnStateChange_keep] and k4 = keep_trans [OF k2 delete_event_keep]
  from assms o u show ?thesis
    by (cases mine; cases r; cases d)
      (auto simp: SignalEvent_def Let_def split: prod.splits dest!: checkStateHandlersExist_keep
        intro: keep_trans [OF k1] keep_trans [OF k2] keep_trans [OF k3] keep_trans [OF k4])
qed

lemma signalAll_keep: "signalAll ops es m w = Some (m', w') \<Longrightarrow> keep w w'"
  by (induction es arbitrary: m w) (auto simp: bind_eq_Some_conv dest!: SignalEvent_keep intro: keep_trans)

lemma requestLoop_keep: "requestLoop ops hs m w = Some (m', w') \<Longrightarrow> keep w w'"
proof (induction hs arbitrary: m w)
  case (Cons h hs)
  then obtain b h1 w1 where p:
    "(if op_HasPreExecute ops h then op_PreExecute ops h w else Some (True, h, w)) = Some (b, h1, w1)"
    by (auto simp: bind_eq_Some_conv)
  then have k1: "keep w w1" by (auto split: if_splits intro: pre_keep)
  obtain ex h2 w2 where e: "op_IsStillExist ops h1 w1 = (ex, h2, w2)" by (cases "op_IsStillExist ops h1 w1")
  have k2: "keep w w2" using keep_trans [OF k1 exist_keep [OF e]] .
  note k3 = keep_trans [OF k1 delete_handler_keep] and k4 = keep_trans [OF k2 delete_handler_keep]
    and k5 = keep_trans [OF k2 OnStateChange_keep]
  have "\<exists>m1 wx. keep w wx \<and> requestLoop ops hs m1 wx = Some (m', w')"
  proof (cases b)
    case False
    with Cons.prems p have "requestLoop ops hs m (op_deleteHandler ops h1 w1) = Some (m', w')" by simp
    with k3 show ?thesis by blast
  next
    case True
    obtain m1 w3 where a: "AddStateHandler ops h2 (op_HasPreExecute ops h2) m w2 = (m1, w3)"
      by (cases "AddStateHandler ops h2 (op_HasPreExecute ops h2) m w2")
    then have "keep w w3" using k2 k5 by (auto simp: AddStateHandler_def split: if_splits)
    with True Cons.prems p e a k4 show ?thesis by (cases ex) auto
  qed
  then show ?case using Cons.IH keep_trans by blast
qed simp

lemma BasePoll_keep: "BasePollStateHandlers ops m w = Some (m', w') \<Longrightarrow> keep w w'"
  by (erule BasePollE) (meson requestLoop_keep signalAll_keep PollStateHandlers_keep keep_trans)

lemma RemoveStateHandlers_keep: "RemoveStateHandlers ops m w = (m', w') \<Longrightarrow> keep w w'"
proof -
  have "keep w (foldl (\<lambda>w h. op_deleteHandler ops h w) w hs)" for hs
    by (induction hs arbitrary: w) (auto intro: delete_handler_keep keep_trans)
  then show "RemoveStateHandlers ops m w = (m', w') \<Longrightarrow> keep w w'" by (auto simp: RemoveStateHandlers_def)
qed

end

end
