(* ===== verification/EngineFrame.thy ===== *)
theory EngineFrame
  imports MachineFrame CallMachine InitMachine
begin

text \<open>
  What the two machines of the engine leave alone, as interpretations of \<open>world_frame\<close>: both keep
  the clocks, the login and the connection; the call machine also keeps the fault flag, the
  listeners of the client and everything the init machine reports.
\<close>

section \<open>Both machines\<close>

definition world_same :: "world \<Rightarrow> world \<Rightarrow> bool" where
  "world_same w w' \<longleftrightarrow>
     w_tick w' = w_tick w \<and> w_clock w' = w_clock w \<and> w_login w' = w_login w \<and>
     w_bConnectEvent w' = w_bConnectEvent w \<and> w_bDisconnectEvent w' = w_bDisconnectEvent w \<and>
     w_tmrConnectLoop w' = w_tmrConnectLoop w \<and> w_isTapi w' = w_isTapi w \<and> w_pubSub w' = w_pubSub w \<and>
     map_option gl_connected (w_gloox w') = map_option gl_connected (w_gloox w)"

lemma world_same_refl [simp, intro]: "world_same w w"
  by (simp add: world_same_def)

lemma world_same_trans: "world_same w w' \<Longrightarrow> world_same w' w'' \<Longrightarrow> world_same w w''"
  by (simp add: world_same_def)

lemma world_sameD:
  assumes "world_same w w'"
  shows "w_tick w' = w_tick w" "w_clock w' = w_clock w" "w_login w' = w_login w"
    "w_tmrConnectLoop w' = w_tmrConnectLoop w" "w_isTapi w' = w_isTapi w"
    "w_gloox w' = None \<longleftrightarrow> w_gloox w = None"
    "map_option gl_connected (w_gloox w') = map_option gl_connected (w_gloox w)"
  using assms by (auto simp: world_same_def)

text \<open>The part of it that concerns the client and its listeners.\<close>

definition client_same :: "world \<Rightarrow> world \<Rightarrow> bool" where
  "client_same w w' \<longleftrightarrow>
     world_same w w' \<and> w_fault w' = w_fault w \<and> w_lastInitState w' = w_lastInitState w \<and>
     w_lstInitEvents w' = w_lstInitEvents w \<and>
     map_option gl_messageHandlers (w_gloox w') = map_option gl_messageHandlers (w_gloox w)"

lemma client_same_refl [simp, intro]: "client_same w w"
  by (simp add: client_same_def)

lemma client_same_trans: "client_same w w' \<Longrightarrow> client_same w' w'' \<Longrightarrow> client_same w w''"
  by (auto simp: client_same_def intro: world_same_trans)

lemmas client_frame_defs = client_same_def world_same_def

lemma client_delete [simp]:
  "client_same w (delete_event e w)" "client_same w (delete_event_opt ev w)"
  by (auto simp: delete_event_def delete_event_opt_def client_frame_defs split: option.split)

lemma client_requests:
  "getUniqueId w = (i, w') \<Longrightarrow> client_same w w'"
  "Authorize ctx h w = Some w' \<Longrightarrow> client_same w w'"
  "SubscribeCallEvents x w = Some (rid, w') \<Longrightarrow> client_same w w'"
  "UnsubscribeCallEvents x h w = Some (c, w') \<Longrightarrow> client_same w w'"
  "getSubscriptions w = Some w' \<Longrightarrow> client_same w w'"
  "CallNumber n ctx s w = Some (r, w') \<Longrightarrow> client_same w w'"
  "DropCall s f t ctx w = Some (rid, w') \<Longrightarrow> client_same w w'"
  "client_same w (Ping w)"
  by (auto simp: Authorize_def SubscribeCallEvents_def UnsubscribeCallEvents_def getSubscriptions_def
      CallNumber_def DropCall_def Ping_def Let_def getUniqueId_eq client_frame_defs
      send_command_def pubsub_subscribe_def pubsub_unsubscribe_def pubsub_getSubscriptions_def
      gloox_getID_def gloox_send_def gloox_trackID_def
      split: option.splits if_splits prod.splits)

section \<open>The call machine\<close>

lemma client_assign: "assignNewState s ev h w = (h', w') \<Longrightarrow> client_same w w'"
  by (auto simp: assignNewState_eq)

lemma client_drop_branches: "drop_branches bs w = Some (ids, w') \<Longrightarrow> client_same w w'"
proof (induction bs arbitrary: w ids w')
  case (Cons b bs)
  obtain c w1 where u: "getUniqueId w = (c, w1)" by (cases "getUniqueId w")
  with Cons.prems obtain rid w2 ids2 where d: "DropCall (m_sipCallId b) (m_fromTag b) (m_toTag b) c w1 = Some (rid, w2)"
    and r: "drop_branches bs w2 = Some (ids2, w')" by (auto simp: bind_eq_Some_conv)
  show ?case
    using client_same_trans [OF client_requests(1) [OF u] client_same_trans [OF client_requests(7) [OF d] Cons.IH [OF r]]] .
qed simp

lemma client_drop_or_reply: "drop_or_reply e h w = Some (b, h', w') \<Longrightarrow> client_same w w'"
  by (auto simp: drop_or_reply_def bind_eq_Some_conv CheckDropRequestEvent_def assignNewState_eq
      split: if_splits prod.splits
      dest!: client_drop_branches intro: client_same_trans [OF _ client_same_trans [OF client_delete(2) client_delete(1)]]
        client_same_trans [OF _ client_delete(1)])

lemma client_Outgoing: "Outgoing_IsYourEvent h e w = Some (b, h', w') \<Longrightarrow> client_same w w'"
  unfolding Outgoing_IsYourEvent_def
  by (auto simp: Let_def assignNewState_eq split: option.splits if_splits prod.splits dest!: client_drop_or_reply)

lemma client_Incoming: "Incoming_IsYourEvent h e w = Some (b, h', w') \<Longrightarrow> client_same w w'"
  unfolding Incoming_IsYourEvent_def
  by (auto simp: Let_def assignNewState_eq split: option.splits if_splits prod.splits dest!: client_drop_or_reply)

lemma client_MakeCall_parts:
  "MakeCall_activeCall h e ac w = (b, h', w') \<Longrightarrow> client_same w w'"
  "MakeCall_retract h e w = (b, h', w') \<Longrightarrow> client_same w w'"
  "MakeCall_callRequest h e w = (b, h', w') \<Longrightarrow> client_same w w'"
  unfolding MakeCall_activeCall_def MakeCall_retract_def MakeCall_callRequest_def Let_def
  by (auto simp: assignNewState_eq split: if_splits prod.splits)

lemma client_MakeCall: "MakeCall_IsYourEvent h e w = Some (b, h', w') \<Longrightarrow> client_same w w'"
  unfolding MakeCall_IsYourEvent_def
  by (auto simp: bind_eq_Some_conv split: option.splits if_splits
      dest!: client_drop_or_reply client_MakeCall_parts intro: client_same_trans)

lemma client_check_timeouts: "check_timeouts ts h w = (b, h', w') \<Longrightarrow> client_same w w'"
  by (induction ts h w arbitrary: b h' w' rule: check_timeouts.induct)
    (auto simp: CheckStateTimeout_def ReadKeyDword_def assignNewState_eq
      split: prod.splits if_splits option.splits)

lemma client_PreExecute: "MakeCall_PreExecute h w = Some (b, h', w') \<Longrightarrow> client_same w w'"
  by (auto simp: MakeCall_PreExecute_def Let_def bind_eq_Some_conv assignNewState_eq split: prod.splits
      dest!: client_requests(1,6) intro: client_same_trans)

lemma client_CallStateChange [simp]: "client_same w (CallStateChange s d r w)"
  by (simp add: CallStateChange_def client_frame_defs)

interpretation call_frame: world_frame call_ops client_same
proof (unfold_locales, goal_cases)
  case (2 w w' w'')
  then show ?case by (rule client_same_trans)
next
  case (3 h e w b h' w')
  then show ?case
    by (cases "ch_kind h") (auto simp: call_ops_def Call_IsYourEvent.simps
        dest: client_Outgoing client_Incoming client_MakeCall)
next
  case (4 h w b h' w')
  then show ?case by (auto simp: call_ops_def Call_IsStillExist_table dest: client_check_timeouts)
next
  case (6 h w b h' w')
  then show ?case by (auto simp: call_ops_def dest: client_PreExecute)
next
  case (7 e w r w')
  then show ?case by (auto simp: call_ops_def Call_UnknownEvent_def Let_def split: option.splits if_splits prod.splits
        dest: client_requests(1))
qed (auto simp: call_ops_def delete_call_handler_def)


lemma client_sameD: "client_same w w' \<Longrightarrow> world_same w w'"
  by (simp add: client_same_def)

section \<open>The init machine\<close>

lemma world_workers [simp]:
  "world_same w (delete_EnableCallEventsWorker n w)"
  "world_same w (delete_reauthorizer r w)"
  by (auto simp: delete_EnableCallEventsWorker_def delete_reauthorizer_def removeMessageHandler_def
      world_same_def split: option.split)

lemma world_delete_opt: "delete_reauthorizer_opt h w = (h', w') \<Longrightarrow> world_same w w'"
  by (auto simp: delete_reauthorizer_opt_def split: option.split)

lemma world_Execute:
  "AuthorizeWorker_Execute w = Some w' \<Longrightarrow> world_same w w'"
  "EnableCallEventsWorker_Execute x n w = Some (n', w') \<Longrightarrow> world_same w w'"
  "ReAuthorize_Execute r w = Some (r', w') \<Longrightarrow> world_same w w'"
  by (auto simp: AuthorizeWorker_Execute_def EnableCallEventsWorker_Execute_def ReAuthorize_Execute_def
      Let_def bind_eq_Some_conv registerMessageHandler_def split: prod.splits
      dest!: client_requests(1-3) client_sameD) (simp_all add: world_same_def)

lemma world_IsComplete: "ReAuthorize_IsComplete r w = Some (b, r', w') \<Longrightarrow> world_same w w'"
  by (auto simp: ReAuthorize_IsComplete_def Let_def bind_eq_Some_conv split: if_splits prod.splits
      dest!: world_Execute)

lemma world_ih_assign: "ih_assignNewState s h w = (h', w') \<Longrightarrow> world_same w w'"
  by (auto simp: ih_assignNewState_eq client_sameD)

lemma world_handleReAuthorize: "handleReAuthorize h w = Some (b, h', w') \<Longrightarrow> world_same w w'"
  by (auto simp: handleReAuthorize_def Let_def bind_eq_Some_conv split: option.splits if_splits prod.splits
      dest!: world_Execute(3) world_IsComplete world_ih_assign world_delete_opt intro: world_same_trans)

lemma world_check_init_timeouts: "check_init_timeouts ss h w = (b, h', w') \<Longrightarrow> world_same w w'"
  by (induction ss h w arbitrary: b h' w' rule: check_init_timeouts.induct)
    (auto simp: Init_CheckStateTimeout_def split: prod.splits if_splits dest!: world_ih_assign intro: world_same_trans)

lemma world_Ping [simp]: "world_same w (Ping w)"
  by (simp add: client_sameD client_requests)

lemma world_Init_Poll: "Init_PollStateHandler h w = Some (b, h', w') \<Longrightarrow> world_same w w'"
  by (auto simp: Init_PollStateHandler_def Let_def bind_eq_Some_conv
      simp del: check_init_timeouts.simps split: if_splits prod.splits
      dest!: world_handleReAuthorize world_check_init_timeouts
      intro: world_same_trans world_same_trans [OF world_Ping])

lemma client_ih_assign: "ih_assignNewState s h w = (h', w') \<Longrightarrow> client_same w w'"
  by (auto simp: ih_assignNewState_eq)

lemma client_deleted:
  "client_same w w' \<Longrightarrow> client_same w (delete_event e w')"
  "client_same w w' \<Longrightarrow> client_same w (delete_event_opt ev w')"
  using client_same_trans client_delete by blast+

lemma client_Init_preLogin: "Init_preLogin h e w = Some (b, h', w') \<Longrightarrow> client_same w w'"
proof (cases "getOnConnectEvent e \<and> \<not> IsError e")
  case True
  assume p: "Init_preLogin h e w = Some (b, h', w')"
  obtain ctx w1 where u: "getUniqueId w = (ctx, w1)" by (cases "getUniqueId w")
  from p True u obtain w2 w3 where s: "getSubscriptions w1 = Some w2" and a: "Authorize ctx O_OnSipXmpp w2 = Some w3"
    and w': "w' = delete_event e (delete_event_opt (ih_event h) w3)"
    by (auto simp: Init_preLogin_def bind_eq_Some_conv ih_assignNewState_eq)
  from client_same_trans [OF client_requests(1) [OF u]
      client_same_trans [OF client_requests(5) [OF s] client_requests(2) [OF a]]]
  show ?thesis unfolding w' by (intro client_deleted)
next
  case False
  assume "Init_preLogin h e w = Some (b, h', w')"
  with False show ?thesis
    by (cases "getOnConnectEvent e") (auto simp: Init_preLogin_def ih_assignNewState_eq intro!: client_deleted)
qed

lemma client_Init_authorizing: "Init_authorizing h e w = Some (b, h', w') \<Longrightarrow> client_same w w'"
  by (cases "IsError e")
    (auto simp: Init_authorizing_def ih_assignNewState_eq bind_eq_Some_conv
      dest!: client_requests(3) intro!: client_deleted intro: client_same_trans [OF client_delete(2)])

lemma client_Init_enabling: "Init_enabling h e ps w = (b, h', w') \<Longrightarrow> client_same w w'"
  by (cases "IsError e") (auto simp: Init_enabling_def ih_assignNewState_eq Let_def intro!: client_deleted)

lemmas client_Init_branches = client_Init_preLogin client_Init_authorizing client_Init_enabling

lemma client_Init_IsYourEvent: "Init_IsYourEvent h e w = Some (b, h', w') \<Longrightarrow> client_same w w'"
  unfolding Init_IsYourEvent_def
  by (auto simp: bind_eq_Some_conv ih_assignNewState_eq split: if_splits option.splits
      dest!: client_Init_branches client_requests(4) intro!: client_deleted)

lemma world_InitStateChange [simp]: "world_same w (InitStateChange s r w)"
  by (simp add: InitStateChange_def world_same_def Let_def)

interpretation init_frame: world_frame init_ops world_same
proof (unfold_locales, goal_cases)
  case (2 w w' w'')
  then show ?case by (rule world_same_trans)
next
  case (3 h e w b h' w')
  then show ?case by (auto simp: init_ops_def dest: client_Init_IsYourEvent client_sameD)
next
  case (4 h w b h' w')
  then show ?case
    by (auto simp: init_ops_def Init_IsStillExist_def split: if_splits prod.splits dest: world_delete_opt)
next
  case (5 h w b h' w')
  then show ?case by (auto simp: init_ops_def dest: world_Init_Poll)
next
  case (9 w h)
  obtain h1 w1 where d: "delete_reauthorizer_opt h w = (h1, w1)" by (cases "delete_reauthorizer_opt h w")
  from world_same_trans [OF world_delete_opt [OF d] client_sameD [OF client_delete(2)]] d
  show ?case by (simp add: init_ops_def delete_init_handler_def)
qed (auto simp: init_ops_def Init_UnknownEvent_def client_sameD)

end
