(* ===== verification/EngineInv.thy ===== *)
theory EngineInv
  imports EngineFrame Engine CallProtocol InitProtocol
begin

text \<open>
  The invariant of a running engine: both machines hold handlers with their invariants and queue
  only what the other threads may queue, the client exists, nothing has faulted, there is at most
  one init handler, and the client calls a renewal worker back only while that worker exists.
\<close>

section \<open>Listeners and their workers\<close>

definition listeners :: "world \<Rightarrow> xmpp_object list" where
  "listeners w = (case w_gloox w of None \<Rightarrow> [] | Some g \<Rightarrow> gl_messageHandlers g)"

definition has_subscriber :: "init_handler \<Rightarrow> bool" where
  "has_subscriber h \<longleftrightarrow>
     (case ih_reauthorizer h \<bind> ra_subscriber of None \<Rightarrow> False | Some n \<Rightarrow> ew_bRegister n)"

definition linked :: "init_handler list \<Rightarrow> world \<Rightarrow> bool" where
  "linked hs w \<longleftrightarrow>
     length hs \<le> 1 \<and> (O_Worker \<in> set (listeners w) \<longrightarrow> (\<exists>h \<in> set hs. has_subscriber h))"

lemma client_listeners: "client_same w w' \<Longrightarrow> listeners w' = listeners w"
  by (auto simp: client_same_def listeners_def split: option.splits)

lemma listeners_simps [simp]:
  "listeners (delete_event e w) = listeners w" "listeners (delete_event_opt ev w) = listeners w"
  "listeners (InitStateChange s r w) = listeners w"
  by (simp_all add: delete_event_def delete_event_opt_def InitStateChange_def listeners_def Let_def
      split: option.split)

lemma linked_simps:
  "linked [] w \<longleftrightarrow> O_Worker \<notin> set (listeners w)"
  "linked [h] w \<longleftrightarrow> (O_Worker \<in> set (listeners w) \<longrightarrow> has_subscriber h)"
  by (simp_all add: linked_def)

lemma linked_cases:
  assumes "linked hs w"
  obtains "hs = []" | h where "hs = [h]"
  using assms by (cases hs; cases "tl hs") (auto simp: linked_def)

lemma has_subscriber_cong: "ih_reauthorizer h' = ih_reauthorizer h \<Longrightarrow> has_subscriber h' = has_subscriber h"
  by (simp add: has_subscriber_def)

lemma linked_cong:
  "linked [h] w \<Longrightarrow> listeners w' = listeners w \<Longrightarrow> ih_reauthorizer h' = ih_reauthorizer h \<Longrightarrow> linked [h'] w'"
  using has_subscriber_cong [of h' h] by (simp add: linked_simps)

text \<open>Deleting the worker, or the handler that owns it, ends the callbacks.\<close>

lemma delete_opt_unlinks:
  assumes "linked [h] w" and "delete_reauthorizer_opt h w = (h', w')"
  shows "O_Worker \<notin> set (listeners w')" and "ih_reauthorizer h' = None" and "ih_item h' = ih_item h"
  using assms
  by (auto simp: linked_simps delete_reauthorizer_opt_def delete_reauthorizer_def listeners_def
      delete_EnableCallEventsWorker_def removeMessageHandler_def has_subscriber_def
      split: option.splits if_splits)

lemma delete_handler_unlinks:
  assumes "linked [h] w" shows "linked [] (op_deleteHandler init_ops h w)"
  using delete_opt_unlinks(1) [OF assms]
  by (cases "delete_reauthorizer_opt h w") (simp add: init_ops_def delete_init_handler_def linked_simps)

lemma ih_assign_linked:
  "ih_assignNewState s h w = (h', w') \<Longrightarrow> linked [h] w \<Longrightarrow> linked [h'] w'"
  by (auto simp: ih_assignNewState_eq intro: linked_cong)

lemma reauthorizer_kept:
  "Init_IsYourEvent h e w = Some (b, h', w') \<Longrightarrow> ih_reauthorizer h' = ih_reauthorizer h"
  unfolding Init_IsYourEvent_def Init_preLogin_def Init_authorizing_def Init_enabling_def
  by (auto simp: bind_eq_Some_conv ih_assignNewState_eq Let_def split: if_splits option.splits prod.splits)

lemma Init_IsYourEvent_linked:
  "Init_IsYourEvent h e w = Some (b, h', w') \<Longrightarrow> linked [h] w \<Longrightarrow> linked [h'] w'"
  using client_listeners [OF client_Init_IsYourEvent] reauthorizer_kept linked_cong by blast

lemma subscribe_listeners:
  assumes "EnableCallEventsWorker_Execute x n w = Some (n', w')"
  shows "ew_bRegister n'"
  using assms by (auto simp: EnableCallEventsWorker_Execute_def Let_def bind_eq_Some_conv)

lemma IsComplete_linked:
  assumes "ReAuthorize_IsComplete r w = Some (b, r', w')" and "linked [h] w" and "ih_reauthorizer h = Some r"
  shows "linked [h\<lparr>ih_reauthorizer := Some r'\<rparr>] w'"
proof -
  have sub: "O_Worker \<in> set (listeners w) \<Longrightarrow> \<exists>n. ra_subscriber r = Some n \<and> ew_bRegister n"
    using assms(2,3) by (auto simp: linked_simps has_subscriber_def split: option.splits)
  have del: "O_Worker \<notin> set (listeners (delete_EnableCallEventsWorker n w))" if "ra_subscriber r = Some n" for n
    using sub that by (auto simp: delete_EnableCallEventsWorker_def listeners_def removeMessageHandler_def
        split: option.splits)
  show ?thesis
    using assms(1) sub
    by (auto simp: ReAuthorize_IsComplete_def Let_def bind_eq_Some_conv linked_simps has_subscriber_def
        split: if_splits prod.splits dest: del subscribe_listeners)
qed

lemma Execute_linked:
  assumes "ReAuthorize_Execute r w = Some (r', w')" and "linked [h] w" and "ih_reauthorizer h = None"
  shows "linked [h\<lparr>ih_reauthorizer := Some r'\<rparr>] w'"
proof -
  have "client_same w w'"
    using assms(1)
    by (auto simp: ReAuthorize_Execute_def AuthorizeWorker_Execute_def Let_def bind_eq_Some_conv
        split: prod.splits dest!: client_requests(1,2) intro: client_same_trans)
  from client_listeners [OF this] assms(2,3) show ?thesis by (simp add: linked_simps has_subscriber_def)
qed


lemma unlinked_linked: "O_Worker \<notin> set (listeners w) \<Longrightarrow> linked [h] w"
  by (simp add: linked_simps)

lemma handleReAuthorize_linked:
  assumes "handleReAuthorize h w = Some (b, h', w')" and "linked [h] w"
  shows "linked [h'] w'"
proof (cases "ih_reauthorizer h")
  case None
  with assms obtain r' where "ReAuthorize_Execute (new_ReAuthorizeSubscribeWorker w) w = Some (r', w')"
    "h' = h\<lparr>ih_reauthorizer := Some r'\<rparr>" by (auto simp: handleReAuthorize_def bind_eq_Some_conv)
  with Execute_linked [OF _ assms(2) None] show ?thesis by blast
next
  case (Some r)
  with assms obtain c r1 w1 where c: "ReAuthorize_IsComplete r w = Some (c, r1, w1)"
    by (auto simp: handleReAuthorize_def bind_eq_Some_conv)
  from IsComplete_linked [OF c assms(2) Some] have l: "linked [h\<lparr>ih_reauthorizer := Some r1\<rparr>] w1" .
  have drop: "linked [h3] w3" if "delete_reauthorizer_opt h2 w2 = (h3, w3)"
    "listeners w2 = listeners w1" "ih_reauthorizer h2 = Some r1" for h2 h3 w2 w3
    using delete_opt_unlinks(1) [OF _ that(1)] linked_cong [OF l that(2)] that(3) unlinked_linked by simp
  from assms(1) Some c l show ?thesis
    by (auto simp: handleReAuthorize_def Let_def ih_assignNewState_eq split: if_splits prod.splits intro: drop)
qed

lemma Ping_listeners [simp]: "listeners (Ping w) = listeners w"
  using client_listeners [OF client_requests(8)] .

lemma check_init_timeouts_linked:
  "check_init_timeouts ss h w = (b, h', w') \<Longrightarrow> linked [h] w \<Longrightarrow> linked [h'] w'"
  unfolding check_init_timeouts_eq by (auto split: if_splits intro: ih_assign_linked)

lemma Init_Poll_linked:
  assumes "Init_PollStateHandler h w = Some (b, h', w')" and "linked [h] w"
  shows "linked [h'] w'"
proof -
  obtain ok h1 w1 where 1: "(if ih_state h = IS_OK \<and> IsExpired (ih_authTO h) (w_clock w) then handleReAuthorize h w
        else Some (True, h, w)) = Some (ok, h1, w1)"
    using assms(1) by (auto simp: Init_PollStateHandler_def bind_eq_Some_conv)
  then have l: "linked [h1] w1" using assms(2) by (auto split: if_splits intro: handleReAuthorize_linked)
  then have l2: "linked [h1\<lparr>ih_ping := t\<rparr>] (Ping w1)" for t by (auto intro: linked_cong)
  from assms(1) 1 l show ?thesis
    by (auto simp: Init_PollStateHandler_def Let_def simp del: check_init_timeouts.simps split: if_splits
        intro: check_init_timeouts_linked [OF _ l2] check_init_timeouts_linked)
qed

section \<open>The init machine keeps them linked\<close>

lemma OnStateChange_listeners [simp]: "listeners (OnStateChange init_ops ns h r w) = listeners w"
proof -
  have "listeners (foldl (\<lambda>w n. op_StateChange init_ops n s d r w) w ns) = listeners w" for s d
    by (induction ns arbitrary: w) (simp_all add: init_ops_def)
  then show ?thesis by (simp add: OnStateChange_def)
qed

lemma notified_linked: "linked hs w \<Longrightarrow> linked hs (OnStateChange init_ops ns h r w)"
  by (simp add: linked_def)

lemma IsStillExist_linked:
  assumes "Init_IsStillExist h w = (b, h', w')" and "linked [h] w"
  shows "linked (if b then [h'] else []) w'" and "b \<Longrightarrow> h' = h \<and> w' = w" and "linked [h'] w'"
  using assms delete_opt_unlinks(1) [OF assms(2)]
  by (auto simp: Init_IsStillExist_def linked_simps split: if_splits prod.splits)

lemma checkExist_linked:
  assumes "checkExist init_ops ns hs w = (hs', w')" and "linked hs w"
  shows "linked hs' w'"
  using assms(2)
proof (cases rule: linked_cases)
  case 1
  with assms show ?thesis by simp
next
  case (2 h)
  obtain b h1 w1 where e: "Init_IsStillExist h w = (b, h1, w1)" by (cases "Init_IsStillExist h w")
  note l = IsStillExist_linked [OF e]
  have d: "linked [] (op_deleteHandler init_ops h1 (OnStateChange init_ops ns h1 RemovedHandler w1))"
    using delete_handler_unlinks [OF notified_linked [OF l(3)]] 2 assms(2) by blast
  have y: "op_IsStillExist init_ops h w = (b, h1, w1)" using e by (simp add: init_ops_def)
  from 2 assms y l d show ?thesis by (cases b) (auto simp: linked_simps)
qed

lemma checkStateHandlersExist_linked:
  "checkStateHandlersExist init_ops m w = (m', w') \<Longrightarrow> linked (sm_handlers m) w \<Longrightarrow> linked (sm_handlers m') w'"
  by (auto simp: checkStateHandlersExist_def split: prod.splits dest: checkExist_linked)

lemma offerEvent_linked:
  assumes "offerEvent init_ops ns e hs w = Some (b, hs', w')" and "linked hs w"
  shows "linked hs' w'"
  using assms(2)
proof (cases rule: linked_cases)
  case 1
  with assms show ?thesis by simp
next
  case (2 h)
  with assms obtain c h1 w1 where y: "Init_IsYourEvent h e w = Some (c, h1, w1)"
    by (auto simp: bind_eq_Some_conv init_ops_def)
  from Init_IsYourEvent_linked [OF y] 2 assms(2) have "linked [h1] w1" by simp
  with 2 assms y notified_linked show ?thesis
    by (cases c) (auto simp: init_ops_def [THEN arg_cong, of op_IsYourEvent])
qed

lemma pollLoop_linked:
  assumes "pollLoop init_ops ns hs w = Some (hs', w')" and "linked hs w"
  shows "linked hs' w'"
  using assms(2)
proof (cases rule: linked_cases)
  case 1
  with assms show ?thesis by simp
next
  case (2 h)
  with assms obtain c h1 w1 where y: "Init_PollStateHandler h w = Some (c, h1, w1)"
    by (auto simp: bind_eq_Some_conv init_ops_def)
  from Init_Poll_linked [OF y] 2 assms(2) have "linked [h1] w1" by simp
  with 2 assms y notified_linked show ?thesis
    by (cases c) (auto simp: init_ops_def [THEN arg_cong, of op_PollStateHandler])
qed


lemma PollStateHandlers_linked:
  "PollStateHandlers init_ops m w = Some (m', w') \<Longrightarrow> linked (sm_handlers m) w \<Longrightarrow> linked (sm_handlers m') w'"
  by (auto simp: PollStateHandlers_def bind_eq_Some_conv
      dest!: pollLoop_linked intro: checkStateHandlersExist_linked)

lemma Init_Unknown [simp]: "op_UnknownEvent init_ops e w = (None, w)"
  by (simp add: init_ops_def Init_UnknownEvent_def)

lemma SignalEvent_linked:
  assumes "SignalEvent init_ops (Some e) d m w = Some (b, m', w')" and "linked (sm_handlers m) w"
  shows "linked (sm_handlers m') w'"
proof -
  obtain mine hs w1 where o: "offerEvent init_ops (sm_notifys m) e (sm_handlers m) w = Some (mine, hs, w1)"
    using assms by (auto simp: SignalEvent_def bind_eq_Some_conv)
  from offerEvent_linked [OF o assms(2)] have l: "linked hs w1" .
  then have "linked hs (op_deleteEvent init_ops e w1)" by (simp add: linked_def init_ops_def)
  with assms o l show ?thesis
    by (cases mine; cases d)
      (auto simp: SignalEvent_def Let_def split: prod.splits dest!: checkStateHandlersExist_linked)
qed

lemma signalAll_linked:
  "signalAll init_ops es m w = Some (m', w') \<Longrightarrow> linked (sm_handlers m) w \<Longrightarrow> linked (sm_handlers m') w'"
  by (induction es arbitrary: m w) (auto simp: bind_eq_Some_conv dest: SignalEvent_linked)

text \<open>A queued init handler is fresh: it has no worker.\<close>

lemma requestLoop_linked:
  assumes "requestLoop init_ops hs m w = Some (m', w')" and "linked (sm_handlers m) w"
    and "length (sm_handlers m) + length hs \<le> 1"
  shows "linked (sm_handlers m') w'"
proof (cases hs)
  case Nil
  with assms show ?thesis by simp
next
  case (Cons h rest)
  with assms(3) have n: "rest = []" "sm_handlers m = []" by auto
  with assms(2) have u: "linked [h] w" by (simp add: linked_simps)
  obtain b h1 w1 where e: "Init_IsStillExist h w = (b, h1, w1)" by (cases "Init_IsStillExist h w")
  note l = IsStillExist_linked [OF e u]
  from delete_handler_unlinks [OF l(3)] assms Cons n e l show ?thesis
    by (cases b) (auto simp: init_ops_def AddStateHandler_def)
qed

lemma BasePoll_linked:
  assumes "BasePollStateHandlers init_ops m w = Some (m', w')" and "linked (sm_handlers m) w"
    and "length (sm_handlers m) + length (bm_handlerRequests m) \<le> 1"
  shows "linked (sm_handlers m') w'"
  using assms(1)
proof (rule BasePollE)
  fix reqs m1 m2 w2 evs m3 m4 w4
  assume q: "getRequests m = (reqs, m1)" and r: "requestLoop init_ops reqs m1 w = Some (m2, w2)"
    and v: "getEvents m2 = (evs, m3)" and s: "signalAll init_ops evs m3 w2 = Some (m4, w4)"
    and p: "PollStateHandlers init_ops m4 w4 = Some (m', w')"
  have "linked (sm_handlers m2) w2"
    using requestLoop_linked [OF r] q assms(2,3) by (auto simp: getRequests_def split: if_splits)
  moreover have "sm_handlers m3 = sm_handlers m2" using v by (auto simp: getEvents_def split: if_splits)
  ultimately show ?thesis using PollStateHandlers_linked [OF p signalAll_linked [OF s]] by simp
qed

text \<open>One poll takes all requests that were queued.\<close>

lemma BasePoll_requests:
  assumes "BasePollStateHandlers ops m w = Some (m', w')"
    and "bm_requestChange m = word_of_nat (length (bm_handlerRequests m))" and "length (bm_handlerRequests m) \<le> 1"
  shows "bm_handlerRequests m' = [] \<and> bm_requestChange m' = 0"
  using assms(1)
proof (rule BasePollE)
  fix reqs m1 m2 w2 evs m3 m4 w4
  assume q: "getRequests m = (reqs, m1)" and v: "getEvents m2 = (evs, m3)"
    and r: "requestLoop ops reqs m1 w = Some (m2, w2)" and s: "signalAll ops evs m3 w2 = Some (m4, w4)"
    and p: "PollStateHandlers ops m4 w4 = Some (m', w')"
  have "bm_handlerRequests m1 = [] \<and> bm_requestChange m1 = 0"
    using q assms(2,3) by (cases "bm_handlerRequests m") (auto simp: getRequests_def)
  with requestLoop_more [OF r] signalAll_more [OF s] PollStateHandlers_more [OF p] v
  show ?thesis by (auto simp: getEvents_def split: if_splits)
qed

lemma linked_length: "linked hs w \<Longrightarrow> length hs \<le> 1"
  by (simp add: linked_def)

section \<open>The engine's invariant\<close>

definition engine_inv :: "engine \<Rightarrow> bool" where
  "engine_inv s \<longleftrightarrow>
     (\<forall>h \<in> set (sm_handlers (en_call s)). call_inv h) \<and>
     (\<forall>h \<in> set (bm_handlerRequests (en_call s)). call_requested h) \<and>
     (\<forall>h \<in> set (sm_handlers (en_init s)). init_inv h \<and> ih_state h \<noteq> IS_ShutDown) \<and>
     (\<forall>h \<in> set (bm_handlerRequests (en_init s)). init_inv h) \<and>
     (\<forall>e \<in> set (bm_events (en_init s)). e = ShutdownRequestEvent) \<and>
     bm_requestChange (en_init s) = word_of_nat (length (bm_handlerRequests (en_init s))) \<and>
     length (sm_handlers (en_init s)) + length (bm_handlerRequests (en_init s)) \<le> 1 \<and>
     linked (sm_handlers (en_init s)) (en_world s) \<and> engine_ok (en_world s)"

text \<open>The handlers a machine keeps are those that still exist.\<close>

lemma checkExist_alive:
  "checkExist init_ops ns hs w = (hs', w') \<Longrightarrow> \<forall>h \<in> set hs'. ih_state h \<noteq> IS_ShutDown"
proof (induction hs arbitrary: w hs' w')
  case (Cons h hs)
  obtain b h1 w1 where e: "op_IsStillExist init_ops h w = (b, h1, w1)" by (cases "op_IsStillExist init_ops h w")
  then have "b \<Longrightarrow> ih_state h1 \<noteq> IS_ShutDown"
    by (auto simp: init_ops_def Init_IsStillExist_def split: if_splits prod.splits)
  with Cons.prems e show ?case by (cases b) (auto split: prod.splits dest!: Cons.IH)
qed simp

lemma alive:
  "checkStateHandlersExist init_ops m w = (m', w') \<Longrightarrow> \<forall>h \<in> set (sm_handlers m'). ih_state h \<noteq> IS_ShutDown"
  by (auto simp: checkStateHandlersExist_def split: prod.splits dest: checkExist_alive)

lemma SignalEvent_alive:
  "SignalEvent init_ops (Some e) d m w = Some (b, m', w') \<Longrightarrow> \<forall>h \<in> set (sm_handlers m'). ih_state h \<noteq> IS_ShutDown"
  by (auto simp: SignalEvent_def Let_def bind_eq_Some_conv split: prod.splits dest: alive)

lemma BasePoll_alive:
  assumes "BasePollStateHandlers init_ops m w = Some (m', w')"
  shows "\<forall>h \<in> set (sm_handlers m'). ih_state h \<noteq> IS_ShutDown"
  using assms
  by (rule BasePollE) (auto simp: PollStateHandlers_def bind_eq_Some_conv dest!: alive)

lemma SignalEvent_empty:
  "SignalEvent init_ops (Some e) d m w = Some (b, m', w') \<Longrightarrow> sm_handlers m = [] \<Longrightarrow> sm_handlers m' = []"
  by (auto simp: SignalEvent_def Let_def checkStateHandlersExist_def)

lemma engine_ok_client: "client_same w w' \<Longrightarrow> engine_ok w \<Longrightarrow> engine_ok w'"
  by (auto simp: client_frame_defs engine_ok_def engine_up_def)

lemma linked_client: "client_same w w' \<Longrightarrow> linked hs w \<Longrightarrow> linked hs w'"
  by (simp add: linked_def client_listeners)

lemma engine_ok_up: "engine_ok w \<Longrightarrow> engine_up w"
  by (simp add: engine_ok_def)

section \<open>Polling and signalling\<close>

lemma onConnectLoop_inv:
  assumes "engine_inv s"
  shows "\<exists>s'. onConnectLoop s = Some (True, s') \<and> engine_inv s'"
proof -
  have "\<not> getXmppIqResultEvent ShutdownRequestEvent" by code_simp
  then have safe: "\<forall>e \<in> set (bm_events (en_init s)). \<forall>h. init_inv h \<longrightarrow> init_safe h e"
    using assms by (auto simp: engine_inv_def init_safe_def)
  from init_safe.BasePoll_ok [OF _ _ _ safe, of "en_world s"] assms obtain im w1 where
    i: "BasePollStateHandlers init_ops (en_init s) (en_world s) = Some (im, w1)"
      "init_safe.machine_ok im" "engine_ok w1"
      "set (bm_handlerRequests im) \<subseteq> set (bm_handlerRequests (en_init s))"
      "set (bm_events im) \<subseteq> set (bm_events (en_init s))"
    by (auto simp: engine_inv_def init_safe.machine_ok_def)
  from call_safe.BasePoll_ok [of "en_call s" w1] engine_ok_up [OF i(3)] assms obtain cm w2 where
    c: "BasePollStateHandlers call_ops (en_call s) w1 = Some (cm, w2)" "call_safe.machine_ok cm"
      "set (bm_handlerRequests cm) \<subseteq> set (bm_handlerRequests (en_call s))"
    by (auto simp: engine_inv_def call_safe.machine_ok_def)
  note k = call_frame.BasePoll_keep [OF c(1)]
  have "linked (sm_handlers im) w1" using BasePoll_linked [OF i(1)] assms by (simp add: engine_inv_def)
  note l = linked_client [OF k this] linked_length [OF this]
  have r: "bm_handlerRequests im = [] \<and> bm_requestChange im = 0"
    using BasePoll_requests [OF i(1)] assms by (simp add: engine_inv_def)
  have "engine_inv (s\<lparr>en_init := im, en_call := cm, en_world := w2\<rparr>)"
    using assms i c l r engine_ok_client [OF k] BasePoll_alive [OF i(1)]
    by (auto simp: engine_inv_def init_safe.machine_ok_def call_safe.machine_ok_def)
  with i(1) c(1) show ?thesis by (simp add: onConnectLoop_def)
qed

lemma signalEvent_inv:
  assumes "engine_inv s" and "\<forall>h \<in> set (sm_handlers (en_init s)). init_safe h e"
  shows "\<exists>s'. signalEvent e s = Some s' \<and> engine_inv s'"
proof -
  from init_safe.SignalEvent_ok [OF _ _ assms(2), of "en_world s" False] assms(1) obtain hi im w1 where
    i: "SignalEvent init_ops (Some e) False (en_init s) (en_world s) = Some (hi, im, w1)"
      "init_safe.machine_ok im" "engine_ok w1"
    by (auto simp: engine_inv_def init_safe.machine_ok_def)
  from call_safe.SignalEvent_ok [of "en_call s" w1 e False] engine_ok_up [OF i(3)] assms(1) obtain hc cm w2 where
    c: "SignalEvent call_ops (Some e) False (en_call s) w1 = Some (hc, cm, w2)" "call_safe.machine_ok cm"
    by (auto simp: engine_inv_def call_safe.machine_ok_def)
  note k = call_frame.SignalEvent_keep [OF c(1)]
  have l: "linked (sm_handlers im) w1" using SignalEvent_linked [OF i(1)] assms by (simp add: engine_inv_def)
  have n: "length (sm_handlers im) + length (bm_handlerRequests (en_init s)) \<le> 1"
    using linked_length [OF l] SignalEvent_empty [OF i(1)] assms(1)
    by (cases "sm_handlers (en_init s)") (auto simp: engine_inv_def)
  from SignalEvent_more [OF i(1)] SignalEvent_more [OF c(1)]
  have m: "bm_handlerRequests im = bm_handlerRequests (en_init s)" "bm_events im = bm_events (en_init s)"
    "bm_requestChange im = bm_requestChange (en_init s)" "bm_handlerRequests cm = bm_handlerRequests (en_call s)"
    by auto
  have 1: "engine_inv (s\<lparr>en_init := im, en_world := w1\<rparr>)"
    using assms(1) i l n m SignalEvent_alive [OF i(1)] by (auto simp: engine_inv_def init_safe.machine_ok_def)
  have 2: "engine_inv (s\<lparr>en_init := im, en_call := cm, en_world := w2\<rparr>)"
    using 1 c(2) m linked_client [OF k] engine_ok_client [OF k] by (auto simp: engine_inv_def call_safe.machine_ok_def)
  have 3: "engine_inv (s\<lparr>en_init := im, en_call := cm, en_world := delete_event e w2\<rparr>)"
    using 2 linked_client [OF client_delete(1)] by (auto simp: engine_inv_def)
  from 1 2 3 i(1) c(1) show ?thesis by (cases hi; cases hc) (auto simp: signalEvent_def Let_def)
qed

end
