(* ===== verification/EngineProtocol.thy ===== *)
theory EngineProtocol
  imports EngineInv
begin

text \<open>
  The properties of the engine as a whole: every operation of a running engine, whatever the other
  threads queue and the server sends within its contract, returns and keeps the invariant of
  \<open>EngineInv\<close>; the account of its events; shutdown, cleanup and the end of the polling loop.
\<close>

section \<open>Inbound messages\<close>

lemma msg_event_types:
  "msgFactory m = Some (Some e) \<Longrightarrow> \<not> getXmppIqResultEvent e"
  by (auto simp: SubscribedEvent_checkEvent_def ActiveCallEvent_checkEvent_def
      RetractCallEvent_checkEvent_def getXmppIqResultEvent_def
      split: option.splits if_splits prod.splits dest!: msgFactory_cases new_event_Some)

lemma connect_event_types: "\<not> getXmppIqResultEvent (connectFactory b)"
  by (simp add: connectFactory_def OnConnectEvent_def OnDisconnectEvent_def simple_event_def
      getXmppIqResultEvent_def)

lemma init_safe_other: "\<not> getXmppIqResultEvent e \<Longrightarrow> init_safe h e"
  by (simp add: init_safe_def)

lemma not_shutdown:
  assumes "Init_IsYourEvent h e w = Some (b, h', w')" and "\<not> getXmppIqResultEvent e" and "ih_state h \<noteq> IS_ShutDown"
  shows "ih_state h' \<noteq> IS_ShutDown"
  using assms unfolding Init_IsYourEvent_def Init_preLogin_def Init_authorizing_def Init_enabling_def
  by (auto simp: bind_eq_Some_conv ih_assignNewState_eq Let_def split: if_splits option.splits prod.splits)

text \<open>A machine with one handler keeps it unless the event shuts it down.\<close>

lemma SignalEvent_single:
  assumes "SignalEvent init_ops (Some e) d m w = Some (b, m', w')" and "sm_handlers m = [h]"
  obtains c h1 w1 where "Init_IsYourEvent h e w = Some (c, h1, w1)"
    and "ih_state h1 \<noteq> IS_ShutDown \<Longrightarrow> sm_handlers m' = [h1]"
proof -
  obtain c h1 w1 where y: "Init_IsYourEvent h e w = Some (c, h1, w1)"
    using assms by (auto simp: SignalEvent_def bind_eq_Some_conv init_ops_def)
  have k: "checkStateHandlersExist init_ops (m\<lparr>sm_handlers := [h1]\<rparr>) v = (m\<lparr>sm_handlers := [h1]\<rparr>, v)"
    if "ih_state h1 \<noteq> IS_ShutDown" for v
    using that by (simp add: checkStateHandlersExist_def init_ops_def Init_IsStillExist_def)
  have y': "op_IsYourEvent init_ops h e w = Some (c, h1, w1)" using y by (simp add: init_ops_def)
  have "sm_handlers m' = [h1]" if "ih_state h1 \<noteq> IS_ShutDown"
    using assms y' k [OF that] by (cases c) (auto simp: SignalEvent_def Let_def)
  with y show ?thesis by (rule that)
qed

text \<open>An event other than an IQ result leaves the handler and its worker in place.\<close>

lemma SignalEvent_keeps_worker:
  assumes "SignalEvent init_ops (Some e) d m w = Some (b, m', w')" and "sm_handlers m = [h]"
    and "\<not> getXmppIqResultEvent e" and "ih_state h \<noteq> IS_ShutDown"
  shows "\<exists>h'. sm_handlers m' = [h'] \<and> ih_reauthorizer h' = ih_reauthorizer h"
  using SignalEvent_single [OF assms(1,2)] not_shutdown [OF _ assms(3,4)] reauthorizer_kept by metis

lemma signalEvent_init:
  assumes "signalEvent e s = Some s'"
  obtains b w1 where "SignalEvent init_ops (Some e) False (en_init s) (en_world s) = Some (b, en_init s', w1)"
proof -
  obtain b im w1 where i: "SignalEvent init_ops (Some e) False (en_init s) (en_world s) = Some (b, im, w1)"
    using assms by (auto simp: signalEvent_def bind_eq_Some_conv)
  with assms have "en_init s' = im"
    by (auto simp: signalEvent_def Let_def bind_eq_Some_conv split: if_splits)
  with i that show ?thesis by blast
qed

lemma signalEvent_keeps_worker:
  assumes "signalEvent e s = Some s'" and "sm_handlers (en_init s) = [h]"
    and "\<not> getXmppIqResultEvent e" and "ih_state h \<noteq> IS_ShutDown"
  shows "\<exists>h'. sm_handlers (en_init s') = [h'] \<and> ih_reauthorizer h' = ih_reauthorizer h"
  using signalEvent_init [OF assms(1)] SignalEvent_keeps_worker [OF _ assms(2-4)] by metis

definition worker_alive :: "engine \<Rightarrow> bool" where
  "worker_alive s \<longleftrightarrow> (\<exists>h \<in> set (sm_handlers (en_init s)). has_subscriber h)"

lemma engine_inv_single:
  assumes "engine_inv s" and "h \<in> set (sm_handlers (en_init s))"
  shows "sm_handlers (en_init s) = [h]" and "ih_state h \<noteq> IS_ShutDown"
  using assms by (auto simp: engine_inv_def linked_def length_Suc_conv le_Suc_eq)

lemma handleMessage_inv:
  assumes "engine_inv s" and "msgFactory m \<noteq> None"
  shows "\<exists>s'. handleMessage m s = Some s' \<and> engine_inv s' \<and> (worker_alive s \<longrightarrow> worker_alive s')"
proof -
  obtain evt where f: "msgFactory m = Some evt" using assms(2) by blast
  show ?thesis
  proof (cases evt)
    case None
    with f assms(1) show ?thesis by (simp add: handleMessage_def)
  next
    case (Some e)
    with f have t: "\<not> getXmppIqResultEvent e" using msg_event_types by blast
    from signalEvent_inv [OF assms(1)] init_safe_other [OF t] obtain s' where
      s: "signalEvent e s = Some s'" "engine_inv s'" by blast
    have "worker_alive s'" if w: "worker_alive s"
    proof -
      from w obtain h where h: "h \<in> set (sm_handlers (en_init s))" "has_subscriber h"
        by (auto simp: worker_alive_def)
      note single = engine_inv_single [OF assms(1) h(1)]
      from signalEvent_keeps_worker [OF s(1) single(1) t single(2)] obtain h' where
        "sm_handlers (en_init s') = [h']" "ih_reauthorizer h' = ih_reauthorizer h" by blast
      with h(2) show ?thesis by (simp add: worker_alive_def has_subscriber_def)
    qed
    with f Some s show ?thesis by (simp add: handleMessage_def)
  qed
qed

lemma worker_message_inv:
  assumes "engine_inv s" and "msgFactory m \<noteq> None" and "worker_alive s"
  shows "\<exists>hs. worker_handleMessage m (sm_handlers (en_init s)) = Some hs \<and>
     engine_inv (set_init_handlers hs s) \<and> worker_alive (set_init_handlers hs s)"
proof -
  obtain h where h: "h \<in> set (sm_handlers (en_init s))" "has_subscriber h"
    using assms(3) by (auto simp: worker_alive_def)
  note single = engine_inv_single [OF assms(1) h(1)]
  obtain r n where r: "ih_reauthorizer h = Some r" "ra_subscriber r = Some n" "ew_bRegister n"
    using h(2) by (auto simp: has_subscriber_def split: option.splits bind_splits)
  obtain evt where f: "msgFactory m = Some evt" using assms(2) by blast
  then have "\<exists>n'. EnableCallEventsWorker_handleMessage m n = Some n' \<and> ew_bRegister n'"
    using r(3) by (cases "evt \<bind> getPubSubSubscribedEvent") (auto simp: EnableCallEventsWorker_handleMessage_def Let_def)
  then obtain n' where n: "EnableCallEventsWorker_handleMessage m n = Some n'" "ew_bRegister n'" by blast
  let ?h = "h\<lparr>ih_reauthorizer := Some (r\<lparr>ra_subscriber := Some n'\<rparr>)\<rparr>"
  have w: "worker_handleMessage m (sm_handlers (en_init s)) = Some [?h]"
    using single(1) r n(1) by simp
  have s: "has_subscriber ?h" using n(2) by (simp add: has_subscriber_def)
  have i: "init_inv h" using assms(1) h(1) by (simp add: engine_inv_def)
  then have "init_inv ?h" using r by (auto simp: init_inv_def ra_ok_def)
  with assms(1) single s have "engine_inv (set_init_handlers [?h] s)"
    by (auto simp: engine_inv_def set_init_handlers_def linked_simps)
  moreover have "worker_alive (set_init_handlers [?h] s)" using s by (simp add: worker_alive_def set_init_handlers_def)
  ultimately show ?thesis using w by blast
qed

lemma notifyMessages_inv:
  assumes "engine_inv s" and "msgFactory m \<noteq> None" and "O_Worker \<in> set mhs \<longrightarrow> worker_alive s"
  shows "\<exists>s'. notifyMessages mhs m s = Some s' \<and> engine_inv s'"
  using assms(1,3)
proof (induction mhs arbitrary: s)
  case (Cons mh mhs)
  show ?case
  proof (cases mh)
    case O_OnSipXmpp
    obtain s1 where "handleMessage m s = Some s1" "engine_inv s1" "worker_alive s \<longrightarrow> worker_alive s1"
      using handleMessage_inv [OF Cons.prems(1) assms(2)] by blast
    with O_OnSipXmpp Cons.IH [of s1] Cons.prems(2) show ?thesis by auto
  next
    case O_Worker
    then obtain hs where "worker_handleMessage m (sm_handlers (en_init s)) = Some hs"
      "engine_inv (set_init_handlers hs s)" "worker_alive (set_init_handlers hs s)"
      using worker_message_inv [OF Cons.prems(1) assms(2)] Cons.prems(2) by auto
    with O_Worker Cons.IH [of "set_init_handlers hs s"] show ?thesis by auto
  next
    case O_PubSubManager
    with Cons.IH [OF Cons.prems(1)] Cons.prems(2) show ?thesis by auto
  qed
qed simp

lemma engine_inv_gloox: "engine_inv s \<Longrightarrow> \<exists>g. w_gloox (en_world s) = Some g"
  by (auto simp: engine_inv_def engine_ok_def engine_up_def)

lemma notifyMessageHandlers_inv:
  assumes "engine_inv s" and "msgFactory m \<noteq> None"
  shows "\<exists>s'. notifyMessageHandlers m s = Some s' \<and> engine_inv s'"
proof -
  obtain g where g: "w_gloox (en_world s) = Some g" using engine_inv_gloox [OF assms(1)] by blast
  have "O_Worker \<in> set (gl_messageHandlers g) \<longrightarrow> worker_alive s"
    using assms(1) g by (auto simp: engine_inv_def linked_def listeners_def worker_alive_def)
  from notifyMessages_inv [OF assms this] g show ?thesis by (simp add: notifyMessageHandlers_def)
qed


section \<open>Inbound replies\<close>

text \<open>
  What the engine relies on when a tracked reply arrives: the factory does not fault on it, it is
  not the plain reply that faults the init handler, and the worker it was tracked for still
  exists.
\<close>

definition reply_ok :: "iq \<Rightarrow> engine \<Rightarrow> bool" where
  "reply_ok i s \<longleftrightarrow>
     (case w_gloox (en_world s) of
        None \<Rightarrow> True
      | Some g \<Rightarrow>
          (case gl_tracked g (iq_id i) of
             None \<Rightarrow> True
           | Some (O_OnSipXmpp, c) \<Rightarrow>
               (case iqFactory i c of
                  None \<Rightarrow> False
                | Some None \<Rightarrow> True
                | Some (Some e) \<Rightarrow> (\<forall>h \<in> set (sm_handlers (en_init s)). init_safe h e))
           | Some (O_Worker, c) \<Rightarrow>
               iqFactory i c \<noteq> None \<and>
               (\<exists>h \<in> set (sm_handlers (en_init s)). ih_reauthorizer h \<bind> ra_authorizer \<noteq> None)
           | Some (O_PubSubManager, c) \<Rightarrow> True))"

lemma worker_reply_inv:
  assumes "engine_inv s" and "iqFactory i c \<noteq> None"
    and "\<exists>h \<in> set (sm_handlers (en_init s)). ih_reauthorizer h \<bind> ra_authorizer \<noteq> None"
  shows "\<exists>hs. worker_handleIqID i c (sm_handlers (en_init s)) = Some hs \<and> engine_inv (set_init_handlers hs s)"
proof -
  obtain h where h: "h \<in> set (sm_handlers (en_init s))" "ih_reauthorizer h \<bind> ra_authorizer \<noteq> None"
    using assms(3) by blast
  note single = engine_inv_single [OF assms(1) h(1)]
  obtain r a where r: "ih_reauthorizer h = Some r" "ra_authorizer r = Some a"
    using h(2) by (cases "ih_reauthorizer h") auto
  obtain evt where f: "iqFactory i c = Some evt" using assms(2) by blast
  then have "AuthorizeWorker_handleIqID i c a \<noteq> None" by (simp add: AuthorizeWorker_handleIqID_def Let_def)
  then obtain a' where a: "AuthorizeWorker_handleIqID i c a = Some a'" by blast
  let ?h = "h\<lparr>ih_reauthorizer := Some (r\<lparr>ra_authorizer := Some a'\<rparr>)\<rparr>"
  have w: "worker_handleIqID i c (sm_handlers (en_init s)) = Some [?h]"
    using single(1) r a by simp
  have i: "init_inv h" using assms(1) h(1) by (simp add: engine_inv_def)
  then have "init_inv ?h" using r by (auto simp: init_inv_def ra_ok_def)
  moreover have "has_subscriber ?h = has_subscriber h" using r by (simp add: has_subscriber_def)
  ultimately have "engine_inv (set_init_handlers [?h] s)"
    using assms(1) single by (auto simp: engine_inv_def set_init_handlers_def linked_simps)
  with w show ?thesis by blast
qed

lemma handleIqID_inv:
  assumes "engine_inv s" and "iqFactory i c = Some evt"
    and "\<And>e. evt = Some e \<Longrightarrow> \<forall>h \<in> set (sm_handlers (en_init s)). init_safe h e"
  shows "\<exists>s'. handleIqID i c s = Some s' \<and> engine_inv s'"
  using assms signalEvent_inv [OF assms(1)] by (cases evt) (auto simp: handleIqID_def)

lemma forget_inv: "engine_inv s \<Longrightarrow> engine_inv (forget_id rid s)"
  by (auto simp: engine_inv_def forget_id_def linked_def listeners_def engine_ok_def engine_up_def
      split: option.splits)

lemma notifyIqHandlers_inv:
  assumes "engine_inv s" and "reply_ok i s"
  shows "\<exists>s'. notifyIqHandlers i s = Some s' \<and> engine_inv s'"
proof -
  obtain g where g: "w_gloox (en_world s) = Some g" using engine_inv_gloox [OF assms(1)] by blast
  show ?thesis
  proof (cases "gl_tracked g (iq_id i)")
    case None
    with g assms(1) show ?thesis by (simp add: notifyIqHandlers_def)
  next
    case (Some x)
    obtain ih c where x: "x = (ih, c)" by (cases x)
    have "\<exists>s1. (case ih of O_OnSipXmpp \<Rightarrow> handleIqID i c s
              | O_Worker \<Rightarrow> map_option (\<lambda>hs. set_init_handlers hs s) (worker_handleIqID i c (sm_handlers (en_init s)))
              | O_PubSubManager \<Rightarrow> Some s) = Some s1 \<and> engine_inv s1"
    proof (cases ih)
      case O_OnSipXmpp
      with assms(2) g Some x obtain evt where "iqFactory i c = Some evt"
        "\<And>e. evt = Some e \<Longrightarrow> \<forall>h \<in> set (sm_handlers (en_init s)). init_safe h e"
        by (auto simp: reply_ok_def split: option.splits)
      with handleIqID_inv [OF assms(1)] O_OnSipXmpp show ?thesis by auto
    next
      case O_Worker
      with assms(2) g Some x worker_reply_inv [OF assms(1), of i c] show ?thesis
        by (auto simp: reply_ok_def)
    qed (use assms(1) in auto)
    then obtain s1 where "(case ih of O_OnSipXmpp \<Rightarrow> handleIqID i c s
              | O_Worker \<Rightarrow> map_option (\<lambda>hs. set_init_handlers hs s) (worker_handleIqID i c (sm_handlers (en_init s)))
              | O_PubSubManager \<Rightarrow> Some s) = Some s1" "engine_inv s1" by blast
    with g Some x assms(1) forget_inv show ?thesis by (auto simp: notifyIqHandlers_def)
  qed
qed


section \<open>Cleanup\<close>

lemma Remove_init_ok:
  assumes "RemoveStateHandlers init_ops m w = (m', w')" and "engine_ok w"
  shows "engine_ok w' \<and> m' = m\<lparr>sm_handlers := []\<rparr>"
proof -
  have "engine_ok (foldl (\<lambda>w h. op_deleteHandler init_ops h w) w hs)" for hs
    using assms(2) by (induction hs arbitrary: w) (auto simp: init_safe.delete_handler_ok)
  with assms(1) show ?thesis by (auto simp: RemoveStateHandlers_def)
qed

lemma Remove_call_ok:
  assumes "RemoveStateHandlers call_ops m w = (m', w')" and "engine_ok w"
  shows "engine_ok w' \<and> m' = m\<lparr>sm_handlers := []\<rparr>"
  using engine_ok_client [OF call_frame.RemoveStateHandlers_keep [OF assms(1)] assms(2)] assms(1)
  by (auto simp: RemoveStateHandlers_def)

text \<open>With both machines empty an event that starts no call is only deleted.\<close>

lemma signalEvent_empty:
  assumes "sm_handlers (en_init s) = []" and "sm_handlers (en_call s) = []" and "getActiveCallEvent e = None"
  shows "signalEvent e s = Some (s\<lparr>en_world := delete_event e (en_world s)\<rparr>)"
proof -
  have i: "SignalEvent init_ops (Some e) False (en_init s) (en_world s) = Some (False, en_init s, en_world s)"
    using assms(1) by (simp add: SignalEvent_def Let_def checkStateHandlersExist_def)
  have "op_UnknownEvent call_ops e w = (None, w)" for w
    using assms(3) by (simp add: call_ops_def Call_UnknownEvent_def)
  then have c: "SignalEvent call_ops (Some e) False (en_call s) (en_world s) = Some (False, en_call s, en_world s)"
    using assms(2) by (simp add: SignalEvent_def Let_def checkStateHandlersExist_def)
  from i c show ?thesis by (simp add: signalEvent_def Let_def)
qed

lemma disconnect_unknown: "getActiveCallEvent (connectFactory b) = None"
  by (simp add: connectFactory_def OnConnectEvent_def OnDisconnectEvent_def simple_event_def getActiveCallEvent_def)

definition connected :: "world \<Rightarrow> bool" where
  "connected w \<longleftrightarrow> (case w_gloox w of None \<Rightarrow> False | Some g \<Rightarrow> gl_connected g)"

lemma AsyncCleanup_empty:
  assumes "sm_handlers (en_init s) = []" and "sm_handlers (en_call s) = []"
  shows "\<exists>s'. AsyncCleanup s = Some s' \<and> en_init s' = en_init s \<and> en_call s' = en_call s \<and>
     w_gloox (en_world s') = None \<and> w_fault (en_world s') = w_fault (en_world s) \<and>
     gone (en_world s') = gone (en_world s) + (if connected (en_world s) then {#OnDisconnectEvent#} else {#})"
proof (cases "connected (en_world s)")
  case True
  then obtain g where "w_gloox (en_world s) = Some g" "gl_connected g"
    by (auto simp: connected_def split: option.splits)
  with assms disconnect_unknown [of False] True show ?thesis
    by (simp add: AsyncCleanup_def gloox_disconnect_def onDisconnect_def signalEvent_empty)
      (simp add: connectFactory_def delete_event_def gone_def)
next
  case False
  then show ?thesis
    by (cases "w_gloox (en_world s)")
      (auto simp: AsyncCleanup_def gloox_disconnect_def connected_def gone_def)
qed

text \<open>Every event the engine knows: held by a handler of either machine, queued, or deleted.\<close>

definition engine_events :: "engine \<Rightarrow> xmpp_event multiset" where
  "engine_events s =
     (\<Sum>h\<leftarrow>sm_handlers (en_init s). init_own h) + (\<Sum>h\<leftarrow>bm_handlerRequests (en_init s). init_own h) +
     mset (bm_events (en_init s)) +
     (\<Sum>h\<leftarrow>sm_handlers (en_call s). call_own h) + (\<Sum>h\<leftarrow>bm_handlerRequests (en_call s). call_own h) +
     mset (bm_events (en_call s)) + gone (en_world s)"

definition call_part :: "call_machine \<Rightarrow> xmpp_event multiset" where
  "call_part m = (\<Sum>h\<leftarrow>sm_handlers m. call_own h) + (\<Sum>h\<leftarrow>bm_handlerRequests m. call_own h) + mset (bm_events m)"

definition init_part :: "init_machine \<Rightarrow> xmpp_event multiset" where
  "init_part m = (\<Sum>h\<leftarrow>sm_handlers m. init_own h) + (\<Sum>h\<leftarrow>bm_handlerRequests m. init_own h) + mset (bm_events m)"

lemma engine_events_parts:
  "engine_events s = init_part (en_init s) + call_part (en_call s) + gone (en_world s)"
  "init_owner.account im w = init_part im + gone w"
  "call_owner.account cm w = call_part cm + gone w"
  by (simp_all add: engine_events_def init_part_def call_part_def init_owner.account_def
      init_owner.holds_def call_owner.account_def call_owner.holds_def ac_simps)

lemma gone_foldl_delete:
  "gone (foldl (\<lambda>w h. op_deleteHandler init_ops h w) w hs) = gone w + (\<Sum>h\<leftarrow>hs. init_own h)"
  "gone (foldl (\<lambda>w h. op_deleteHandler call_ops h w) w chs) = gone w + (\<Sum>h\<leftarrow>chs. call_own h)"
  by (induction hs arbitrary: w; simp add: init_owner.delete_handler ac_simps)
    (induction chs arbitrary: w; simp add: call_owner.delete_handler ac_simps)

lemma Remove_events:
  assumes "RemoveStateHandlers init_ops (en_init s) (en_world s) = (im, w1)"
    and "RemoveStateHandlers call_ops (en_call s) w1 = (cm, w2)"
  shows "init_part im + call_part cm + gone w2 = engine_events s"
  using assms
  by (auto simp: RemoveStateHandlers_def gone_foldl_delete engine_events_parts(1) init_part_def call_part_def)


lemma Cleanup_inv:
  assumes "engine_inv s"
  shows "\<exists>s'. Cleanup s = Some s' \<and> en_init s' = (en_init s)\<lparr>sm_handlers := []\<rparr> \<and>
     en_call s' = (en_call s)\<lparr>sm_handlers := []\<rparr> \<and> w_gloox (en_world s') = None \<and> \<not> w_fault (en_world s') \<and>
     engine_events s' = engine_events s + (if connected (en_world s) then {#OnDisconnectEvent#} else {#})"
proof -
  obtain im w1 where i: "RemoveStateHandlers init_ops (en_init s) (en_world s) = (im, w1)"
    by (cases "RemoveStateHandlers init_ops (en_init s) (en_world s)")
  obtain cm w2 where c: "RemoveStateHandlers call_ops (en_call s) w1 = (cm, w2)"
    by (cases "RemoveStateHandlers call_ops (en_call s) w1")
  have "engine_ok (en_world s)" using assms by (simp add: engine_inv_def)
  from Remove_init_ok [OF i this] have im: "engine_ok w1" "im = (en_init s)\<lparr>sm_handlers := []\<rparr>" by auto
  from Remove_call_ok [OF c im(1)] have cm: "engine_ok w2" "cm = (en_call s)\<lparr>sm_handlers := []\<rparr>" by auto
  from init_frame.RemoveStateHandlers_keep [OF i] client_sameD [OF call_frame.RemoveStateHandlers_keep [OF c]]
  have "map_option gl_connected (w_gloox w2) = map_option gl_connected (w_gloox (en_world s))"
    by (simp add: world_same_def)
  then have k: "connected w2 = connected (en_world s)" by (auto simp: connected_def map_option_case split: option.splits)
  let ?s = "s\<lparr>en_init := im, en_call := cm, en_world := w2\<rparr>"
  obtain s' where a: "AsyncCleanup ?s = Some s'" "en_init s' = im" "en_call s' = cm" "w_gloox (en_world s') = None"
    "w_fault (en_world s') = w_fault w2" "gone (en_world s') = gone w2 + (if connected w2 then {#OnDisconnectEvent#} else {#})"
    using AsyncCleanup_empty [of ?s] im cm by auto
  have "Cleanup s = Some s'" using i c a(1) by (simp add: Cleanup_def)
  moreover have "engine_events s' = engine_events s + (if connected (en_world s) then {#OnDisconnectEvent#} else {#})"
    using Remove_events [OF i c] a k by (simp add: engine_events_parts(1) ac_simps)
  ultimately show ?thesis using a im cm by (auto simp: engine_ok_def)
qed

section \<open>The history of an engine\<close>

definition inbound_ok :: "inbound \<Rightarrow> engine \<Rightarrow> bool" where
  "inbound_ok x s \<longleftrightarrow>
     (case x of In_Connect \<Rightarrow> True | In_Disconnect \<Rightarrow> True | In_Message m \<Rightarrow> msgFactory m \<noteq> None
      | In_Iq i \<Rightarrow> reply_ok i s)"

lemma engine_inv_world:
  "engine_inv s \<Longrightarrow> listeners w = listeners (en_world s) \<Longrightarrow> engine_ok w \<Longrightarrow> engine_inv (s\<lparr>en_world := w\<rparr>)"
  by (auto simp: engine_inv_def linked_def)

lemma onConnect_inv:
  assumes "engine_inv s"
  shows "\<exists>s'. onConnect s = Some s' \<and> engine_inv s'" and "\<exists>s'. onDisconnect s = Some s' \<and> engine_inv s'"
proof -
  have e: "engine_inv (s\<lparr>en_world := (en_world s)\<lparr>w_bConnectEvent := True\<rparr>\<rparr>)"
    "engine_inv (s\<lparr>en_world := (en_world s)\<lparr>w_bDisconnectEvent := True\<rparr>\<rparr>)"
    by (rule engine_inv_world [OF assms];
        use assms in \<open>simp add: listeners_def engine_inv_def engine_ok_def engine_up_def\<close>)+
  show "\<exists>s'. onConnect s = Some s' \<and> engine_inv s'" "\<exists>s'. onDisconnect s = Some s' \<and> engine_inv s'"
    using signalEvent_inv [OF e(1)] signalEvent_inv [OF e(2)] init_safe_other [OF connect_event_types]
    unfolding onConnect_def onDisconnect_def by blast+
qed

lemma deliver_inv:
  assumes "engine_inv s" and "inbound_ok x s"
  shows "\<exists>s'. deliver x s = Some s' \<and> engine_inv s'"
proof (cases x)
  case In_Disconnect
  have "engine_inv (s\<lparr>en_world := (en_world s)\<lparr>w_gloox :=
      map_option (\<lambda>g. g\<lparr>gl_connected := False\<rparr>) (w_gloox (en_world s))\<rparr>\<rparr>)"
    by (rule engine_inv_world [OF assms(1)])
      (use assms(1) in \<open>auto simp: listeners_def engine_inv_def engine_ok_def engine_up_def split: option.split\<close>)
  from onConnect_inv(2) [OF this] In_Disconnect show ?thesis by (simp add: deliver_def)
qed (use assms onConnect_inv(1) notifyMessageHandlers_inv notifyIqHandlers_inv in
      \<open>simp_all add: deliver_def inbound_ok_def\<close>)

lemma MakeCall_inv: "engine_inv s \<Longrightarrow> engine_inv (snd (OnSipXmpp_MakeCall number s))"
  by (auto simp: OnSipXmpp_MakeCall_def MakeCallAsync_def Let_def getUniqueId_eq engine_inv_def
      AddStateHandlerRequest_def new_MakeCall_requested linked_def listeners_def engine_ok_def engine_up_def)

lemma async_inv:
  "engine_inv s \<Longrightarrow> engine_inv (OnSipXmpp_DropCall callId s)"
  "engine_inv s \<Longrightarrow> engine_inv (AsyncShutdown s)"
  by (auto simp: OnSipXmpp_DropCall_def DropCallAsync_def AsyncShutdown_def AddEvent_def engine_inv_def)

lemma time_inv: "engine_inv s \<Longrightarrow> engine_inv (s\<lparr>en_world := (en_world s)\<lparr>w_tick := t, w_clock := c\<rparr>\<rparr>)"
  by (rule engine_inv_world) (auto simp: listeners_def engine_inv_def engine_ok_def engine_up_def)

lemma fetch_inv:
  "engine_inv s \<Longrightarrow> engine_inv (s\<lparr>en_world := (en_world s)\<lparr>w_lstCallEvents := ces, w_lstInitEvents := ies\<rparr>\<rparr>)"
  by (rule engine_inv_world) (auto simp: listeners_def engine_inv_def engine_ok_def engine_up_def)

lemma timer_inv: "engine_inv s \<Longrightarrow> engine_inv (s\<lparr>en_world := (en_world s)\<lparr>w_tmrConnectLoop := t\<rparr>\<rparr>)"
  by (rule engine_inv_world) (auto simp: listeners_def engine_inv_def engine_ok_def engine_up_def)

text \<open>What \<open>Start\<close> needs of the engine it is called on: no init handler is queued, nothing has faulted.\<close>

definition startable :: "engine \<Rightarrow> bool" where
  "startable s \<longleftrightarrow>
     (\<forall>h \<in> set (bm_handlerRequests (en_call s)). call_requested h) \<and>
     bm_handlerRequests (en_init s) = [] \<and> bm_requestChange (en_init s) = 0 \<and>
     (\<forall>e \<in> set (bm_events (en_init s)). e = ShutdownRequestEvent) \<and>
     \<not> w_fault (en_world s) \<and>
     (engine_ok (en_world s) \<or> sm_handlers (en_init s) = [] \<and> sm_handlers (en_call s) = [])"

lemma startable_new: "startable (new_OnSipXmpp bTapi tick clk reg)"
  by (simp add: startable_def new_OnSipXmpp_def AddIStateNotify_def new_base_machine_def)

lemma startable_running: "engine_inv s \<Longrightarrow> bm_handlerRequests (en_init s) = [] \<Longrightarrow> startable s"
  by (simp add: startable_def engine_inv_def engine_ok_def)

lemma startable_cleaned:
  assumes "engine_inv s" and "bm_handlerRequests (en_init s) = []" and "Cleanup s = Some s'"
  shows "startable s'"
  using Cleanup_inv [OF assms(1)] startable_running [OF assms(1,2)] assms(3) by (auto simp: startable_def)

lemma Remove_startable:
  assumes "startable s" and "RemoveStateHandlers init_ops (en_init s) (en_world s) = (im, w1)"
    and "RemoveStateHandlers call_ops (en_call s) w1 = (cm, w2)"
  shows "im = (en_init s)\<lparr>sm_handlers := []\<rparr>" "cm = (en_call s)\<lparr>sm_handlers := []\<rparr>" "\<not> w_fault w2"
proof -
  have "im = (en_init s)\<lparr>sm_handlers := []\<rparr> \<and> cm = (en_call s)\<lparr>sm_handlers := []\<rparr> \<and> \<not> w_fault w2"
  proof (cases "engine_ok (en_world s)")
    case True
    from Remove_call_ok [OF assms(3)] Remove_init_ok [OF assms(2) True] show ?thesis by (simp add: engine_ok_def)
  next
    case False
    with assms show ?thesis by (auto simp: startable_def RemoveStateHandlers_def)
  qed
  then show "im = (en_init s)\<lparr>sm_handlers := []\<rparr>" "cm = (en_call s)\<lparr>sm_handlers := []\<rparr>" "\<not> w_fault w2" by auto
qed

lemma Start_inv:
  assumes "startable s"
  shows "\<exists>ce s'. Start l connects s = Some (ce, s') \<and> engine_inv s' \<and>
     (ce = ConnNoError \<longleftrightarrow> connects \<and> j_serverRaw (login_jid l) \<noteq> []) \<and>
     sm_handlers (en_init s') = [] \<and> sm_notifys (en_init s') = sm_notifys (en_init s) \<and>
     bm_handlerRequests (en_init s') \<noteq> []"
proof -
  obtain im w1 where i: "RemoveStateHandlers init_ops (en_init s) (en_world s) = (im, w1)"
    by (cases "RemoveStateHandlers init_ops (en_init s) (en_world s)")
  obtain cm w2 where c: "RemoveStateHandlers call_ops (en_call s) w1 = (cm, w2)"
    by (cases "RemoveStateHandlers call_ops (en_call s) w1")
  note r = Remove_startable [OF assms i c]
  let ?s = "s\<lparr>en_init := AddStateHandlerRequest (new_InitStateHandler w2) im, en_call := cm, en_world := w2\<rparr>"
  have inv: "engine_inv (?s\<lparr>en_world := w2\<lparr>w_login := l, w_jid := j,
      w_gloox := Some ((registerMessageHandler O_OnSipXmpp (new_gloox j (li_password l)))\<lparr>gl_connected := b\<rparr>),
      w_pubSub := True, w_bDisconnectEvent := d\<rparr>\<rparr>)" for b j d
    using assms r by (auto simp: startable_def engine_inv_def AddStateHandlerRequest_def new_InitStateHandler_def
        init_inv_def linked_def listeners_def registerMessageHandler_def new_gloox_def engine_ok_def engine_up_def)
  have new: "(registerMessageHandler h (new_gloox j p))\<lparr>gl_connected := False\<rparr> = registerMessageHandler h (new_gloox j p)"
    for h j p by (simp add: registerMessageHandler_def new_gloox_def)
  have ord: "w\<lparr>w_pubSub := p, w_gloox := x\<rparr> = w\<lparr>w_gloox := x, w_pubSub := p\<rparr>" for w :: world and p x by simp
  have del: "engine_inv (t\<lparr>en_world := delete_event e (en_world t)\<rparr>)" if "engine_inv t" for t :: engine and e
    using engine_inv_world [OF that] that by (simp add: engine_inv_def)
  note inv0 = inv [where b = False, unfolded new]
  show ?thesis
  proof (cases "connects \<or> j_serverRaw (login_jid l) = []")
    case True
    with i c r inv [where b = True and d = "w_bDisconnectEvent w2"] inv0 [where d = "w_bDisconnectEvent w2"] show ?thesis
      by (auto simp: Start_def BaseStart_def Let_def AddStateHandlerRequest_def ord)
  next
    case False
    with i c r del [OF inv0 [where d = True]] signalEvent_empty [OF _ _ disconnect_unknown] show ?thesis
      by (simp add: Start_def BaseStart_def onDisconnect_def Let_def AddStateHandlerRequest_def)
  qed
qed

text \<open>
  Everything that can happen to an engine after \<open>Start\<close>: polls, deliveries of the client, the requests
  of other threads, the passing of time, the driver fetching the notifications. The engine that is
  started may be a new one, one that was cleaned up, or a running one that has been polled.
\<close>

inductive engine_run :: "engine \<Rightarrow> bool" where
  started: "startable s \<Longrightarrow> Start l connects s = Some (ce, s') \<Longrightarrow> engine_run s'"
| polled: "engine_run s \<Longrightarrow> onConnectLoop s = Some (b, s') \<Longrightarrow> engine_run s'"
| delivered: "engine_run s \<Longrightarrow> inbound_ok x s \<Longrightarrow> deliver x s = Some s' \<Longrightarrow> engine_run s'"
| dialled: "engine_run s \<Longrightarrow> engine_run (snd (OnSipXmpp_MakeCall number s))"
| dropped: "engine_run s \<Longrightarrow> engine_run (OnSipXmpp_DropCall callId s)"
| shutdown: "engine_run s \<Longrightarrow> engine_run (AsyncShutdown s)"
| waited: "engine_run s \<Longrightarrow> engine_run (s\<lparr>en_world := (en_world s)\<lparr>w_tick := t, w_clock := c\<rparr>\<rparr>)"
| fetched: "engine_run s \<Longrightarrow>
    engine_run (s\<lparr>en_world := (en_world s)\<lparr>w_lstCallEvents := ces, w_lstInitEvents := ies\<rparr>\<rparr>)"
| rearmed: "engine_run s \<Longrightarrow> engine_run (s\<lparr>en_world := (en_world s)\<lparr>w_tmrConnectLoop := tmr\<rparr>\<rparr>)"

lemma engine_run_inv: "engine_run s \<Longrightarrow> engine_inv s"
proof (induction rule: engine_run.induct)
  case (started s l c ce s')
  with Start_inv [OF started.hyps(1)] show ?case by (metis option.inject prod.inject)
next
  case (polled s b s')
  with onConnectLoop_inv [OF polled.IH] show ?case by auto
next
  case (delivered s x s')
  from deliver_inv [OF delivered.IH delivered.hyps(2)] delivered.hyps(3) show ?case by simp
qed (simp_all add: MakeCall_inv async_inv time_inv timer_inv fetch_inv)



definition sample_login :: login where
  "sample_login = \<lparr>li_name = ''alice'', li_password = ''secret'', li_domain = ''onsip.com''\<rparr>"

definition sample_engine :: engine where
  "sample_engine = snd (the (Start sample_login True (new_OnSipXmpp True 4294967000 0 None)))"

lemma sample_engine_run: "engine_run sample_engine"
proof -
  obtain ce s where "Start sample_login True (new_OnSipXmpp True 4294967000 0 None) = Some (ce, s)"
    using Start_inv [OF startable_new] by blast
  from engine_run.started [OF startable_new this] this show ?thesis by (simp add: sample_engine_def)
qed


section \<open>The account of the events\<close>

lemma signalEvent_events:
  assumes "signalEvent e s = Some s'"
  shows "engine_events s' = engine_events s + {#e#}"
proof -
  obtain hi im w1 where i: "SignalEvent init_ops (Some e) False (en_init s) (en_world s) = Some (hi, im, w1)"
    using assms by (auto simp: signalEvent_def bind_eq_Some_conv)
  from init_owner.SignalEvent_account [OF i]
  have a: "init_part im + gone w1 = init_part (en_init s) + gone (en_world s) + (if hi then {#e#} else {#})"
    by (simp add: engine_events_parts)
  show ?thesis
  proof (cases hi)
    case True
    with assms i have "s' = s\<lparr>en_init := im, en_world := w1\<rparr>" by (simp add: signalEvent_def Let_def)
    with a True show ?thesis by (simp add: engine_events_parts(1) ac_simps)
  next
    case False
    with assms i obtain hc cm w2 where c: "SignalEvent call_ops (Some e) False (en_call s) w1 = Some (hc, cm, w2)"
      by (auto simp: signalEvent_def Let_def bind_eq_Some_conv)
    from call_owner.SignalEvent_account [OF c]
    have b: "call_part cm + gone w2 = call_part (en_call s) + gone w1 + (if hc then {#e#} else {#})"
      by (simp add: engine_events_parts)
    have "engine_events s' = init_part im + (call_part cm + gone w2) + (if hc then {#} else {#e#})"
      using assms i c False by (cases hc) (auto simp: signalEvent_def Let_def engine_events_parts(1) ac_simps)
    also have "\<dots> = (init_part im + gone w1) + call_part (en_call s) + {#e#}"
      using b by (simp add: ac_simps)
    finally show ?thesis using a False by (simp add: engine_events_parts(1) ac_simps)
  qed
qed

lemma onConnectLoop_events:
  assumes "onConnectLoop s = Some (b, s')"
  shows "engine_events s' = engine_events s"
proof -
  obtain im w1 cm w2 where i: "BasePollStateHandlers init_ops (en_init s) (en_world s) = Some (im, w1)"
    and c: "BasePollStateHandlers call_ops (en_call s) w1 = Some (cm, w2)"
    and s': "s' = s\<lparr>en_init := im, en_call := cm, en_world := w2\<rparr>"
    using assms by (auto simp: onConnectLoop_def bind_eq_Some_conv)
  from init_owner.BasePoll_account [OF i] call_owner.BasePoll_account [OF c] s' show ?thesis
    by (simp add: engine_events_parts) (metis add.assoc add.commute)
qed

text \<open>
  C5. The engine loses no event and deletes none twice: signalling an event adds exactly that event
  to those its two machines hold, have queued or have deleted, whoever accepts it; a poll of both
  machines neither adds nor loses one; and \<open>Cleanup\<close> after any history deletes every event a handler
  holds, adds the disconnect of an open connection, and leaves no handler and no client.
\<close>
theorem engine_events_conserved:
  "(signalEvent e s = Some s1 \<longrightarrow> engine_events s1 = engine_events s + {#e#}) \<and>
   (onConnectLoop s = Some (b, s2) \<longrightarrow> engine_events s2 = engine_events s) \<and>
   (engine_run s \<longrightarrow>
      (\<exists>s3. Cleanup s = Some s3 \<and> sm_handlers (en_init s3) = [] \<and> sm_handlers (en_call s3) = [] \<and>
         w_gloox (en_world s3) = None \<and>
         engine_events s3 = engine_events s + (if connected (en_world s) then {#OnDisconnectEvent#} else {#})))"
  using signalEvent_events [of e s s1] onConnectLoop_events [of s b s2] Cleanup_inv [of s] engine_run_inv [of s] by fastforce

theorem engine_events_conserved_witness:
  "(\<exists>s1. signalEvent (connectFactory True) sample_engine = Some s1 \<and>
      engine_events s1 = engine_events sample_engine + {#connectFactory True#}) \<and>
   (\<exists>s3. Cleanup sample_engine = Some s3 \<and> engine_events s3 = engine_events sample_engine + {#OnDisconnectEvent#})"
proof -
  have c: "connected (en_world sample_engine)" by code_simp
  obtain s1 where "signalEvent (connectFactory True) sample_engine = Some s1"
    using signalEvent_inv [OF engine_run_inv [OF sample_engine_run]] init_safe_other [OF connect_event_types] by blast
  with engine_events_conserved [of "connectFactory True" sample_engine s1 True sample_engine] sample_engine_run c
  show ?thesis by auto
qed

section \<open>Shutdown\<close>

lemma ShutdownRequest_type [simp]:
  "getShutdownRequestEvent ShutdownRequestEvent" "\<not> getOnConnectEvent ShutdownRequestEvent"
  "\<not> getOnDisconnectEvent ShutdownRequestEvent" "\<not> getXmppIqResultEvent ShutdownRequestEvent"
  "getAuthEvent ShutdownRequestEvent = None" "getPubSubSubscribedEvent ShutdownRequestEvent = None"
  by code_simp+

lemma Init_shutdown_request:
  assumes "engine_up w"
  shows "\<exists>c w1. UnsubscribeCallEvents (ih_subscribed_subid h) O_OnSipXmpp w = Some (c, w1) \<and>
     Init_IsYourEvent h ShutdownRequestEvent w =
       (case ih_assignNewState IS_ShuttingDown (h\<lparr>ih_unsubscribe_contextId := c\<rparr>) w1 of
          (h1, w2) \<Rightarrow> Some (True, h1, delete_event ShutdownRequestEvent w2))"
proof -
  obtain c w1 where u: "UnsubscribeCallEvents (ih_subscribed_subid h) O_OnSipXmpp w = Some (c, w1)"
    using requests_total(3) [OF assms] by blast
  then show ?thesis by (cases "ih_state h = IS_EnablingCallEvents") (auto simp: Init_IsYourEvent_def)
qed


lemma world_same_up: "world_same w w' \<Longrightarrow> engine_up w' = engine_up w"
  using world_sameD(6) [of w w'] by (auto simp: world_same_def engine_up_def)

lemma delete_event_ticks [simp]:
  "w_tick (delete_event e w) = w_tick w" "w_tick (delete_event_opt ev w) = w_tick w"
  by (simp_all add: delete_event_def delete_event_opt_def split: option.split)

lemma init_notify [simp]:
  "w_tick (OnStateChange init_ops ns h r w) = w_tick w" "w_clock (OnStateChange init_ops ns h r w) = w_clock w"
  using init_frame.OnStateChange_keep [of w ns h r] by (simp_all add: world_same_def)

lemma init_checkExist_alive:
  "ih_state h \<noteq> IS_ShutDown \<Longrightarrow>
     checkStateHandlersExist init_ops (m\<lparr>sm_handlers := [h]\<rparr>) w = (m\<lparr>sm_handlers := [h]\<rparr>, w)"
  by (simp add: checkStateHandlersExist_def init_ops_def Init_IsStillExist_def)

lemma Init_Poll_fresh:
  assumes "ih_state h \<noteq> IS_OK" and "si_last (ih_item h) = w_tick w"
  shows "Init_PollStateHandler h w = Some (False, h, w)"
  using assms by (simp add: Init_PollStateHandler_def check_init_timeouts_eq MsecsSinceLastStateChange_def
      sint_GENERAL del: check_init_timeouts.simps)

text \<open>The poll that takes a shutdown request out of the queue.\<close>

lemma shutdown_poll:
  assumes "sm_handlers m = [h]" and "bm_handlerRequests m = []" and "bm_requestChange m = 0"
    and "bm_events m = [ShutdownRequestEvent]" and "bm_eventChange m = 1" and "engine_up w"
  shows "\<exists>m' h' w'. BasePollStateHandlers init_ops m w = Some (m', w') \<and> sm_handlers m' = [h'] \<and>
     bm_events m' = [] \<and> ih_state h' = IS_ShuttingDown \<and> ih_event h' = None \<and> engine_up w' \<and>
     (\<exists>w0. UnsubscribeCallEvents (ih_subscribed_subid h) O_OnSipXmpp w = Some (ih_unsubscribe_contextId h', w0))"
proof -
  obtain c w1 where u: "UnsubscribeCallEvents (ih_subscribed_subid h) O_OnSipXmpp w = Some (c, w1)"
    and y: "Init_IsYourEvent h ShutdownRequestEvent w =
       (case ih_assignNewState IS_ShuttingDown (h\<lparr>ih_unsubscribe_contextId := c\<rparr>) w1 of
          (h1, w2) \<Rightarrow> Some (True, h1, delete_event ShutdownRequestEvent w2))"
    using Init_shutdown_request [OF assms(6)] by blast
  let ?h = "h\<lparr>ih_unsubscribe_contextId := c,
     ih_item := (ih_item h)\<lparr>si_state := IS_ShuttingDown, si_event := None, si_last := w_tick w1\<rparr>\<rparr>"
  let ?w = "OnStateChange init_ops (sm_notifys m) ?h IsYourEventHandled
     (delete_event ShutdownRequestEvent (delete_event_opt (ih_event h) w1))"
  have y': "op_IsYourEvent init_ops h ShutdownRequestEvent w =
      Some (True, ?h, delete_event ShutdownRequestEvent (delete_event_opt (ih_event h) w1))"
    using y by (simp add: init_ops_def ih_assignNewState_eq)
  have t: "w_tick ?w = w_tick w1" by simp
  let ?m = "m\<lparr>bm_events := [], bm_eventChange := 0\<rparr>"
  have s: "SignalEvent init_ops (Some ShutdownRequestEvent) True ?m w = Some (True, ?m\<lparr>sm_handlers := [?h]\<rparr>, ?w)"
    using y' init_checkExist_alive [of ?h ?m ?w] assms(1) by (simp add: SignalEvent_def Let_def)
  have "Init_PollStateHandler ?h ?w = Some (False, ?h, ?w)" by (rule Init_Poll_fresh) (simp_all add: t)
  then have "pollLoop init_ops (sm_notifys m) [?h] ?w = Some ([?h], ?w)" by (simp add: init_ops_def)
  with init_checkExist_alive [of ?h "?m\<lparr>sm_handlers := [?h]\<rparr>" ?w]
  have p: "PollStateHandlers init_ops (?m\<lparr>sm_handlers := [?h]\<rparr>) ?w = Some (?m\<lparr>sm_handlers := [?h]\<rparr>, ?w)"
    by (simp add: PollStateHandlers_def)
  have q: "getRequests m = ([], m)" "getEvents m = ([ShutdownRequestEvent], ?m)"
    using assms(3-5) by (simp_all add: getRequests_def getEvents_def)
  have "BasePollStateHandlers init_ops m w = Some (?m\<lparr>sm_handlers := [?h]\<rparr>, ?w)"
    using q s p by (simp add: BasePollStateHandlers_def)
  moreover have "engine_up ?w"
  proof -
    have "engine_up w1" using same_viewD(6) [OF requests_keep(3) [OF u] assms(6)] .
    then have "engine_up (delete_event ShutdownRequestEvent (delete_event_opt (ih_event h) w1))" by simp
    then show ?thesis by (simp only: world_same_up [OF init_frame.OnStateChange_keep])
  qed
  ultimately show ?thesis using u by fastforce
qed


text \<open>The reply to the unsubscription ends the handler, and nothing else does.\<close>

lemma shutdown_only:
  assumes "Init_IsYourEvent h e w = Some (b, h', w')" and "ih_state h = IS_ShuttingDown" and "ih_state h' = IS_ShutDown"
  shows "getXmppIqResultEvent e \<and> xe_context e = ih_unsubscribe_contextId h"
  using assms unfolding Init_IsYourEvent_def
  by (auto simp: bind_eq_Some_conv ih_assignNewState_eq split: if_splits)

lemma shutdown_reply:
  assumes "sm_handlers m = [h]" and "ih_state h = IS_ShuttingDown" and "getXmppIqResultEvent e"
    and "xe_context e = ih_unsubscribe_contextId h"
  shows "\<exists>m' w'. SignalEvent init_ops (Some e) False m w = Some (True, m', w') \<and> sm_handlers m' = []"
proof -
  have n: "\<not> getOnConnectEvent e" "\<not> getOnDisconnectEvent e" "\<not> getShutdownRequestEvent e"
    using assms(3) by (auto simp: getXmppIqResultEvent_def getOnConnectEvent_def getOnDisconnectEvent_def
        getShutdownRequestEvent_def)
  obtain h1 w1 where a: "ih_assignNewState IS_ShutDown h w = (h1, w1)" "ih_state h1 = IS_ShutDown"
    by (simp add: ih_assignNewState_eq)
  have y: "op_IsYourEvent init_ops h e w = Some (True, h1, delete_event e w1)"
    using assms(2-4) n a(1) by (simp add: init_ops_def Init_IsYourEvent_def)
  have x: "\<exists>h2 w2. op_IsStillExist init_ops h1 v = (False, h2, w2)" for v
    using a(2) by (cases "delete_reauthorizer_opt h1 v") (simp add: init_ops_def Init_IsStillExist_def)
  have "\<exists>v'. checkStateHandlersExist init_ops (m\<lparr>sm_handlers := [h1]\<rparr>) v = (m\<lparr>sm_handlers := []\<rparr>, v')" for v
    using x [of v] by (auto simp: checkStateHandlersExist_def)
  then obtain v' where "checkStateHandlersExist init_ops (m\<lparr>sm_handlers := [h1]\<rparr>)
      (OnStateChange init_ops (sm_notifys m) h1 IsYourEventHandled (delete_event e w1)) = (m\<lparr>sm_handlers := []\<rparr>, v')"
    by blast
  with y assms(1) show ?thesis by (auto simp: SignalEvent_def Let_def)
qed



text \<open>The sample engine after its first poll: the init handler waits for the connection.\<close>

definition sample_polled :: engine where
  "sample_polled = snd (the (onConnectLoop sample_engine))"

lemma sample_polled_run: "engine_run sample_polled"
proof -
  obtain s' where "onConnectLoop sample_engine = Some (True, s')"
    using onConnectLoop_inv [OF engine_run_inv [OF sample_engine_run]] by blast
  with engine_run.polled [OF sample_engine_run this] show ?thesis by (simp add: sample_polled_def)
qed

lemma sample_polled_init:
  "map ih_state (sm_handlers (en_init sample_polled)) = [IS_PreLogin] \<and> bm_events (en_init sample_polled) = [] \<and>
     bm_eventChange (en_init sample_polled) = 0"
  by code_simp


end
