(* ===== verification/Polling.thy ===== *)
theory Polling
  imports EngineProtocol
begin

text \<open>
  The polling loop (\<open>OnSipXmppBase::AsyncPolling\<close>): it is one of the histories of the engine, returns
  once its time is over, and two defects of what surrounds it: a start that fails leaves its init
  handler queued, and a renewal that is given up leaves its reply to a deleted worker.
\<close>

section \<open>Deliveries do not move the clocks\<close>

lemma signalEvent_same:
  assumes "signalEvent e s = Some s'"
  shows "world_same (en_world s) (en_world s')"
proof -
  obtain hi im w1 where i: "SignalEvent init_ops (Some e) False (en_init s) (en_world s) = Some (hi, im, w1)"
    using assms by (auto simp: signalEvent_def bind_eq_Some_conv)
  note k1 = init_frame.SignalEvent_keep [OF i]
  show ?thesis
  proof (cases hi)
    case True
    with assms i k1 show ?thesis by (auto simp: signalEvent_def Let_def)
  next
    case False
    with assms i obtain hc cm w2 where c: "SignalEvent call_ops (Some e) False (en_call s) w1 = Some (hc, cm, w2)"
      by (auto simp: signalEvent_def Let_def bind_eq_Some_conv)
    note k2 = world_same_trans [OF k1 client_sameD [OF call_frame.SignalEvent_keep [OF c]]]
    note k3 = world_same_trans [OF k2 client_sameD [OF client_delete(1)]]
    from assms i c False k2 k3 show ?thesis by (cases hc) (auto simp: signalEvent_def Let_def)
  qed
qed

definition same_clock :: "engine \<Rightarrow> engine \<Rightarrow> bool" where
  "same_clock s s' \<longleftrightarrow> w_clock (en_world s') = w_clock (en_world s)"

lemma same_clock_trans: "same_clock s s' \<Longrightarrow> same_clock s' s'' \<Longrightarrow> same_clock s s''"
  by (simp add: same_clock_def)

lemma signalEvent_clock: "signalEvent e s = Some s' \<Longrightarrow> same_clock s s'"
  by (simp add: same_clock_def world_sameD(2) [OF signalEvent_same])

lemma connect_clock:
  "onConnect s = Some s' \<Longrightarrow> same_clock s s'" "onDisconnect s = Some s' \<Longrightarrow> same_clock s s'"
  by (auto simp: onConnect_def onDisconnect_def same_clock_def dest!: signalEvent_clock)

lemma handle_clock:
  "handleMessage m s = Some s' \<Longrightarrow> same_clock s s'" "handleIqID i c s = Some s' \<Longrightarrow> same_clock s s'"
  by (auto simp: handleMessage_def handleIqID_def bind_eq_Some_conv split: option.splits
      intro: signalEvent_clock) (auto simp: same_clock_def)

lemma set_init_clock [simp]: "same_clock s (set_init_handlers hs s)" "same_clock s s"
  by (simp_all add: same_clock_def set_init_handlers_def)

lemma notifyMessages_clock: "notifyMessages mhs m s = Some s' \<Longrightarrow> same_clock s s'"
proof (induction mhs arbitrary: s)
  case (Cons mh mhs)
  then obtain s1 where o: "(case mh of O_OnSipXmpp \<Rightarrow> handleMessage m s
        | O_Worker \<Rightarrow> map_option (\<lambda>hs. set_init_handlers hs s) (worker_handleMessage m (sm_handlers (en_init s)))
        | O_PubSubManager \<Rightarrow> Some s) = Some s1" and r: "notifyMessages mhs m s1 = Some s'"
    by (auto simp: bind_eq_Some_conv)
  from o have "same_clock s s1" by (cases mh) (auto dest: handle_clock(1))
  from same_clock_trans [OF this Cons.IH [OF r]] show ?case .
qed simp

lemma notifyIqHandlers_clock:
  assumes "notifyIqHandlers i s = Some s'"
  shows "same_clock s s'"
proof -
  obtain g where g: "w_gloox (en_world s) = Some g" using assms by (auto simp: notifyIqHandlers_def bind_eq_Some_conv)
  show ?thesis
  proof (cases "gl_tracked g (iq_id i)")
    case None
    with g assms show ?thesis by (simp add: notifyIqHandlers_def)
  next
    case (Some x)
    obtain ih c where x: "x = (ih, c)" by (cases x)
    have f: "same_clock s s1 \<Longrightarrow> same_clock s (forget_id rid s1)" for s1 rid
      by (simp add: same_clock_def forget_id_def)
    from g assms Some x show ?thesis
      by (cases ih) (auto simp: notifyIqHandlers_def bind_eq_Some_conv split: if_splits
          dest!: handle_clock(2) intro!: f)
  qed
qed

lemma deliver_clock: "deliver x s = Some s' \<Longrightarrow> same_clock s s'"
  by (cases x)
    (auto simp: deliver_def notifyMessageHandlers_def bind_eq_Some_conv same_clock_def
      dest!: connect_clock notifyMessages_clock notifyIqHandlers_clock)

section \<open>The loop\<close>

text \<open>The deliveries of one \<open>recv\<close>, and those of a schedule, each within the contract when it happens.\<close>

fun all_ok :: "inbound list \<Rightarrow> engine \<Rightarrow> bool" where
  "all_ok [] s = True"
| "all_ok (x # xs) s = (inbound_ok x s \<and> (case deliver x s of None \<Rightarrow> True | Some s' \<Rightarrow> all_ok xs s'))"

definition at_time :: "recv_step \<Rightarrow> engine \<Rightarrow> engine" where
  "at_time st s = s\<lparr>en_world := (en_world s)\<lparr>w_tick := rs_tick st, w_clock := rs_clock st\<rparr>\<rparr>"

fun schedule_ok :: "timeout \<Rightarrow> recv_step list \<Rightarrow> conn_error \<Rightarrow> engine \<Rightarrow> bool" where
  "schedule_ok until [] ce s = True"
| "schedule_ok until (st # rest) ce s =
     (ce \<noteq> ConnNoError \<or> IsExpired until (w_clock (en_world s)) \<or>
      (case polling_turn s of None \<Rightarrow> True
       | Some s1 \<Rightarrow>
           all_ok (rs_inbound st) (at_time st s1) \<and>
           (case gloox_recv st s1 of None \<Rightarrow> True | Some (ce', s2) \<Rightarrow> schedule_ok until rest ce' s2)))"

lemma deliver_all_run:
  "engine_run s \<Longrightarrow> all_ok xs s \<Longrightarrow> \<exists>s'. deliver_all xs s = Some s' \<and> engine_run s' \<and> same_clock s s'"
proof (induction xs arbitrary: s)
  case (Cons x xs)
  then obtain s1 where d: "deliver x s = Some s1"
    using deliver_inv [OF engine_run_inv [OF Cons.prems(1)], of x] by auto
  have "engine_run s1" using engine_run.delivered [OF Cons.prems(1) _ d] Cons.prems(2) by simp
  with Cons.IH [of s1] Cons.prems(2) d same_clock_trans [OF deliver_clock [OF d]] show ?case by auto
qed (auto simp: same_clock_def)

lemma polling_turn_run:
  assumes "engine_run s"
  shows "\<exists>s'. polling_turn s = Some s' \<and> engine_run s'"
proof (cases "IsExpired (w_tmrConnectLoop (en_world s)) (w_clock (en_world s))")
  case True
  obtain s1 where l: "onConnectLoop s = Some (True, s1)"
    using onConnectLoop_inv [OF engine_run_inv [OF assms]] by blast
  from engine_run.rearmed [OF engine_run.polled [OF assms l]] True l show ?thesis by (simp add: polling_turn_def)
next
  case False
  with assms show ?thesis by (simp add: polling_turn_def)
qed

lemma gloox_recv_run:
  assumes "engine_run s" and "all_ok (rs_inbound st) (at_time st s)"
  shows "\<exists>ce s'. gloox_recv st s = Some (ce, s') \<and> engine_run s' \<and> w_clock (en_world s') = rs_clock st"
proof -
  have r: "engine_run (at_time st s)" unfolding at_time_def by (rule engine_run.waited [OF assms(1)])
  have c: "w_clock (en_world (at_time st s)) = rs_clock st" by (simp add: at_time_def)
  obtain g where g: "w_gloox (en_world s) = Some g" using engine_inv_gloox [OF engine_run_inv [OF assms(1)]] by blast
  from deliver_all_run [OF r assms(2)] r c g show ?thesis
    by (cases "gl_connected g") (auto simp: gloox_recv_def at_time_def same_clock_def)
qed

lemma polling_loop_run:
  assumes "engine_run s" and "schedule_ok until sch ce s"
  shows "\<exists>r s' rest. polling_loop until sch ce s = Some (r, s', rest) \<and> engine_run s' \<and>
     (sch \<noteq> [] \<and> IsExpired until (rs_clock (last sch)) \<longrightarrow> r \<noteq> None)"
  using assms
proof (induction sch arbitrary: ce s)
  case Nil
  with polling_turn_run [OF Nil.prems(1)] show ?case by auto
next
  case (Cons st rest)
  show ?case
  proof (cases "ce \<noteq> ConnNoError \<or> IsExpired until (w_clock (en_world s))")
    case True
    with Cons.prems(1) show ?thesis by auto
  next
    case False
    obtain s1 where t: "polling_turn s = Some s1" "engine_run s1" using polling_turn_run [OF Cons.prems(1)] by blast
    with False Cons.prems(2) have a: "all_ok (rs_inbound st) (at_time st s1)" by simp
    obtain ce' s2 where g: "gloox_recv st s1 = Some (ce', s2)" "engine_run s2" "w_clock (en_world s2) = rs_clock st"
      using gloox_recv_run [OF t(2) a] by blast
    with False t Cons.prems(2) have "schedule_ok until rest ce' s2" by simp
    from Cons.IH [OF g(2) this] obtain r s' rest' where p: "polling_loop until rest ce' s2 = Some (r, s', rest')"
      "engine_run s'" "rest \<noteq> [] \<and> IsExpired until (rs_clock (last rest)) \<longrightarrow> r \<noteq> None" by blast
    have "IsExpired until (rs_clock st) \<Longrightarrow> rest = [] \<Longrightarrow> r \<noteq> None"
      using p(1) g(3) by auto
    with False t g p show ?thesis by auto
  qed
qed



definition sample_schedule :: "recv_step list" where
  "sample_schedule =
     [\<lparr>rs_inbound = [In_Connect], rs_result = ConnNoError, rs_tick = 4294967100, rs_clock = 100\<rparr>,
      \<lparr>rs_inbound = [], rs_result = ConnNoError, rs_tick = 4294967251, rs_clock = 251\<rparr>]"


section \<open>A start that fails\<close>

lemma RemoveStateHandlers_idle: "sm_handlers m = [] \<Longrightarrow> RemoveStateHandlers ops m w = (m, w)"
  by (cases m) (simp add: RemoveStateHandlers_def)

lemma disconnect_idle:
  assumes "sm_handlers (en_init s) = []" and "sm_handlers (en_call s) = []"
  shows "onDisconnect s =
     Some (s\<lparr>en_world := delete_event OnDisconnectEvent ((en_world s)\<lparr>w_bDisconnectEvent := True\<rparr>)\<rparr>)"
  using signalEvent_empty [OF _ _ disconnect_unknown [of False],
      of "s\<lparr>en_world := (en_world s)\<lparr>w_bDisconnectEvent := True\<rparr>\<rparr>"] assms
  by (simp add: onDisconnect_def connectFactory_def)

text \<open>The world with its new client, before the client connects.\<close>

definition opened :: "login \<Rightarrow> world \<Rightarrow> world" where
  "opened l w = w\<lparr>w_login := l, w_jid := login_jid l,
     w_gloox := Some (registerMessageHandler O_OnSipXmpp (new_gloox (login_jid l) (li_password l))), w_pubSub := True\<rparr>"

lemma opened_simps [simp]:
  "w_tick (opened l w) = w_tick w" "w_lastInitState (opened l w) = w_lastInitState w"
  "\<not> connected (opened l w)" "w_clock (opened l w) = w_clock w"
  by (simp_all add: opened_def connected_def registerMessageHandler_def new_gloox_def)

lemma Start_failing:
  assumes "sm_handlers (en_init s) = []" and "sm_handlers (en_call s) = []" and "j_serverRaw (login_jid l) \<noteq> []"
  shows "Start l False s =
       Some (ConnNotConnected, s\<lparr>en_init := AddStateHandlerRequest (new_InitStateHandler (en_world s)) (en_init s),
         en_world := delete_event OnDisconnectEvent ((opened l (en_world s))\<lparr>w_bDisconnectEvent := True\<rparr>)\<rparr>)"
  using assms
  by (simp add: Start_def BaseStart_def Let_def RemoveStateHandlers_idle disconnect_idle AddStateHandlerRequest_def
      opened_def)

lemma Start_connecting:
  assumes "sm_handlers (en_init s) = []" and "sm_handlers (en_call s) = []" and "j_serverRaw (login_jid l) \<noteq> []"
  shows "Start l True s =
       Some (ConnNoError, s\<lparr>en_init := AddStateHandlerRequest (new_InitStateHandler (en_world s)) (en_init s),
         en_world := (opened l (en_world s))\<lparr>w_gloox :=
           map_option (\<lambda>g. g\<lparr>gl_connected := True\<rparr>) (w_gloox (opened l (en_world s)))\<rparr>\<rparr>)"
  using assms
  by (simp add: Start_def BaseStart_def Let_def RemoveStateHandlers_idle AddStateHandlerRequest_def opened_def)

lemma connected_simps [simp]:
  "connected (delete_event e w) = connected w" "connected (w\<lparr>w_bDisconnectEvent := b\<rparr>) = connected w"
  "connected (w\<lparr>w_gloox := map_option (\<lambda>g. g\<lparr>gl_connected := True\<rparr>) x\<rparr>) \<longleftrightarrow> x \<noteq> None"
  by (auto simp: connected_def delete_event_def split: option.split)

lemma Cleanup_idle:
  assumes "sm_handlers (en_init s) = []" and "sm_handlers (en_call s) = []" and "\<not> connected (en_world s)"
  shows "Cleanup s = Some (s\<lparr>en_world := (en_world s)\<lparr>w_gloox := None\<rparr>\<rparr>)"
  using assms
  by (cases "w_gloox (en_world s)")
    (auto simp: Cleanup_def RemoveStateHandlers_idle AsyncCleanup_def gloox_disconnect_def connected_def)

text \<open>
  The engine after a failed \<open>Start\<close>, its \<open>Cleanup\<close>, and a second, successful \<open>Start\<close> of the same object
  some milliseconds later.
\<close>

definition restarted :: "login \<Rightarrow> nat \<Rightarrow> engine \<Rightarrow> (conn_error \<times> engine) option" where
  "restarted l n s = do {
     (_, s1) \<leftarrow> Start l False s;
     s2 \<leftarrow> Cleanup s1;
     Start l True (s2\<lparr>en_world := (en_world s2)\<lparr>w_tick := w_tick (en_world s2) + word_of_nat n\<rparr>\<rparr>)
   }"

lemma restarted_new:
  assumes "j_serverRaw (login_jid l) \<noteq> []"
  shows "\<exists>s h1 h2. restarted l n (new_OnSipXmpp bTapi tick clk reg) = Some (ConnNoError, s) \<and>
     connected (en_world s) \<and>
     sm_handlers (en_init s) = [] \<and> sm_notifys (en_init s) = [()] \<and>
     bm_handlerRequests (en_init s) = [h1, h2] \<and> bm_requestChange (en_init s) = 2 \<and>
     bm_events (en_init s) = [] \<and> bm_eventChange (en_init s) = 0 \<and>
     en_call s = AddIStateNotify () new_base_machine \<and>
     ih_state h1 = IS_PreLogin \<and> si_last (ih_item h1) = tick \<and> ih_event h1 = None \<and>
     ih_state h2 = IS_PreLogin \<and> si_last (ih_item h2) = w_tick (en_world s) \<and>
     w_tick (en_world s) = tick + word_of_nat n \<and> w_lastInitState (en_world s) = IS_NotSet"
proof -
  let ?s = "new_OnSipXmpp bTapi tick clk reg"
  have e: "sm_handlers (en_init ?s) = []" "sm_handlers (en_call ?s) = []" "w_tick (en_world ?s) = tick"
    "w_lastInitState (en_world ?s) = IS_NotSet" "en_call ?s = AddIStateNotify () new_base_machine"
    "en_init ?s = AddIStateNotify () new_base_machine"
    by (simp_all add: new_OnSipXmpp_def AddIStateNotify_def new_base_machine_def)
  let ?h1 = "new_InitStateHandler (en_world ?s)"
  let ?w = "delete_event OnDisconnectEvent ((opened l (en_world ?s))\<lparr>w_bDisconnectEvent := True\<rparr>)"
  let ?s1 = "?s\<lparr>en_init := AddStateHandlerRequest ?h1 (en_init ?s), en_world := ?w\<rparr>"
  note 1 = Start_failing [OF e(1,2) assms]
  have 2: "Cleanup ?s1 = Some (?s1\<lparr>en_world := ?w\<lparr>w_gloox := None\<rparr>\<rparr>)"
    using Cleanup_idle [of ?s1] e by (simp add: AddStateHandlerRequest_def)
  let ?s2 = "?s1\<lparr>en_world := ?w\<lparr>w_gloox := None, w_tick := tick + word_of_nat n\<rparr>\<rparr>"
  have 3: "sm_handlers (en_init ?s2) = []" "sm_handlers (en_call ?s2) = []" using e by (simp_all add: AddStateHandlerRequest_def)
  have t: "w_tick ?w = tick" "w_lastInitState ?w = IS_NotSet" using e by (simp_all add: delete_event_def)
  have 4: "w_gloox (opened l v) \<noteq> None" for v by (simp add: opened_def)
  show ?thesis using 1 2 Start_connecting [OF 3 assms] t e 4
    by (simp add: restarted_def new_InitStateHandler_def new_state_item_def AddStateHandlerRequest_def
        AddIStateNotify_def new_base_machine_def)
qed

lemma call_poll_empty:
  "BasePollStateHandlers call_ops (AddIStateNotify () new_base_machine) w = Some (AddIStateNotify () new_base_machine, w)"
  by (simp add: BasePollStateHandlers_def getRequests_def getEvents_def AddIStateNotify_def new_base_machine_def
      PollStateHandlers_def checkStateHandlersExist_def)


lemma Init_Poll_preLogin:
  assumes "ih_state h = IS_PreLogin" and "w_tick w = si_last (ih_item h) + word_of_nat n" and "n < 2 ^ 31"
  shows "Init_PollStateHandler h w =
     (if 15000 < n then (case ih_assignNewState IS_Disconnected h w of (h', w') \<Rightarrow> Some (True, h', w'))
      else Some (False, h, w))"
  using assms
  by (auto simp: Init_PollStateHandler_def check_init_timeouts_eq sint_GENERAL ih_assignNewState_eq
      MsecsSinceLastStateChange_def sint_of_small_nat simp del: check_init_timeouts.simps)

lemma restarted_poll:
  assumes "sm_handlers m = []" and "sm_notifys m = [()]" and "bm_handlerRequests m = [h1, h2]"
    and "bm_requestChange m = 2" and "bm_events m = []" and "bm_eventChange m = 0"
    and "ih_state h1 = IS_PreLogin" and "w_tick w = si_last (ih_item h1) + word_of_nat n" and "n < 2 ^ 31"
    and "ih_state h2 = IS_PreLogin" and "si_last (ih_item h2) = w_tick w"
  shows "\<exists>m' w' h1'. BasePollStateHandlers init_ops m w = Some (m', w') \<and> sm_handlers m' = [h1', h2] \<and>
     ih_state h1' = (if 15000 < n then IS_Disconnected else IS_PreLogin) \<and>
     w_lastInitState w' = (if 15000 < n then IS_Disconnected else w_lastInitState w)"
proof -
  let ?m = "m\<lparr>bm_handlerRequests := [], bm_requestChange := 0\<rparr>"
  let ?m2 = "?m\<lparr>sm_handlers := [h1, h2]\<rparr>"
  have q: "getRequests m = ([h1, h2], ?m)" "getEvents ?m2 = ([], ?m2)"
    using assms(3,4,6) by (simp_all add: getRequests_def getEvents_def)
  have r: "requestLoop init_ops [h1, h2] ?m w = Some (?m2, w)"
    using assms(1,7,10) by (simp add: init_ops_def Init_IsStillExist_def AddStateHandler_def)
  have p2: "Init_PollStateHandler h2 w = Some (False, h2, w)"
    using Init_Poll_fresh [of h2 w] assms(10,11) by simp
  have chk: "checkStateHandlersExist init_ops (?m2\<lparr>sm_handlers := [a, h2]\<rparr>) v = (?m2\<lparr>sm_handlers := [a, h2]\<rparr>, v)"
    if "ih_state a \<noteq> IS_ShutDown" for a v
    using that assms(10) by (simp add: checkStateHandlersExist_def init_ops_def Init_IsStillExist_def)
  show ?thesis
  proof (cases "15000 < n")
    case True
    obtain h1' w1 where a: "ih_assignNewState IS_Disconnected h1 w = (h1', w1)" "ih_state h1' = IS_Disconnected"
      by (simp add: ih_assignNewState_eq)
    have "op_PollStateHandler init_ops h1 w = Some (True, h1', w1)"
      using Init_Poll_preLogin [OF assms(7-9)] True a(1) by (simp add: init_ops_def)
    then have "pollLoop init_ops [()] [h1, h2] w = Some ([h1', h2], OnStateChange init_ops [()] h1' PollHandler w1)"
      by simp
    with chk [of h1'] a(2) assms(2)
    have "PollStateHandlers init_ops ?m2 w =
        Some (?m2\<lparr>sm_handlers := [h1', h2]\<rparr>, OnStateChange init_ops [()] h1' PollHandler w1)"
      by (simp add: PollStateHandlers_def)
    moreover have "w_lastInitState (OnStateChange init_ops [()] h1' PollHandler w1) = IS_Disconnected"
      using a(2) by (simp add: OnStateChange_def init_ops_def InitStateChange_def Let_def)
    moreover have "signalAll init_ops [] m' v = Some (m', v)" for m' v by simp
    ultimately show ?thesis
      using q r a(2) True by (auto simp: BasePollStateHandlers_def simp del: requestLoop.simps)
  next
    case False
    have "op_PollStateHandler init_ops h1 w = Some (False, h1, w)" "op_PollStateHandler init_ops h2 w = Some (False, h2, w)"
      using Init_Poll_preLogin [OF assms(7-9)] False p2 by (simp_all add: init_ops_def)
    then have "pollLoop init_ops [()] [h1, h2] w = Some ([h1, h2], w)" by simp
    with chk [of h1] assms(2,7) have "PollStateHandlers init_ops ?m2 w = Some (?m2, w)"
      by (simp add: PollStateHandlers_def)
    then show ?thesis
      using q r False assms(7) by (auto simp: BasePollStateHandlers_def simp del: requestLoop.simps)
  qed
qed

text \<open>
  C24. Finding: a start that fails spoils the next one. \<open>Start\<close> queues its init handler before it tries
  to connect, and \<open>Cleanup\<close> does not empty that queue. When the same engine is started again,
  successfully, its first poll therefore adds two init handlers, the stale one first; and when the
  retry comes more than 15 seconds after the failure, that poll times the stale handler out and the
  engine reports \<open>Disconnected\<close> although the new connection is up.
\<close>
theorem failed_start_spoils_next:
  assumes "n < 2 ^ 31" and "j_serverRaw (login_jid l) \<noteq> []"
  shows "\<exists>s s' h1 h2. restarted l n (new_OnSipXmpp bTapi tick clk reg) = Some (ConnNoError, s) \<and>
     connected (en_world s) \<and>
     onConnectLoop s = Some (True, s') \<and> sm_handlers (en_init s') = [h1, h2] \<and> ih_state h2 = IS_PreLogin \<and>
     (if 15000 < n then ih_state h1 = IS_Disconnected \<and> GetInitStateMachineState s' = IS_Disconnected
      else ih_state h1 = IS_PreLogin)"
proof -
  obtain s h1 h2 where s: "restarted l n (new_OnSipXmpp bTapi tick clk reg) = Some (ConnNoError, s)"
    "sm_handlers (en_init s) = []" "sm_notifys (en_init s) = [()]"
    "bm_handlerRequests (en_init s) = [h1, h2]" "bm_requestChange (en_init s) = 2"
    "bm_events (en_init s) = []" "bm_eventChange (en_init s) = 0"
    "ih_state h1 = IS_PreLogin" "w_tick (en_world s) = si_last (ih_item h1) + word_of_nat n"
    "ih_state h2 = IS_PreLogin" "si_last (ih_item h2) = w_tick (en_world s)"
    "en_call s = AddIStateNotify () new_base_machine" "connected (en_world s)"
    using restarted_new [OF assms(2), of n bTapi tick clk reg] by auto
  obtain im w h where p: "BasePollStateHandlers init_ops (en_init s) (en_world s) = Some (im, w)"
    "sm_handlers im = [h, h2]" "ih_state h = (if 15000 < n then IS_Disconnected else IS_PreLogin)"
    "w_lastInitState w = (if 15000 < n then IS_Disconnected else w_lastInitState (en_world s))"
    using restarted_poll [OF s(2-9) assms(1) s(10,11)] by blast
  have "onConnectLoop s = Some (True, s\<lparr>en_init := im, en_world := w\<rparr>)"
    using p(1) s(12) call_poll_empty by (simp add: onConnectLoop_def)
  with s(1,10,13) p(2-4) show ?thesis by (simp add: GetInitStateMachineState_def)
qed

theorem failed_start_spoils_next_witness:
  "\<exists>s s'. restarted sample_login 30000 (new_OnSipXmpp True 4294967000 0 None) = Some (ConnNoError, s) \<and>
     onConnectLoop s = Some (True, s') \<and> GetInitStateMachineState s' = IS_Disconnected"
proof -
  have "j_serverRaw (login_jid sample_login) \<noteq> []" by code_simp
  from failed_start_spoils_next [OF _ this, of 30000 True 4294967000 0 None] show ?thesis by auto
qed

end
