(* ===== verification/Tapi.thy ===== *)
theory Tapi
  imports Polling
begin

text \<open>
  \<open>OnSipTAPI/OnSipTapi.cpp\<close>: the engine as the TAPI driver uses it (\<open>w_isTapi\<close>), which collects the
  notifications of both machines in two lists, and its blocking operations: connect and initialise,
  poll, disconnect; the TAPI call state of a call; the events of \<open>OnSip.h\<close> the driver
  makes of the notifications. Time passes in turns: one \<open>Poll\<close> with what it receives, and the sleep
  behind it.
\<close>

section \<open>The TAPI call state\<close>

text \<open>The values of \<open>tapi.h\<close>.\<close>

definition LINECALLSTATE_IDLE :: dword where "LINECALLSTATE_IDLE = 0x1"
definition LINECALLSTATE_OFFERING :: dword where "LINECALLSTATE_OFFERING = 0x2"
definition LINECALLSTATE_DIALTONE :: dword where "LINECALLSTATE_DIALTONE = 0x8"
definition LINECALLSTATE_DIALING :: dword where "LINECALLSTATE_DIALING = 0x10"
definition LINECALLSTATE_CONNECTED :: dword where "LINECALLSTATE_CONNECTED = 0x100"
definition LINECALLSTATE_PROCEEDING :: dword where "LINECALLSTATE_PROCEEDING = 0x200"
definition LINECALLSTATE_UNKNOWN :: dword where "LINECALLSTATE_UNKNOWN = 0x8000"

lemmas linecallstate_defs = LINECALLSTATE_IDLE_def LINECALLSTATE_OFFERING_def LINECALLSTATE_DIALTONE_def
  LINECALLSTATE_DIALING_def LINECALLSTATE_CONNECTED_def LINECALLSTATE_PROCEEDING_def LINECALLSTATE_UNKNOWN_def

definition GetTapiCallState :: "call_state \<Rightarrow> call_data \<Rightarrow> dword" where
  "GetTapiCallState callState callStateData =
     (let callType = m_callType callStateData;
          dwCallState =
            (if callState = CS_Dropped then LINECALLSTATE_IDLE
             else if callState = CS_Connected \<or> callState = CS_PreDropCall then LINECALLSTATE_CONNECTED
             else if callState = CS_PhysicalOutProceeding then LINECALLSTATE_PROCEEDING
             else if callState = CS_Offering then LINECALLSTATE_OFFERING
             else if callType = CT_MakeCall then
               (if callState = CS_PreMakeCall \<or> callState = CS_MakeCallSet then LINECALLSTATE_DIALTONE
                else if callState = CS_MakeCallRequested \<or> callState = CS_MakeCallRequestedAnswered
                  then LINECALLSTATE_DIALING
                else if callState = CS_MakeCallOutgoingCreated then LINECALLSTATE_PROCEEDING
                else 0)
             else 0)
      in if dwCallState = 0 then LINECALLSTATE_UNKNOWN else dwCallState)"

text \<open>What each kind of call can show.\<close>

fun tapi_states :: "call_kind \<Rightarrow> dword set" where
  "tapi_states OutgoingCall = {LINECALLSTATE_PROCEEDING, LINECALLSTATE_CONNECTED, LINECALLSTATE_IDLE}"
| "tapi_states IncomingCall = {LINECALLSTATE_OFFERING, LINECALLSTATE_CONNECTED, LINECALLSTATE_IDLE}"
| "tapi_states MakeCall = {LINECALLSTATE_DIALTONE, LINECALLSTATE_DIALING, LINECALLSTATE_PROCEEDING,
     LINECALLSTATE_CONNECTED, LINECALLSTATE_IDLE}"

section \<open>The events of the driver\<close>

definition extractNumberFromSIP :: "tstring \<Rightarrow> tstring" where
  "extractNumberFromSIP toFromUri =
     (if \<not> startsWith toFromUri ''sip:'' then ''''
      else if \<not> contains toFromUri ''@'' then ''''
      else
        let ret = (case sfind ''@'' toFromUri of None \<Rightarrow> drop 4 toFromUri
                   | Some npos \<Rightarrow> take (npos - 4) (drop 4 toFromUri));
            number = stripNonNumeric ret
        in if length number = length ret then number else '''')"

datatype onsip_event =
  CallEvent call_state call_data change_reason
| ConnectEvent init_state change_reason

definition event_CallId :: "call_data \<Rightarrow> dword" where
  "event_CallId d = m_callId d"

definition event_RemoteID :: "call_data \<Rightarrow> tstring" where
  "event_RemoteID d = extractNumberFromSIP (m_remoteId d)"

definition event_CalledID :: "call_data \<Rightarrow> tstring" where
  "event_CalledID d = extractNumberFromSIP (m_calledId d)"

section \<open>Operations of OnSipTapi\<close>

text \<open>
  One turn of a blocking loop: whether the stop event is found signalled before it, what its \<open>recv\<close>
  calls deliver, and the clocks after the sleep that follows the poll.
\<close>

record turn =
  tn_stop :: bool
  tn_recv :: "recv_step list"
  tn_tick :: dword
  tn_clock :: long

definition after_sleep :: "turn \<Rightarrow> engine \<Rightarrow> engine" where
  "after_sleep t s = s\<lparr>en_world := (en_world s)\<lparr>w_tick := tn_tick t, w_clock := tn_clock t\<rparr>\<rparr>"

definition clear_events :: "engine \<Rightarrow> engine" where
  "clear_events s = s\<lparr>en_world := ClearEvents (en_world s)\<rparr>"

definition OnSipTapi_Connect :: "login \<Rightarrow> bool \<Rightarrow> engine \<Rightarrow> (bool \<times> conn_error \<times> engine) option" where
  "OnSipTapi_Connect loginInfo connects s = do {
     (ce, s1) \<leftarrow> Start loginInfo connects (clear_events s);
     Some (ce = ConnNoError, ce, s1)
   }"

text \<open>\<^const>\<open>None\<close> as the answer: what is delivered does not reach to the end of the poll.\<close>

definition OnSipTapi_Poll :: "recv_step list \<Rightarrow> engine \<Rightarrow> (bool option \<times> engine) option" where
  "OnSipTapi_Poll sch s = do {
     (r, s', _) \<leftarrow> PollXMPP 1000 sch s;
     Some (map_option (\<lambda>ce. ce = ConnNoError) r, s')
   }"

fun shutdown_loop :: "timeout \<Rightarrow> turn list \<Rightarrow> engine \<Rightarrow> (bool \<times> engine) option" where
  "shutdown_loop tmout [] s = Some (False, s)"
| "shutdown_loop tmout (t # ts) s = do {
     (r, s1) \<leftarrow> OnSipTapi_Poll (tn_recv t) s;
     (case r of
        None \<Rightarrow> Some (False, s1)
      | Some polled \<Rightarrow>
          if \<not> polled \<or> IsExpired tmout (w_clock (en_world s1)) then Some (True, s1)
          else let s2 = after_sleep t s1 in
            if IsShutdownComplete s2 then Some (True, s2) else shutdown_loop tmout ts s2)
   }"

text \<open>The flag of the result says whether the turns reach to the end of the call.\<close>

definition OnSipTapi_Disconnect :: "bool \<Rightarrow> turn list \<Rightarrow> engine \<Rightarrow> (bool \<times> engine) option" where
  "OnSipTapi_Disconnect bShutdown ts s = do {
     (done, s1) \<leftarrow>
       (if bShutdown then shutdown_loop (TimeOut 5000 (w_clock (en_world s))) ts (AsyncShutdown s)
        else Some (True, s));
     if done then map_option (Pair True) (Cleanup s1) else Some (False, s1)
   }"

fun init_loop :: "turn list \<Rightarrow> init_states_type \<Rightarrow> engine \<Rightarrow> (bool option \<times> init_states_type \<times> engine) option" where
  "init_loop [] ty s = Some (None, ty, s)"
| "init_loop (t # ts) ty s =
     (if tn_stop t then Some (Some False, IT_FATAL, s)
      else do {
        (r, s1) \<leftarrow> OnSipTapi_Poll (tn_recv t) s;
        (case r of
           None \<Rightarrow> Some (None, ty, s1)
         | Some polled \<Rightarrow>
             if \<not> polled then Some (Some False, IT_DISCONNECTED, s1)
             else
               let s2 = after_sleep t s1;
                   stateType = GetInitStatesType (GetInitStateMachineState s2)
               in if stateType = IT_DISCONNECTED \<or> stateType = IT_FATAL then Some (Some False, stateType, s2)
                  else if stateType = IT_OK then Some (Some True, stateType, clear_events s2)
                  else init_loop ts stateType s2)
      })"

definition InitOnSipTapi ::
  "login \<Rightarrow> bool \<Rightarrow> turn list \<Rightarrow> engine \<Rightarrow> (bool option \<times> init_states_type \<times> engine) option" where
  "InitOnSipTapi loginInfo connects ts s = do {
     (ok, ce, s1) \<leftarrow> OnSipTapi_Connect loginInfo connects s;
     if \<not> ok then
       Some (Some False, if ce = ConnAuthenticationFailed \<or> ce = ConnOutOfMemory then IT_FATAL else IT_DISCONNECTED, s1)
     else init_loop ts IT_NOTSET s1
   }"


section \<open>Every call has a TAPI state\<close>

lemma tapi_state_of_inv:
  assumes "call_inv h" shows "GetTapiCallState (ch_state h) (ch_data h) \<in> tapi_states (ch_kind h)"
  using assms by (cases "ch_kind h") (auto simp: call_inv_def GetTapiCallState_def Let_def linecallstate_defs)

text \<open>
  C29. The driver always has a TAPI state for a call: in any history of the engine every call handler is
  in a state that \<open>GetTapiCallState\<close> translates to one of the states its kind of call can show
  (proceeding for a call dialled on the phone, offering for an incoming one, dialtone, dialing or
  proceeding for one requested by TAPI, and connected and idle for all), never to \<open>UNKNOWN\<close>; and it is
  idle exactly when the handler has dropped the call.
\<close>
theorem tapi_state_known:
  assumes "engine_run s" and "h \<in> set (sm_handlers (en_call s))"
  shows "GetTapiCallState (ch_state h) (ch_data h) \<in> tapi_states (ch_kind h) \<and>
     GetTapiCallState (ch_state h) (ch_data h) \<noteq> LINECALLSTATE_UNKNOWN \<and>
     (GetTapiCallState (ch_state h) (ch_data h) = LINECALLSTATE_IDLE \<longleftrightarrow> ch_state h = CS_Dropped)"
proof -
  have i: "call_inv h" using engine_run_inv [OF assms(1)] assms(2) by (simp add: engine_inv_def)
  from tapi_state_of_inv [OF i] have "GetTapiCallState (ch_state h) (ch_data h) \<noteq> LINECALLSTATE_UNKNOWN"
    by (cases "ch_kind h") (auto simp: linecallstate_defs)
  with tapi_state_of_inv [OF i] show ?thesis
    by (auto simp: GetTapiCallState_def Let_def linecallstate_defs)
qed

definition sample_dialling :: engine where
  "sample_dialling = snd (the (onConnectLoop (snd (OnSipXmpp_MakeCall ''5551234'' sample_polled))))"

lemma sample_dialling_run: "engine_run sample_dialling"
proof -
  have r: "engine_run (snd (OnSipXmpp_MakeCall ''5551234'' sample_polled))"
    by (rule engine_run.dialled [OF sample_polled_run])
  obtain s' where "onConnectLoop (snd (OnSipXmpp_MakeCall ''5551234'' sample_polled)) = Some (True, s')"
    using onConnectLoop_inv [OF engine_run_inv [OF r]] by blast
  with engine_run.polled [OF r this] show ?thesis by (simp add: sample_dialling_def)
qed

theorem tapi_state_known_witness:
  "\<exists>h. sm_handlers (en_call sample_dialling) = [h] \<and>
     GetTapiCallState (ch_state h) (ch_data h) \<in> tapi_states (ch_kind h) \<and>
     GetTapiCallState (ch_state h) (ch_data h) = LINECALLSTATE_DIALTONE"
proof -
  have "map (\<lambda>h. GetTapiCallState (ch_state h) (ch_data h)) (sm_handlers (en_call sample_dialling)) = [LINECALLSTATE_DIALTONE]"
    by code_simp
  then obtain h where "sm_handlers (en_call sample_dialling) = [h]"
    "GetTapiCallState (ch_state h) (ch_data h) = LINECALLSTATE_DIALTONE" by auto
  with tapi_state_known [OF sample_dialling_run, of h] show ?thesis by auto
qed

section \<open>Initialisation\<close>

text \<open>Each turn's deliveries are within the contract, in the order they happen.\<close>

fun turns_ok :: "turn list \<Rightarrow> engine \<Rightarrow> bool" where
  "turns_ok [] s = True"
| "turns_ok (t # ts) s =
     (tn_stop t \<or>
      schedule_ok (TimeOut 1000 (w_clock (en_world s))) (tn_recv t) ConnNoError s \<and>
      (case OnSipTapi_Poll (tn_recv t) s of
         Some (Some True, s1) \<Rightarrow> turns_ok ts (after_sleep t s1)
       | _ \<Rightarrow> True))"

lemma Poll_run:
  assumes "engine_run s" and "schedule_ok (TimeOut 1000 (w_clock (en_world s))) sch ConnNoError s"
  shows "\<exists>r s'. OnSipTapi_Poll sch s = Some (r, s') \<and> engine_run s'"
  using polling_loop_run [OF assms] by (auto simp: OnSipTapi_Poll_def PollXMPP_def AsyncPolling_def)

lemma after_sleep_run: "engine_run s \<Longrightarrow> engine_run (after_sleep t s)"
  unfolding after_sleep_def by (rule engine_run.waited)

lemma clear_events_run: "engine_run s \<Longrightarrow> engine_run (clear_events s)"
  unfolding clear_events_def ClearEvents_def by (rule engine_run.fetched)

lemma init_loop_run:
  assumes "engine_run s" and "turns_ok ts s" and "ty \<noteq> IT_OK"
  shows "\<exists>r ty' s'. init_loop ts ty s = Some (r, ty', s') \<and> engine_run s' \<and>
     (r = Some True \<longleftrightarrow> ty' = IT_OK) \<and>
     (r = Some True \<longrightarrow> GetInitStatesType (GetInitStateMachineState s') = IT_OK \<and>
        w_lstCallEvents (en_world s') = [] \<and> w_lstInitEvents (en_world s') = []) \<and>
     (r = Some False \<longrightarrow> ty' = IT_FATAL \<or> ty' = IT_DISCONNECTED)"
  using assms
proof (induction ts arbitrary: ty s)
  case (Cons t ts)
  show ?case
  proof (cases "tn_stop t")
    case False
    with Cons.prems(2) have "schedule_ok (TimeOut 1000 (w_clock (en_world s))) (tn_recv t) ConnNoError s" by simp
    from Poll_run [OF Cons.prems(1) this] obtain r s1 where p: "OnSipTapi_Poll (tn_recv t) s = Some (r, s1)" "engine_run s1"
      by blast
    let ?s2 = "after_sleep t s1" and ?ty = "GetInitStatesType (GetInitStateMachineState (after_sleep t s1))"
    have run: "engine_run ?s2" by (rule after_sleep_run [OF p(2)])
    show ?thesis
    proof (cases "r = Some True \<and> ?ty \<notin> {IT_DISCONNECTED, IT_FATAL, IT_OK}")
      case True
      with False p Cons.prems(2) have "turns_ok ts ?s2" by simp
      from Cons.IH [OF run this, of ?ty] True False p show ?thesis by (simp add: Let_def)
    next
      case no: False
      have "GetInitStateMachineState (clear_events s) = GetInitStateMachineState s" for s
        by (simp add: clear_events_def ClearEvents_def GetInitStateMachineState_def)
      with no False p run clear_events_run [OF run] Cons.prems(3) show ?thesis
        by (cases r) (auto simp: Let_def clear_events_def ClearEvents_def)
    qed
  qed (use Cons.prems in auto)
qed auto


text \<open>
  C28. The outcome of \<open>InitOnSipTapi\<close>: called on a new engine, on one that was cleaned up, or on a running
  one that has been polled, with deliveries within the contract, it never faults and leaves the
  engine in one of its histories; it answers true exactly with the type \<open>OK\<close>, then the init machine has
  reported a state of that type and no notification is left over; and it answers false only with the
  types \<open>FATAL\<close> and \<open>DISCONNECTED\<close>.
\<close>
theorem InitOnSipTapi_result:
  assumes "startable s"
    and "\<And>s1. Start l connects (clear_events s) = Some (ConnNoError, s1) \<Longrightarrow> turns_ok ts s1"
  shows "\<exists>r ty s'. InitOnSipTapi l connects ts s = Some (r, ty, s') \<and> engine_run s' \<and>
     (r = Some True \<longleftrightarrow> ty = IT_OK) \<and>
     (r = Some True \<longrightarrow> GetInitStatesType (GetInitStateMachineState s') = IT_OK \<and>
        w_lstCallEvents (en_world s') = [] \<and> w_lstInitEvents (en_world s') = []) \<and>
     (r = Some False \<longrightarrow> ty = IT_FATAL \<or> ty = IT_DISCONNECTED)"
proof -
  have st: "startable (clear_events s)"
    using assms(1) by (auto simp: startable_def clear_events_def ClearEvents_def engine_ok_def engine_up_def)
  from Start_inv [OF st] obtain ce s1 where s1: "Start l connects (clear_events s) = Some (ce, s1)" by blast
  have run: "engine_run s1" by (rule engine_run.started [OF st s1])
  show ?thesis
  proof (cases "ce = ConnNoError")
    case True
    with init_loop_run [OF run assms(2)] s1 show ?thesis
      by (simp add: InitOnSipTapi_def OnSipTapi_Connect_def)
  next
    case False
    with s1 run show ?thesis by (simp add: InitOnSipTapi_def OnSipTapi_Connect_def)
  qed
qed

text \<open>A login as it goes: the connection, the answer to the authorization and the notice of the subscription, all in the first poll.\<close>

definition recv_at :: "inbound list \<Rightarrow> long \<Rightarrow> recv_step" where
  "recv_at xs t = \<lparr>rs_inbound = xs, rs_result = ConnNoError, rs_tick = t, rs_clock = t\<rparr>"

definition sample_call_subscription :: message where
  "sample_call_subscription = \<lparr>msg_id = ''m1'', msg_to = JID ''alice@dashboard.onsip.com'',
     msg_from = JID ''pubsub.active-calls.xmpp.onsip.com'', msg_tag = None, msg_error = None, msg_event = None,
     msg_subscribed = Some (Tag ''subscription'' '''' [(''node'', ''/onsip.com/alice''), (''jid'', ''alice''),
       (''subscription'', ''subscribed''), (''subid'', ''s1'')] [])\<rparr>"

definition sample_login_turn :: "long \<Rightarrow> turn" where
  "sample_login_turn t = \<lparr>tn_stop = False,
     tn_recv = [recv_at [] (t + 300), recv_at [In_Connect] (t + 400), recv_at [In_Iq (sample_iq\<lparr>iq_id := ''uid2''\<rparr>)] (t + 600),
       recv_at [In_Message sample_call_subscription] (t + 700), recv_at [] (t + 1001)],
     tn_tick = t + 1051, tn_clock = t + 1051\<rparr>"

theorem InitOnSipTapi_result_witness:
  "\<exists>s'. InitOnSipTapi sample_login True [sample_login_turn 0] (new_OnSipXmpp True 0 0 None) = Some (Some True, IT_OK, s') \<and>
     engine_run s' \<and> w_lstCallEvents (en_world s') = []"
proof -
  let ?s = "new_OnSipXmpp True 0 0 None"
  have c: "case Start sample_login True (clear_events ?s) of Some (ce, s1) \<Rightarrow> turns_ok [sample_login_turn 0] s1 | None \<Rightarrow> True"
    and r: "map_option (\<lambda>(r, ty, s'). (r, ty)) (InitOnSipTapi sample_login True [sample_login_turn 0] ?s) = Some (Some True, IT_OK)"
    by code_simp+
  have "turns_ok [sample_login_turn 0] s1" if "Start sample_login True (clear_events ?s) = Some (ConnNoError, s1)" for s1
    using c that by simp
  from InitOnSipTapi_result [where s = ?s and l = sample_login and connects = True and ts = "[sample_login_turn 0]", OF startable_new this] r
  show ?thesis by auto
qed

section \<open>A reconnect\<close>

definition awaiting :: "init_handler \<Rightarrow> engine \<Rightarrow> bool" where
  "awaiting h s \<longleftrightarrow>
     engine_inv s \<and> ih_state h = IS_PreLogin \<and> bm_events (en_init s) = [] \<and> connected (en_world s) \<and>
     (sm_handlers (en_init s) = [h] \<and> bm_handlerRequests (en_init s) = [] \<or>
      sm_handlers (en_init s) = [] \<and> bm_handlerRequests (en_init s) = [h]) \<and>
     unat (w_tick (en_world s) - si_last (ih_item h)) \<le> 15000"

lemma Init_Poll_waits:
  assumes "ih_state h = IS_PreLogin" and "unat (w_tick w - si_last (ih_item h)) \<le> 15000"
  shows "Init_PollStateHandler h w = Some (False, h, w)"
proof -
  have "w_tick w = si_last (ih_item h) + word_of_nat (unat (w_tick w - si_last (ih_item h)))" by simp
  from Init_Poll_preLogin [OF assms(1) this] assms(2) show ?thesis by simp
qed

lemma awaiting_init_poll:
  assumes "awaiting h s"
  shows "\<exists>m. BasePollStateHandlers init_ops (en_init s) (en_world s) = Some (m, en_world s) \<and>
     sm_handlers m = [h] \<and> bm_handlerRequests m = [] \<and> bm_requestChange m = 0 \<and> bm_events m = []"
proof -
  let ?w = "en_world s"
  have h: "ih_state h \<noteq> IS_ShutDown" using assms by (simp add: awaiting_def)
  have p: "pollLoop init_ops ns [h] ?w = Some ([h], ?w)" for ns
    using Init_Poll_waits [of h ?w] assms by (simp add: awaiting_def init_ops_def)
  have poll: "PollStateHandlers init_ops m ?w = Some (m, ?w)" if "sm_handlers m = [h]" for m :: init_machine
    using p that init_checkExist_alive [OF h, of m ?w] by (simp add: PollStateHandlers_def)
  have ev: "getEvents m = ([], m\<lparr>bm_eventChange := c\<rparr>) \<or> getEvents m = ([], m)"
    if "bm_events m = []" "c = 0" for m :: init_machine and c
    using that by (cases m) (auto simp: getEvents_def)
  have rc: "bm_requestChange (en_init s) = word_of_nat (length (bm_handlerRequests (en_init s)))"
    using assms by (simp add: awaiting_def engine_inv_def)
  show ?thesis
  proof (cases "sm_handlers (en_init s) = [h]")
    case True
    with assms rc have q: "getRequests (en_init s) = ([], en_init s)" "bm_handlerRequests (en_init s) = []"
      "bm_requestChange (en_init s) = 0" "bm_events (en_init s) = []"
      by (auto simp: awaiting_def getRequests_def)
    from ev [OF q(4), of 0] True q poll show ?thesis by (auto simp: BasePollStateHandlers_def)
  next
    case False
    let ?m = "(en_init s)\<lparr>bm_handlerRequests := [], bm_requestChange := 0\<rparr>"
    from False assms rc have q: "getRequests (en_init s) = ([h], ?m)" "sm_handlers (en_init s) = []" "bm_events (en_init s) = []"
      by (auto simp: awaiting_def getRequests_def)
    have r: "requestLoop init_ops [h] ?m ?w = Some (?m\<lparr>sm_handlers := [h]\<rparr>, ?w)"
      using q(2) h by (simp add: init_ops_def Init_IsStillExist_def AddStateHandler_def)
    from ev [of "?m\<lparr>sm_handlers := [h]\<rparr>" 0] q r poll show ?thesis
      by (auto simp: BasePollStateHandlers_def simp del: requestLoop.simps)
  qed
qed

lemma awaiting_poll:
  assumes "awaiting h s"
  shows "\<exists>s'. onConnectLoop s = Some (True, s') \<and> awaiting h s' \<and>
     GetInitStateMachineState s' = GetInitStateMachineState s"
proof -
  obtain m where m: "BasePollStateHandlers init_ops (en_init s) (en_world s) = Some (m, en_world s)"
    "sm_handlers m = [h]" "bm_handlerRequests m = []" "bm_requestChange m = 0" "bm_events m = []"
    using awaiting_init_poll [OF assms] by blast
  obtain s' where s': "onConnectLoop s = Some (True, s')" "engine_inv s'"
    using onConnectLoop_inv assms by (auto simp: awaiting_def)
  then obtain cm w where c: "BasePollStateHandlers call_ops (en_call s) (en_world s) = Some (cm, w)"
    and e: "s' = s\<lparr>en_init := m, en_call := cm, en_world := w\<rparr>"
    using m(1) by (auto simp: onConnectLoop_def bind_eq_Some_conv)
  have k: "client_same (en_world s) w" by (rule call_frame.BasePoll_keep [OF c])
  then have "connected w = connected (en_world s)" "w_tick w = w_tick (en_world s)"
    "w_lastInitState w = w_lastInitState (en_world s)"
    by (auto simp: client_frame_defs connected_def map_option_case split: option.splits)
  with e m s' assms show ?thesis by (simp add: awaiting_def GetInitStateMachineState_def)
qed


text \<open>Deliveries of nothing, while the login is at most 15 seconds old.\<close>

definition quiet :: "dword \<Rightarrow> recv_step \<Rightarrow> bool" where
  "quiet t0 st \<longleftrightarrow> rs_inbound st = [] \<and> rs_result st = ConnNoError \<and> unat (rs_tick st - t0) \<le> 15000"

lemma awaiting_turn:
  assumes "awaiting h s"
  shows "\<exists>s'. polling_turn s = Some s' \<and> awaiting h s' \<and> GetInitStateMachineState s' = GetInitStateMachineState s"
proof -
  obtain s1 where p: "onConnectLoop s = Some (True, s1)" "awaiting h s1"
    "GetInitStateMachineState s1 = GetInitStateMachineState s" using awaiting_poll [OF assms] by blast
  then have "engine_inv (s1\<lparr>en_world := (en_world s1)\<lparr>w_tmrConnectLoop := tmr\<rparr>\<rparr>)" for tmr
    using timer_inv by (simp add: awaiting_def)
  with p assms show ?thesis by (auto simp: polling_turn_def awaiting_def GetInitStateMachineState_def connected_def)
qed

lemma awaiting_recv:
  assumes "awaiting h s" and "quiet (si_last (ih_item h)) st"
  shows "\<exists>s'. gloox_recv st s = Some (ConnNoError, s') \<and> awaiting h s' \<and>
     GetInitStateMachineState s' = GetInitStateMachineState s \<and> w_clock (en_world s') = rs_clock st"
proof -
  obtain g where "w_gloox (en_world s) = Some g" "gl_connected g"
    using assms(1) by (auto simp: awaiting_def connected_def split: option.splits)
  with assms time_inv [of s] show ?thesis
    by (auto simp: gloox_recv_def quiet_def awaiting_def GetInitStateMachineState_def connected_def)
qed

lemma awaiting_loop:
  assumes "awaiting h s" and "\<forall>st \<in> set sch. quiet (si_last (ih_item h)) st"
  shows "\<exists>r s' rest. polling_loop until sch ConnNoError s = Some (r, s', rest) \<and> awaiting h s' \<and>
     GetInitStateMachineState s' = GetInitStateMachineState s \<and> (r \<noteq> None \<longrightarrow> r = Some ConnNoError) \<and>
     (sch \<noteq> [] \<and> IsExpired until (rs_clock (last sch)) \<longrightarrow> r \<noteq> None)"
  using assms
proof (induction sch arbitrary: s)
  case Nil
  with awaiting_turn [OF Nil.prems(1)] show ?case by auto
next
  case (Cons st rest)
  show ?case
  proof (cases "IsExpired until (w_clock (en_world s))")
    case True
    with Cons.prems(1) show ?thesis by auto
  next
    case False
    obtain s1 where t: "polling_turn s = Some s1" "awaiting h s1"
      "GetInitStateMachineState s1 = GetInitStateMachineState s" using awaiting_turn [OF Cons.prems(1)] by blast
    obtain s2 where g: "gloox_recv st s1 = Some (ConnNoError, s2)" "awaiting h s2"
      "GetInitStateMachineState s2 = GetInitStateMachineState s1" "w_clock (en_world s2) = rs_clock st"
      using awaiting_recv [OF t(2)] Cons.prems(2) by (metis list.set_intros(1))
    obtain r s' rest' where p: "polling_loop until rest ConnNoError s2 = Some (r, s', rest')" "awaiting h s'"
      "GetInitStateMachineState s' = GetInitStateMachineState s2" "r \<noteq> None \<longrightarrow> r = Some ConnNoError"
      "rest \<noteq> [] \<and> IsExpired until (rs_clock (last rest)) \<longrightarrow> r \<noteq> None"
      using Cons.IH [OF g(2)] Cons.prems(2) by auto
    have "IsExpired until (rs_clock st) \<Longrightarrow> rest = [] \<Longrightarrow> r \<noteq> None" using p(1) g(4) by auto
    with False t g p show ?thesis by auto
  qed
qed

lemma Remove_init_last:
  assumes "RemoveStateHandlers init_ops m w = (m', w')" shows "w_lastInitState w' = w_lastInitState w"
proof -
  have "w_lastInitState (op_deleteHandler init_ops h v) = w_lastInitState v" for h v
    by (cases "delete_reauthorizer_opt h v")
      (auto simp: init_ops_def delete_init_handler_def delete_event_opt_def delete_event_def
        delete_reauthorizer_opt_def delete_reauthorizer_def delete_EnableCallEventsWorker_def Let_def
        split: option.splits if_splits)
  then have "w_lastInitState (foldl (\<lambda>w h. op_deleteHandler init_ops h w) v hs) = w_lastInitState v" for hs v
    by (induction hs arbitrary: v) simp_all
  with assms show ?thesis by (auto simp: RemoveStateHandlers_def)
qed

lemma Start_awaiting:
  assumes "startable s" and "bm_events (en_init s) = []" and "j_serverRaw (login_jid l) \<noteq> []"
  shows "\<exists>s' h. Start l True s = Some (ConnNoError, s') \<and> awaiting h s' \<and>
     GetInitStateMachineState s' = GetInitStateMachineState s \<and>
     w_clock (en_world s') = w_clock (en_world s) \<and> si_last (ih_item h) = w_tick (en_world s)"
proof -
  obtain im w1 where i: "RemoveStateHandlers init_ops (en_init s) (en_world s) = (im, w1)"
    by (cases "RemoveStateHandlers init_ops (en_init s) (en_world s)")
  obtain cm w2 where c: "RemoveStateHandlers call_ops (en_call s) w1 = (cm, w2)"
    by (cases "RemoveStateHandlers call_ops (en_call s) w1")
  have k: "w_lastInitState w2 = w_lastInitState (en_world s)" "w_tick w2 = w_tick (en_world s)"
    "w_clock w2 = w_clock (en_world s)"
    using Remove_init_last [OF i] call_frame.RemoveStateHandlers_keep [OF c] init_frame.RemoveStateHandlers_keep [OF i]
    by (simp_all add: client_frame_defs)
  obtain s' where s': "Start l True s = Some (ConnNoError, s')" "engine_inv s'"
    using Start_inv [OF assms(1), of l True] assms(3) by auto
  have r: "bm_handlerRequests im = []" "bm_events im = []" "sm_handlers im = []"
    using Remove_startable(1) [OF assms(1) i c] assms(1,2) by (simp_all add: startable_def)
  have "awaiting (new_InitStateHandler w2) s'"
    using s' i c r assms(3) by (auto simp: awaiting_def Start_def BaseStart_def Let_def AddStateHandlerRequest_def
        new_InitStateHandler_def new_state_item_def connected_def)
  with s' i c k assms(3) show ?thesis
    by (auto simp: Start_def BaseStart_def Let_def GetInitStateMachineState_def new_InitStateHandler_def
        new_state_item_def)
qed


text \<open>The sample engine after it was connected and the server has closed the connection, cleaned up.\<close>

definition sample_closed :: engine where
  "sample_closed = the (Cleanup (the (deliver_all [In_Connect, In_Disconnect] sample_polled)))"

definition sample_turn :: turn where
  "sample_turn = \<lparr>tn_stop = False,
     tn_recv = [\<lparr>rs_inbound = [], rs_result = ConnNoError, rs_tick = 500, rs_clock = 600\<rparr>,
                \<lparr>rs_inbound = [], rs_result = ConnNoError, rs_tick = 1000, rs_clock = 1100\<rparr>],
     tn_tick = 1050, tn_clock = 1150\<rparr>"


end
