(* ===== verification/Tsp.thy ===== *)
theory Tsp
  imports Tapi
begin

text \<open>
  The part of the TSP++ library that the driver's line works with: requests (\<open>Request.cpp\<close>), the call
  appearances of the line's one address (\<open>Call.cpp\<close>, \<open>Address.cpp\<close>) and the queue of asynchronous
  requests (\<open>Conn.cpp\<close>). Every operation takes the line and answers the new one; what TAPI is told is
  appended to \<open>ln_tapi\<close>. Objects are found by a number that stands for their address; a call that was
  removed stays in the list, marked, as long as a request may refer to it. Left out are the locks (an
  operation is one step), call features, counters, media modes, hubs, conferences and
  consultation calls, none of which the driver uses, and the change notices of the call information.
\<close>

datatype tsp_command =
  REQUEST_SETCALLDATA | REQUEST_MAKECALL | REQUEST_DIAL | REQUEST_DROPCALL | REQUEST_OTHER

definition STATE_INITIAL :: dword where "STATE_INITIAL = 0"
definition STATE_IGNORE :: dword where "STATE_IGNORE = 0xffff0001"
definition STATE_NOTPROCESSED :: dword where "STATE_NOTPROCESSED = 0xffff0002"
definition STATE_COMPLETED :: dword where "STATE_COMPLETED = 0xffff0003"
definition STATE_WAITING :: dword where "STATE_WAITING = STATE_INITIAL + 1"
definition REQUEST_TIMEOUT :: dword where "REQUEST_TIMEOUT = 10000"

lemmas state_defs = STATE_INITIAL_def STATE_IGNORE_def STATE_NOTPROCESSED_def STATE_COMPLETED_def
  STATE_WAITING_def

text \<open>The values of \<open>tapi.h\<close>.\<close>

definition LINEERR_OPERATIONFAILED :: long where "LINEERR_OPERATIONFAILED = 0x80000048"
definition LINEERR_INVALCALLSTATE :: long where "LINEERR_INVALCALLSTATE = 0x8000001C"
definition LINEDIALTONEMODE_NORMAL :: dword where "LINEDIALTONEMODE_NORMAL = 0x1"
definition LINEOFFERINGMODE_INACTIVE :: dword where "LINEOFFERINGMODE_INACTIVE = 0x2"
definition LINECALLREASON_DIRECT :: dword where "LINECALLREASON_DIRECT = 0x1"
definition LINECALLREASON_UNKNOWN :: dword where "LINECALLREASON_UNKNOWN = 0x400"
definition LINECALLORIGIN_OUTBOUND :: dword where "LINECALLORIGIN_OUTBOUND = 0x1"
definition LINECALLORIGIN_UNKNOWN :: dword where "LINECALLORIGIN_UNKNOWN = 0x10"
definition LINECALLORIGIN_INBOUND :: dword where "LINECALLORIGIN_INBOUND = 0x80"

lemma errors_nonzero [simp]: "LINEERR_OPERATIONFAILED \<noteq> 0" "LINEERR_INVALCALLSTATE \<noteq> 0"
  by (simp_all add: LINEERR_OPERATIONFAILED_def LINEERR_INVALCALLSTATE_def)

record tsp_request =
  tr_ptr :: nat
  tr_command :: tsp_command
  tr_requestId :: dword
  tr_state :: dword
  tr_stateTime :: dword
  tr_responseSent :: bool
  tr_result :: long
  tr_call :: nat
  tr_numbers :: "tstring list"
  tr_country :: dword

record tsp_call =
  tc_ptr :: nat
  tc_callID :: dword
  tc_state :: dword
  tc_mode :: dword
  tc_handle :: bool
  tc_initNotify :: bool
  tc_isDropped :: bool
  tc_isDeleted :: bool
  tc_callerID :: tstring
  tc_calledID :: tstring
  tc_reason :: dword
  tc_origin :: dword

datatype tapi_msg =
  AsyncCompletion dword long | LineNewCall nat | LineCallState nat dword dword | LineClose

record tsp_line =
  ln_calls :: "tsp_call list"
  ln_requests :: "tsp_request list"
  ln_tapi :: "tapi_msg list"
  ln_tick :: dword
  ln_nextPtr :: nat
  ln_givesHandles :: bool
  ln_open :: bool
  ln_device :: "engine option"

section \<open>Objects\<close>

definition get_call :: "nat \<Rightarrow> tsp_line \<Rightarrow> tsp_call option" where
  "get_call p s = find (\<lambda>c. tc_ptr c = p) (ln_calls s)"

definition upd_call :: "nat \<Rightarrow> (tsp_call \<Rightarrow> tsp_call) \<Rightarrow> tsp_line \<Rightarrow> tsp_line" where
  "upd_call p f s = s\<lparr>ln_calls := map (\<lambda>c. if tc_ptr c = p then f c else c) (ln_calls s)\<rparr>"

definition get_request :: "nat \<Rightarrow> tsp_line \<Rightarrow> tsp_request option" where
  "get_request p s = find (\<lambda>r. tr_ptr r = p) (ln_requests s)"

definition upd_request :: "nat \<Rightarrow> (tsp_request \<Rightarrow> tsp_request) \<Rightarrow> tsp_line \<Rightarrow> tsp_line" where
  "upd_request p f s = s\<lparr>ln_requests := map (\<lambda>r. if tr_ptr r = p then f r else r) (ln_requests s)\<rparr>"

definition tell :: "tapi_msg \<Rightarrow> tsp_line \<Rightarrow> tsp_line" where
  "tell m s = s\<lparr>ln_tapi := ln_tapi s @ [m]\<rparr>"

text \<open>\<open>Send_TAPI_Event\<close>: nothing is sent when the line is not open (no event procedure).\<close>

definition Send_TAPI_Event :: "tapi_msg \<Rightarrow> tsp_line \<Rightarrow> tsp_line" where
  "Send_TAPI_Event m s = (if ln_open s then tell m s else s)"

text \<open>A new request, before it is queued.\<close>

definition new_tsp_request ::
  "tsp_command \<Rightarrow> dword \<Rightarrow> nat \<Rightarrow> tstring list \<Rightarrow> dword \<Rightarrow> tsp_line \<Rightarrow> tsp_request \<times> tsp_line" where
  "new_tsp_request cmd requestId call numbers country s =
     (\<lparr>tr_ptr = ln_nextPtr s, tr_command = cmd, tr_requestId = requestId, tr_state = STATE_NOTPROCESSED,
       tr_stateTime = 0, tr_responseSent = False, tr_result = - 1, tr_call = call, tr_numbers = numbers,
       tr_country = country\<rparr>, s\<lparr>ln_nextPtr := ln_nextPtr s + 1\<rparr>)"

definition SetState :: "dword \<Rightarrow> nat \<Rightarrow> tsp_line \<Rightarrow> tsp_line" where
  "SetState iState p s = upd_request p (\<lambda>r. r\<lparr>tr_stateTime := ln_tick s, tr_state := iState\<rparr>) s"

definition EnterState :: "dword \<Rightarrow> dword \<Rightarrow> tsp_request \<Rightarrow> tsp_line \<Rightarrow> bool \<times> tsp_line" where
  "EnterState iLookForState iNextState r s =
     (if tr_state r = iLookForState then (True, SetState iNextState (tr_ptr r) s) else (False, s))"

definition HaveSentResponse :: "tsp_request \<Rightarrow> bool" where
  "HaveSentResponse r = (if 0 < tr_requestId r then tr_responseSent r else True)"

definition OnAsynchRequestComplete :: "long \<Rightarrow> tsp_request \<Rightarrow> tsp_line \<Rightarrow> tsp_line" where
  "OnAsynchRequestComplete lResult r s =
     (if tr_requestId r \<noteq> 0 then tell (AsyncCompletion (tr_requestId r) lResult) s else s)"

definition RemoveRequest :: "nat \<Rightarrow> tsp_line \<Rightarrow> tsp_line" where
  "RemoveRequest p s = s\<lparr>ln_requests := filter (\<lambda>r. tr_ptr r \<noteq> p) (ln_requests s)\<rparr>"

definition SetCallID :: "dword \<Rightarrow> nat \<Rightarrow> tsp_line \<Rightarrow> tsp_line" where
  "SetCallID dwCallID p s = upd_call p (\<lambda>c. c\<lparr>tc_callID := dwCallID\<rparr>) s"

section \<open>Completing a request\<close>

text \<open>
  \<open>RTMakeCall::Failed\<close> and \<open>RTDropCall::Failed\<close>. Failing a request can remove its call, and removing a
  call can cancel its requests; so the removal is an argument of the operations it is built from.
\<close>

definition RT_Failed :: "(nat \<Rightarrow> tsp_line \<Rightarrow> tsp_line) \<Rightarrow> tsp_request \<Rightarrow> tsp_line \<Rightarrow> tsp_line" where
  "RT_Failed remove r s =
     (case tr_command r of
        REQUEST_MAKECALL \<Rightarrow>
          (case get_call (tr_call r) s of
             None \<Rightarrow> s
           | Some c \<Rightarrow> if \<not> tc_initNotify c then remove (tr_call r) s else s)
      | REQUEST_DROPCALL \<Rightarrow> upd_call (tr_call r) (\<lambda>c. c\<lparr>tc_isDropped := False\<rparr>) s
      | _ \<Rightarrow> s)"

text \<open>No call stands for any call.\<close>

definition IsMatchingRequest :: "nat option \<Rightarrow> bool \<Rightarrow> tsp_request \<Rightarrow> bool" where
  "IsMatchingRequest pCall fOnlyIfReqNotStarted r \<longleftrightarrow>
     (pCall = None \<or> pCall = Some (tr_call r)) \<and> (\<not> fOnlyIfReqNotStarted \<or> tr_state r = STATE_NOTPROCESSED)"

text \<open>The request is marked and its threads are released; the waiting threads are not modelled.\<close>

definition mark_result :: "long \<Rightarrow> bool \<Rightarrow> tsp_request \<Rightarrow> tsp_line \<Rightarrow> tsp_line" where
  "mark_result lResult fSend r s =
     upd_request (tr_ptr r) (\<lambda>r. r\<lparr>tr_responseSent := (if \<not> tr_responseSent r then fSend else True), tr_result := lResult\<rparr>) s"

text \<open>
  One pass of \<open>RemovePendingRequests\<close> cancels the first request that matches, other than
  \<open>pcurrRequest\<close>; an error result has no effect in \<open>OnRequestComplete\<close>. Each pass takes one request out
  of the queue, so as many passes as there are requests are enough.
\<close>

definition cancel_request :: "(nat \<Rightarrow> tsp_line \<Rightarrow> tsp_line) \<Rightarrow> long \<Rightarrow> tsp_request \<Rightarrow> tsp_line \<Rightarrow> tsp_line" where
  "cancel_request remove lErrorCode r s =
     (let s1 = RemoveRequest (tr_ptr r) s;
          s2 = (if \<not> HaveSentResponse r then OnAsynchRequestComplete lErrorCode r s1 else s1);
          s3 = mark_result lErrorCode True r s2
      in if lErrorCode \<noteq> 0 then RT_Failed remove r s3 else s3)"

fun remove_passes ::
  "nat \<Rightarrow> (nat \<Rightarrow> tsp_line \<Rightarrow> tsp_line) \<Rightarrow> nat option \<Rightarrow> long \<Rightarrow> bool \<Rightarrow> nat option \<Rightarrow> tsp_line \<Rightarrow> tsp_line" where
  "remove_passes 0 remove pCall lErrorCode fOnly pcurr s = s"
| "remove_passes (Suc n) remove pCall lErrorCode fOnly pcurr s =
     (case find (\<lambda>r. Some (tr_ptr r) \<noteq> pcurr \<and> IsMatchingRequest pCall fOnly r) (ln_requests s) of
        None \<Rightarrow> s
      | Some r \<Rightarrow> remove_passes n remove pCall lErrorCode fOnly pcurr (cancel_request remove lErrorCode r s))"

definition RemovePendingRequests ::
  "(nat \<Rightarrow> tsp_line \<Rightarrow> tsp_line) \<Rightarrow> nat option \<Rightarrow> long \<Rightarrow> bool \<Rightarrow> nat option \<Rightarrow> tsp_line \<Rightarrow> tsp_line" where
  "RemovePendingRequests remove pCall lErrorCode fOnly pcurr s =
     remove_passes (length (ln_requests s)) remove pCall lErrorCode fOnly pcurr s"

section \<open>Call states\<close>

definition FindRequest :: "nat option \<Rightarrow> tsp_command \<Rightarrow> tsp_line \<Rightarrow> tsp_request option" where
  "FindRequest pCall cmd s = find (\<lambda>r. (pCall = None \<or> pCall = Some (tr_call r)) \<and> tr_command r = cmd) (ln_requests s)"

text \<open>\<open>NotifyCallStatusChanged\<close> with a negotiated version of at least 2.0, for the states the driver sets.\<close>

definition NotifyCallStatusChanged :: "nat \<Rightarrow> tsp_line \<Rightarrow> tsp_line" where
  "NotifyCallStatusChanged p s =
     (case get_call p s of
        None \<Rightarrow> s
      | Some c \<Rightarrow>
          if \<not> tc_handle c then s
          else
            let dwP2 = (if tc_state c \<in> {LINECALLSTATE_CONNECTED, LINECALLSTATE_DIALTONE, LINECALLSTATE_OFFERING}
                        then tc_mode c else 0)
            in Send_TAPI_Event (LineCallState p (tc_state c) dwP2) s)"

text \<open>What \<open>OnCallStatusChange\<close> does when a call goes idle.\<close>

definition OnCallStatusChange :: "(nat \<Rightarrow> tsp_line \<Rightarrow> tsp_line) \<Rightarrow> dword \<Rightarrow> nat \<Rightarrow> tsp_line \<Rightarrow> tsp_line" where
  "OnCallStatusChange remove dwCallState p s =
     (if dwCallState = LINECALLSTATE_IDLE then
        let s1 = RemovePendingRequests remove (Some p) LINEERR_INVALCALLSTATE True None s in
        (case get_call p s1 of
           None \<Rightarrow> s1
         | Some c \<Rightarrow> if \<not> tc_handle c then remove p s1 else s1)
      else s)"

text \<open>The first state of a call tells TAPI that its \<open>lineMakeCall\<close> succeeded, when that is still open.\<close>

definition first_notify :: "tsp_call \<Rightarrow> nat \<Rightarrow> tsp_line \<Rightarrow> tsp_line" where
  "first_notify c p s =
     (if \<not> tc_initNotify c then
        let s1 = upd_call p (\<lambda>c. c\<lparr>tc_initNotify := True\<rparr>) s in
        (case FindRequest (Some p) REQUEST_MAKECALL s1 of
           None \<Rightarrow> s1
         | Some r \<Rightarrow>
             if \<not> HaveSentResponse r \<and> tr_state r \<noteq> STATE_COMPLETED
             then OnAsynchRequestComplete 0 r (mark_result 0 True r s1) else s1)
      else s)"

definition SetCallState_with ::
  "(nat \<Rightarrow> tsp_line \<Rightarrow> tsp_line) \<Rightarrow> dword \<Rightarrow> dword \<Rightarrow> bool \<Rightarrow> nat \<Rightarrow> tsp_line \<Rightarrow> tsp_line" where
  "SetCallState_with remove dwState dwMode fTellTapi p s =
     (case get_call p s of
        None \<Rightarrow> s
      | Some c \<Rightarrow>
          let dwCurrState = tc_state c; dwCurrMode = tc_mode c;
              fTell = (if dwState = dwCurrState \<and> (dwMode = dwCurrMode \<or> dwMode = 0) then False else fTellTapi)
          in if dwCurrState = LINECALLSTATE_IDLE \<and> dwState \<noteq> LINECALLSTATE_IDLE then s
          else
            let s1 = first_notify c p s in
            if dwCurrState \<noteq> dwState \<or> (0 < dwMode \<and> dwCurrMode \<noteq> dwMode) then
              let s2 = upd_call p (\<lambda>c. c\<lparr>tc_state := dwState,
                         tc_mode := (if 0 < dwMode \<or> dwCurrState \<noteq> dwState then dwMode else tc_mode c)\<rparr>) s1;
                  s3 = OnCallStatusChange remove dwState p s2
              in if fTell then NotifyCallStatusChanged p s3 else s3
            else s1)"

text \<open>
  \<open>RemoveCallAppearance\<close> marks the call first, so that a removal of the same call within it does
  nothing; it is the only one that can happen there.
\<close>

definition RemoveCallAppearance :: "nat \<Rightarrow> tsp_line \<Rightarrow> tsp_line" where
  "RemoveCallAppearance p s =
     (case get_call p s of
        None \<Rightarrow> s
      | Some c \<Rightarrow>
          if tc_isDeleted c then s
          else
            let s1 = upd_call p (\<lambda>c. c\<lparr>tc_isDeleted := True\<rparr>) s;
                s2 = SetCallState_with (\<lambda>_ s. s) LINECALLSTATE_IDLE 0 False p s1;
                s3 = SetCallID 0 p s2
            in upd_call p (\<lambda>c. c\<lparr>tc_handle := False\<rparr>) s3)"

definition SetCallState :: "dword \<Rightarrow> dword \<Rightarrow> nat \<Rightarrow> tsp_line \<Rightarrow> tsp_line" where
  "SetCallState dwState dwMode p s = SetCallState_with RemoveCallAppearance dwState dwMode True p s"

section \<open>The queue\<close>

text \<open>
  \<open>CTSPIRequest::Complete\<close>: a successful drop cancels what is pending for the call, a failure
  calls \<open>Failed\<close>.
\<close>

definition RT_Complete :: "long \<Rightarrow> bool \<Rightarrow> tsp_request \<Rightarrow> tsp_line \<Rightarrow> tsp_line" where
  "RT_Complete lResult fSend r s =
     (let s1 = mark_result lResult fSend r s;
          s2 = (if lResult = 0 \<and> tr_command r = REQUEST_DROPCALL
                then RemovePendingRequests RemoveCallAppearance (Some (tr_call r)) LINEERR_OPERATIONFAILED False (Some (tr_ptr r)) s1
                else s1)
      in if lResult \<noteq> 0 then RT_Failed RemoveCallAppearance r s2 else s2)"

text \<open>
  \<open>CompleteRequest\<close>. At its end the code starts the next request by calling \<open>ReceiveData\<close>; every
  handler is done with its work when it removes its request, so here the flag of the result
  asks the caller to do it.
\<close>

definition CompleteRequest :: "nat \<Rightarrow> long \<Rightarrow> bool \<Rightarrow> bool \<Rightarrow> tsp_line \<Rightarrow> bool \<times> tsp_line" where
  "CompleteRequest p lResult fTellTapi fRemoveRequest s =
     (case get_request p s of
        None \<Rightarrow> (False, s)
      | Some r \<Rightarrow>
          let fIsCurrentRequest = (map tr_ptr (take 1 (ln_requests s)) = [p]);
              fSendResponse = (\<not> HaveSentResponse r \<and> fTellTapi)
          in if tr_state r = STATE_COMPLETED then (False, s)
          else
            let s1 = (if fRemoveRequest then RemoveRequest p s else s);
                s2 = RT_Complete lResult fTellTapi r s1;
                s3 = (if fSendResponse then OnAsynchRequestComplete lResult r s2 else s2)
            in (fRemoveRequest \<and> ln_requests s3 \<noteq> [] \<and> fIsCurrentRequest, s3))"

text \<open>Both overloads of \<open>AddAsynchRequest\<close>; the flag asks the caller to start the request at once.\<close>

definition AddAsynchRequest :: "tsp_request \<Rightarrow> tsp_line \<Rightarrow> bool \<times> tsp_line" where
  "AddAsynchRequest r s =
     (let rs = ln_requests s;
          iPos = (if tr_command r = REQUEST_DROPCALL
                  then Some (length (takeWhile (\<lambda>r. tr_state r \<noteq> STATE_NOTPROCESSED) rs)) else None)
      in case iPos of
           Some 0 \<Rightarrow> (True, s\<lparr>ln_requests := r # rs\<rparr>)
         | None \<Rightarrow> (rs = [], s\<lparr>ln_requests := rs @ [r]\<rparr>)
         | Some n \<Rightarrow> (False, s\<lparr>ln_requests := take n rs @ [r] @ drop n rs\<rparr>))"

end
