(* ===== verification/TspFrame.thy ===== *)
theory TspFrame
  imports Tsp
begin

text \<open>
  What the operations of the TSP++ part keep: the interface \<open>line_frame\<close> asks a relation between lines
  to hold for the elementary steps, and gives it for every operation. It is interpreted on the
  number of requests (which only shrinks), on the balance of requests and answers, and on the
  finality of the idle state.
\<close>

section \<open>Lookups\<close>

lemma get_call_upd:
  "(\<And>c. tc_ptr (f c) = tc_ptr c) \<Longrightarrow>
   get_call q (upd_call p f s) = (if q = p then map_option f (get_call q s) else get_call q s)"
proof -
  assume f: "\<And>c. tc_ptr (f c) = tc_ptr c"
  have "find (\<lambda>c. tc_ptr c = q) (map (\<lambda>c. if tc_ptr c = p then f c else c) cs) =
      (if q = p then map_option f (find (\<lambda>c. tc_ptr c = q) cs) else find (\<lambda>c. tc_ptr c = q) cs)" for cs
    by (induction cs) (auto simp: f)
  then show ?thesis by (simp add: get_call_def upd_call_def)
qed

lemma get_call_simps [simp]:
  "get_call p (upd_request q g s) = get_call p s" "get_call p (tell m s) = get_call p s"
  "get_call p (RemoveRequest q s) = get_call p s"
  "get_call p (OnAsynchRequestComplete l r s) = get_call p s"
  "get_call p (mark_result l b r s) = get_call p s" "get_call p (SetState st q s) = get_call p s"
  "get_call p (s\<lparr>ln_device := d\<rparr>) = get_call p s" "get_call p (s\<lparr>ln_open := b\<rparr>) = get_call p s" "get_call p (s\<lparr>ln_tick := t\<rparr>) = get_call p s"
  "get_call p (s\<lparr>ln_requests := rs\<rparr>) = get_call p s"
  by (simp_all add: get_call_def upd_request_def tell_def RemoveRequest_def OnAsynchRequestComplete_def
      mark_result_def SetState_def)

lemma get_call_ptr: "get_call p s = Some c \<Longrightarrow> c \<in> set (ln_calls s) \<and> tc_ptr c = p"
  by (auto simp: get_call_def dest: find_SomeD)

lemma upd_request_simps [simp]:
  "ln_calls (upd_request p f s) = ln_calls s" "ln_tapi (upd_request p f s) = ln_tapi s"
  "ln_nextPtr (upd_request p f s) = ln_nextPtr s" "ln_device (upd_request p f s) = ln_device s"
  "ln_tick (upd_request p f s) = ln_tick s"
  by (simp_all add: upd_request_def)

lemma upd_call_simps [simp]:
  "ln_requests (upd_call p g s) = ln_requests s" "ln_tapi (upd_call p g s) = ln_tapi s"
  "ln_nextPtr (upd_call p g s) = ln_nextPtr s" "ln_device (upd_call p g s) = ln_device s"
  "ln_tick (upd_call p g s) = ln_tick s"
  by (simp_all add: upd_call_def)

lemma tell_simps [simp]:
  "ln_requests (tell m s) = ln_requests s" "ln_calls (tell m s) = ln_calls s" "ln_tapi (tell m s) = ln_tapi s @ [m]"
  "ln_nextPtr (tell m s) = ln_nextPtr s" "ln_device (tell m s) = ln_device s" "ln_tick (tell m s) = ln_tick s"
  by (simp_all add: tell_def)

lemma first_notify_call:
  "get_call p s = Some c \<Longrightarrow> get_call p (first_notify c' p s) = Some c \<or>
     get_call p (first_notify c' p s) = Some (c\<lparr>tc_initNotify := True\<rparr>)"
  by (auto simp: first_notify_def Let_def get_call_upd split: option.splits)

lemma upd_request_absent: "(\<And>r. r \<in> set (ln_requests s) \<Longrightarrow> tr_ptr r \<noteq> p) \<Longrightarrow> upd_request p f s = s"
  by (simp add: upd_request_def map_idI)

lemma mark_removed:
  "mark_result l b r (OnAsynchRequestComplete e r (RemoveRequest (tr_ptr r) s)) =
     OnAsynchRequestComplete e r (RemoveRequest (tr_ptr r) s)"
  "mark_result l b r (RemoveRequest (tr_ptr r) s) = RemoveRequest (tr_ptr r) s"
  unfolding mark_result_def
  by (rule upd_request_absent; auto simp: RemoveRequest_def OnAsynchRequestComplete_def split: if_splits)+

section \<open>The interface\<close>

locale line_frame =
  fixes keep :: "tsp_line \<Rightarrow> tsp_line \<Rightarrow> bool"
  assumes keep_refl [simp, intro]: "keep s s"
    and keep_trans [trans]: "keep s s' \<Longrightarrow> keep s' s'' \<Longrightarrow> keep s s''"
    and keep_call: "(\<And>c. tc_ptr (f c) = tc_ptr c \<and> tc_state (f c) = tc_state c) \<Longrightarrow> keep s (upd_call p f s)"
    and keep_state: "get_call p s = Some c \<Longrightarrow> tc_state c \<noteq> LINECALLSTATE_IDLE \<Longrightarrow>
        (\<And>c. tc_ptr (f c) = tc_ptr c) \<Longrightarrow> keep s (upd_call p f s)"
    and keep_notify: "keep s s' \<Longrightarrow> get_call p s = Some c \<Longrightarrow> tc_state c \<noteq> LINECALLSTATE_IDLE \<Longrightarrow>
        keep s (tell (LineCallState p st m) s')"
    and keep_request: "(\<And>r. tr_ptr (g r) = tr_ptr r \<and> tr_requestId (g r) = tr_requestId r \<and>
        tr_responseSent (g r) = tr_responseSent r) \<Longrightarrow> keep s (upd_request p g s)"
    and keep_remove: "r \<in> set (ln_requests s) \<Longrightarrow> keep (RemoveRequest (tr_ptr r) s) s' \<Longrightarrow>
        keep s (if \<not> HaveSentResponse r then OnAsynchRequestComplete l r s' else s')"
    and keep_answer: "r \<in> set (ln_requests s) \<Longrightarrow> keep (mark_result l True r s) s' \<Longrightarrow>
        keep s (if \<not> HaveSentResponse r then OnAsynchRequestComplete l r s' else s')"
    and keep_event: "(\<forall>i l. ev \<noteq> AsyncCompletion i l) \<Longrightarrow> (\<forall>p st m. ev \<noteq> LineCallState p st m) \<Longrightarrow> keep s (tell ev s)"
    and keep_new: "tc_ptr c = ln_nextPtr s \<Longrightarrow>
        keep s (s\<lparr>ln_nextPtr := ln_nextPtr s + 1, ln_calls := ln_calls s @ [c]\<rparr>)"
    and keep_device: "keep s (s\<lparr>ln_device := d\<rparr>)"
    and keep_open: "keep s (s\<lparr>ln_open := b\<rparr>)"
begin

lemma RT_Failed_keep:
  "(\<And>p s. keep s (remove p s)) \<Longrightarrow> keep s (RT_Failed remove r s)"
  by (auto simp: RT_Failed_def intro: keep_call split: tsp_command.split option.split)

lemma cancel_request_keep:
  assumes "\<And>p s. keep s (remove p s)" and "r \<in> set (ln_requests s)"
  shows "keep s (cancel_request remove e r s)"
proof -
  have "keep s (if \<not> HaveSentResponse r then OnAsynchRequestComplete e r (RemoveRequest (tr_ptr r) s)
      else RemoveRequest (tr_ptr r) s)" by (rule keep_remove [OF assms(2) keep_refl])
  with keep_trans [OF _ RT_Failed_keep [OF assms(1)]] show ?thesis
    by (auto simp: cancel_request_def Let_def mark_removed)
qed

lemma remove_passes_keep:
  "(\<And>p s. keep s (remove p s)) \<Longrightarrow> keep s (remove_passes n remove c e b x s)"
proof (induction n arbitrary: s)
  case (Suc n)
  have "keep s (remove_passes n remove c e b x (cancel_request remove e r s))" if "r \<in> set (ln_requests s)" for r
    by (rule keep_trans [OF cancel_request_keep [OF Suc.prems that] Suc.IH [OF Suc.prems]])
  then show ?case by (auto split: option.split dest!: find_SomeD)
qed simp

lemma RemovePending_keep:
  "(\<And>p s. keep s (remove p s)) \<Longrightarrow> keep s (RemovePendingRequests remove c e b x s)"
  by (simp add: RemovePendingRequests_def remove_passes_keep)

lemma first_notify_keep: "keep s (first_notify c p s)"
proof (cases "tc_initNotify c")
  case False
  let ?s = "upd_call p (\<lambda>c. c\<lparr>tc_initNotify := True\<rparr>) s"
  have k: "keep s ?s" by (rule keep_call) simp
  show ?thesis
  proof (cases "FindRequest (Some p) REQUEST_MAKECALL ?s")
    case (Some r)
    then have "r \<in> set (ln_requests ?s)" by (auto simp: FindRequest_def dest: find_SomeD)
    from keep_trans [OF k keep_answer [OF this keep_refl]] k Some False show ?thesis
      by (auto simp: first_notify_def Let_def split: if_splits)
  qed (use k False in \<open>simp add: first_notify_def\<close>)
qed (simp add: first_notify_def)

lemma OnCallStatusChange_keep:
  "(\<And>p s. keep s (remove p s)) \<Longrightarrow> keep s (OnCallStatusChange remove st p s)"
  by (auto simp: OnCallStatusChange_def Let_def split: option.split
      intro: RemovePending_keep keep_trans [OF RemovePending_keep])

lemma NotifyCallStatusChanged_keep:
  "keep s s' \<Longrightarrow> get_call p s = Some c \<Longrightarrow> tc_state c \<noteq> LINECALLSTATE_IDLE \<Longrightarrow> keep s (NotifyCallStatusChanged p s')"
  by (auto simp: NotifyCallStatusChanged_def Send_TAPI_Event_def Let_def split: option.split intro: keep_notify)

text \<open>A call that is idle is not given an idle state with a mode; no code does that.\<close>

lemma SetCallState_with_keep:
  assumes "\<And>p s. keep s (remove p s)" and "st = LINECALLSTATE_IDLE \<Longrightarrow> m = 0"
  shows "keep s (SetCallState_with remove st m b p s)"
proof (cases "get_call p s")
  case (Some c)
  let ?s1 = "first_notify c p s"
  obtain c1 where c1: "get_call p ?s1 = Some c1" "tc_state c1 = tc_state c"
    using first_notify_call [OF Some, of c] by auto
  note k1 = first_notify_keep [of s c p]
  show ?thesis
  proof (cases "tc_state c = LINECALLSTATE_IDLE")
    case True
    with Some assms(2) k1 show ?thesis by (auto simp: SetCallState_with_def Let_def)
  next
    case False
    with keep_trans [OF k1 keep_state [OF c1(1)]] c1(2)
    have k2: "keep s (upd_call p f ?s1)" if "\<And>c. tc_ptr (f c) = tc_ptr c" for f using that by simp
    have k3: "keep s (OnCallStatusChange remove st p (upd_call p f ?s1))" if "\<And>c. tc_ptr (f c) = tc_ptr c" for f
      using keep_trans [OF k2 [OF that] OnCallStatusChange_keep [OF assms(1)]] .
    have k4: "keep s (NotifyCallStatusChanged p (OnCallStatusChange remove st p (upd_call p f ?s1)))"
      if "\<And>c. tc_ptr (f c) = tc_ptr c" for f
      by (rule NotifyCallStatusChanged_keep [OF k3 [OF that] Some False])
    from Some False k1 show ?thesis by (auto simp: SetCallState_with_def Let_def intro: k3 k4)
  qed
qed (simp add: SetCallState_with_def)

lemma RemoveCallAppearance_keep: "keep s (RemoveCallAppearance p s)"
proof (cases "get_call p s")
  case (Some c)
  let ?s1 = "upd_call p (\<lambda>c. c\<lparr>tc_isDeleted := True\<rparr>) s"
  let ?s2 = "SetCallState_with (\<lambda>_ s. s) LINECALLSTATE_IDLE 0 False p ?s1"
  have "keep s ?s1" by (rule keep_call) simp
  also have "keep ?s1 ?s2" by (rule SetCallState_with_keep) simp_all
  also have "keep ?s2 (SetCallID 0 p ?s2)" unfolding SetCallID_def by (rule keep_call) simp
  also have "keep (SetCallID 0 p ?s2) (upd_call p (\<lambda>c. c\<lparr>tc_handle := False\<rparr>) (SetCallID 0 p ?s2))"
    by (rule keep_call) simp
  finally show ?thesis using Some by (simp add: RemoveCallAppearance_def Let_def)
qed (simp add: RemoveCallAppearance_def)

lemma SetCallState_keep: "(st = LINECALLSTATE_IDLE \<Longrightarrow> m = 0) \<Longrightarrow> keep s (SetCallState st m p s)"
  unfolding SetCallState_def by (rule SetCallState_with_keep [OF RemoveCallAppearance_keep])

lemma RT_Complete_keep: "keep (mark_result l b r s) (RT_Complete l b r s)"
proof -
  let ?s = "mark_result l b r s"
  have k: "keep ?s (if l = 0 \<and> tr_command r = REQUEST_DROPCALL
      then RemovePendingRequests RemoveCallAppearance (Some (tr_call r)) LINEERR_OPERATIONFAILED False (Some (tr_ptr r)) ?s else ?s)"
    by (simp add: RemovePending_keep RemoveCallAppearance_keep)
  from keep_trans [OF k RT_Failed_keep [OF RemoveCallAppearance_keep]] k show ?thesis
    by (auto simp: RT_Complete_def Let_def)
qed

text \<open>The driver always tells TAPI when it completes a request.\<close>

lemma CompleteRequest_keep: "CompleteRequest p l True rm s = (next, s') \<Longrightarrow> keep s s'"
proof (cases "get_request p s")
  case (Some r)
  assume c: "CompleteRequest p l True rm s = (next, s')"
  have r: "r \<in> set (ln_requests s)" "tr_ptr r = p" using Some by (auto simp: get_request_def dest: find_SomeD)
  show ?thesis
  proof (cases rm)
    case True
    have "keep (RemoveRequest (tr_ptr r) s) (RT_Complete l True r (RemoveRequest (tr_ptr r) s))"
      using RT_Complete_keep [of l True r "RemoveRequest (tr_ptr r) s"] by (simp add: mark_removed)
    from keep_remove [OF r(1) this] c Some True r show ?thesis
      by (auto simp: CompleteRequest_def Let_def split: if_splits)
  next
    case False
    from keep_answer [OF r(1) RT_Complete_keep] c Some False r show ?thesis
      by (auto simp: CompleteRequest_def Let_def split: if_splits)
  qed
qed (simp add: CompleteRequest_def)

end

section \<open>Lines in good order\<close>

text \<open>The numbers that stand for addresses are unique, and new ones are fresh.\<close>

definition line_wf :: "tsp_line \<Rightarrow> bool" where
  "line_wf s \<longleftrightarrow> distinct (map tr_ptr (ln_requests s)) \<and> (\<forall>p \<in> set (map tr_ptr (ln_requests s)). p < ln_nextPtr s) \<and>
     distinct (map tc_ptr (ln_calls s)) \<and> (\<forall>p \<in> set (map tc_ptr (ln_calls s)). p < ln_nextPtr s)"

lemma map_ptr_calls:
  "(\<And>c. tc_ptr (f c) = tc_ptr c) \<Longrightarrow> map tc_ptr (map (\<lambda>c. if tc_ptr c = p then f c else c) cs) = map tc_ptr cs"
  by (induction cs) simp_all

lemma map_ptr_requests:
  "(\<And>r. tr_ptr (g r) = tr_ptr r) \<Longrightarrow> map tr_ptr (map (\<lambda>r. if tr_ptr r = p then g r else r) rs) = map tr_ptr rs"
  by (induction rs) simp_all

lemma wf_upd_call:
  assumes "\<And>c. tc_ptr (f c) = tc_ptr c" shows "line_wf (upd_call p f s) = line_wf s"
proof -
  have "map tc_ptr (ln_calls (upd_call p f s)) = map tc_ptr (ln_calls s)"
    unfolding upd_call_def using map_ptr_calls [of f p "ln_calls s", OF assms] by simp
  then show ?thesis by (simp only: line_wf_def upd_call_simps)
qed

lemma upd_request_ptrs:
  assumes "\<And>r. tr_ptr (g r) = tr_ptr r"
  shows "map tr_ptr (ln_requests (upd_request p g s)) = map tr_ptr (ln_requests s)"
  unfolding upd_request_def using map_ptr_requests [of g p "ln_requests s", OF assms] by simp

lemma wf_upd_request: "(\<And>r. tr_ptr (g r) = tr_ptr r) \<Longrightarrow> line_wf (upd_request p g s) = line_wf s"
  by (simp only: line_wf_def upd_request_simps upd_request_ptrs)

lemma wf_remove: "line_wf s \<Longrightarrow> line_wf (RemoveRequest p s)"
  by (auto simp: line_wf_def RemoveRequest_def distinct_map intro: inj_on_subset)

lemma wf_simps [simp]:
  "line_wf (tell m s) = line_wf s" "line_wf (s\<lparr>ln_device := d\<rparr>) = line_wf s" "line_wf (s\<lparr>ln_tick := t\<rparr>) = line_wf s"
  "line_wf (s\<lparr>ln_open := b'\<rparr>) = line_wf s"
  by (simp_all add: line_wf_def tell_def)

lemma wf_marks [simp]: "line_wf (mark_result l b r s) = line_wf s" "line_wf (OnAsynchRequestComplete l r s) = line_wf s"
  by (simp_all add: mark_result_def wf_upd_request OnAsynchRequestComplete_def)

lemma wf_new_call:
  "tc_ptr c = ln_nextPtr s \<Longrightarrow> line_wf s \<Longrightarrow>
     line_wf (s\<lparr>ln_nextPtr := ln_nextPtr s + 1, ln_calls := ln_calls s @ [c]\<rparr>)"
  by (force simp: line_wf_def)

section \<open>The queue shrinks\<close>

text \<open>Requests only leave the queue, and what TAPI was told stays said.\<close>

definition shrinks :: "tsp_line \<Rightarrow> tsp_line \<Rightarrow> bool" where
  "shrinks s s' \<longleftrightarrow> length (ln_requests s') \<le> length (ln_requests s) \<and>
     tr_ptr ` set (ln_requests s') \<subseteq> tr_ptr ` set (ln_requests s) \<and>
     set (ln_tapi s) \<subseteq> set (ln_tapi s')"

lemma length_remove: "r \<in> set (ln_requests s) \<Longrightarrow> length (ln_requests (RemoveRequest (tr_ptr r) s)) < length (ln_requests s)"
  by (auto simp: RemoveRequest_def intro: length_filter_less)

interpretation shrink: line_frame shrinks
proof
  fix r s l s'
  assume "r \<in> set (ln_requests s)" "shrinks (RemoveRequest (tr_ptr r) s) s'"
  with length_remove [of r s] show "shrinks s (if \<not> HaveSentResponse r then OnAsynchRequestComplete l r s' else s')"
    by (auto simp: shrinks_def OnAsynchRequestComplete_def RemoveRequest_def)
next
  fix r s l s'
  assume "shrinks (mark_result l True r s) s'"
  moreover have "tr_ptr ` set (ln_requests (mark_result l True r s)) = tr_ptr ` set (ln_requests s)"
    using upd_request_ptrs [where s = s and p = "tr_ptr r"] unfolding mark_result_def set_map [symmetric] by simp
  moreover have "length (ln_requests (mark_result l True r s)) = length (ln_requests s)"
    by (simp add: mark_result_def upd_request_def)
  ultimately show "shrinks s (if \<not> HaveSentResponse r then OnAsynchRequestComplete l r s' else s')"
    by (auto simp: shrinks_def OnAsynchRequestComplete_def) (auto simp: mark_result_def)
next
  fix g :: "tsp_request \<Rightarrow> tsp_request" and p s
  assume "\<And>r. tr_ptr (g r) = tr_ptr r \<and> tr_requestId (g r) = tr_requestId r \<and> tr_responseSent (g r) = tr_responseSent r"
  then have "set (map tr_ptr (ln_requests (upd_request p g s))) = set (map tr_ptr (ln_requests s))"
    by (simp only: upd_request_ptrs)
  then show "shrinks s (upd_request p g s)" by (simp add: shrinks_def) (simp add: upd_request_def)
next
  fix s s' s'' assume "shrinks s s'" "shrinks s' s''"
  then show "shrinks s s''" unfolding shrinks_def by (meson le_trans subset_trans)
qed (auto simp: shrinks_def)

text \<open>Starting the next request is asked for only when the current one has left the queue.\<close>

lemma CompleteRequest_less:
  assumes "CompleteRequest p l True rm s = (True, s')"
  shows "length (ln_requests s') < length (ln_requests s)"
proof -
  obtain r where r: "get_request p s = Some r" "rm" using assms
    by (cases "get_request p s") (auto simp: CompleteRequest_def Let_def split: if_splits)
  then have i: "r \<in> set (ln_requests s)" "tr_ptr r = p" by (auto simp: get_request_def dest: find_SomeD)
  have "shrinks (RemoveRequest p s) (RT_Complete l True r (RemoveRequest p s))"
    using shrink.RT_Complete_keep [of l True r "RemoveRequest p s"] i(2) mark_removed(2) [of l True r s] by simp
  moreover have "ln_requests s' = ln_requests (RT_Complete l True r (RemoveRequest p s))"
    using assms r by (auto simp: CompleteRequest_def Let_def OnAsynchRequestComplete_def split: if_splits)
  ultimately show ?thesis using length_remove [OF i(1)] i(2) by (simp add: shrinks_def)
qed

section \<open>Every request is answered once\<close>

definition is_answer :: "dword \<Rightarrow> tapi_msg \<Rightarrow> bool" where
  "is_answer i m = (case m of AsyncCompletion j l \<Rightarrow> j = i | _ \<Rightarrow> False)"

definition is_open :: "dword \<Rightarrow> tsp_request \<Rightarrow> bool" where
  "is_open i r \<longleftrightarrow> tr_requestId r = i \<and> \<not> HaveSentResponse r"

text \<open>The answers TAPI was given to a request, and how often it is queued without an answer.\<close>

definition answers :: "dword \<Rightarrow> tsp_line \<Rightarrow> nat" where
  "answers i s = length (filter (is_answer i) (ln_tapi s))"

definition unanswered :: "dword \<Rightarrow> tsp_line \<Rightarrow> nat" where
  "unanswered i s = length (filter (is_open i) (ln_requests s))"

definition same_balance :: "tsp_line \<Rightarrow> tsp_line \<Rightarrow> bool" where
  "same_balance s s' \<longleftrightarrow> (line_wf s \<longrightarrow> line_wf s' \<and> (\<forall>i. answers i s' + unanswered i s' = answers i s + unanswered i s))"

lemma HaveSent_iff: "HaveSentResponse r \<longleftrightarrow> (tr_requestId r = 0 \<or> tr_responseSent r)"
  by (cases "tr_requestId r = 0") (simp_all add: HaveSentResponse_def word_gt_0)

lemma answers_simps [simp]:
  "answers i (upd_call p f s) = answers i s" "answers i (upd_request p g s) = answers i s"
  "answers i (s\<lparr>ln_device := d\<rparr>) = answers i s" "answers i (s\<lparr>ln_tick := t\<rparr>) = answers i s"
  "answers i (s\<lparr>ln_open := b'\<rparr>) = answers i s"
  "answers i (RemoveRequest p s) = answers i s" "answers i (s\<lparr>ln_requests := rs\<rparr>) = answers i s"
  "answers i (mark_result l b r s) = answers i s"
  "answers i (s\<lparr>ln_nextPtr := n, ln_calls := cs\<rparr>) = answers i s"
  "answers i (tell m s) = answers i s + (if is_answer i m then 1 else 0)"
  by (simp_all add: answers_def upd_call_def upd_request_def RemoveRequest_def mark_result_def tell_def)

lemma unanswered_simps [simp]:
  "unanswered i (upd_call p f s) = unanswered i s" "unanswered i (tell m s) = unanswered i s"
  "unanswered i (s\<lparr>ln_device := d\<rparr>) = unanswered i s" "unanswered i (s\<lparr>ln_tick := t\<rparr>) = unanswered i s"
  "unanswered i (s\<lparr>ln_open := b'\<rparr>) = unanswered i s"
  "unanswered i (s\<lparr>ln_nextPtr := n, ln_calls := cs\<rparr>) = unanswered i s"
  by (simp_all add: unanswered_def)

lemma unanswered_upd:
  assumes "\<And>r. tr_ptr (g r) = tr_ptr r \<and> tr_requestId (g r) = tr_requestId r \<and> tr_responseSent (g r) = tr_responseSent r"
  shows "unanswered i (upd_request p g s) = unanswered i s"
proof -
  have "is_open i (g r) = is_open i r" for r using assms [of r] by (simp add: is_open_def HaveSent_iff)
  then have "length (filter (is_open i) (map (\<lambda>r. if tr_ptr r = p then g r else r) rs)) =
      length (filter (is_open i) rs)" for rs by (induction rs) auto
  then show ?thesis by (simp add: unanswered_def upd_request_def)
qed

lemma queue_split:
  assumes "line_wf s" and "r \<in> set (ln_requests s)"
  obtains as bs where "ln_requests s = as @ r # bs" and "\<forall>q \<in> set as \<union> set bs. tr_ptr q \<noteq> tr_ptr r"
proof -
  from assms(2) obtain as bs where s: "ln_requests s = as @ r # bs" by (meson split_list)
  with assms(1) have "tr_ptr r \<notin> tr_ptr ` set as" "tr_ptr r \<notin> tr_ptr ` set bs" by (simp_all add: line_wf_def)
  then have "\<forall>q \<in> set as \<union> set bs. tr_ptr q \<noteq> tr_ptr r" by (metis UnE image_eqI)
  with s show ?thesis by (rule that)
qed

lemma unanswered_remove:
  assumes "line_wf s" and "r \<in> set (ln_requests s)"
  shows "unanswered i s = unanswered i (RemoveRequest (tr_ptr r) s) + (if is_open i r then 1 else 0)"
proof -
  obtain as bs where s: "ln_requests s = as @ r # bs" "\<forall>q \<in> set as \<union> set bs. tr_ptr q \<noteq> tr_ptr r"
    using queue_split [OF assms] .
  then have "filter (\<lambda>q. tr_ptr q \<noteq> tr_ptr r) as = as" "filter (\<lambda>q. tr_ptr q \<noteq> tr_ptr r) bs = bs"
    by (auto simp: filter_id_conv)
  with s(1) show ?thesis by (simp add: unanswered_def RemoveRequest_def)
qed

lemma unanswered_mark:
  assumes "line_wf s" and "r \<in> set (ln_requests s)"
  shows "unanswered i s = unanswered i (mark_result l True r s) + (if is_open i r then 1 else 0)"
proof -
  let ?f = "\<lambda>q. if tr_ptr q = tr_ptr r then q\<lparr>tr_responseSent := True, tr_result := l\<rparr> else q"
  obtain as bs where s: "ln_requests s = as @ r # bs" "\<forall>q \<in> set as \<union> set bs. tr_ptr q \<noteq> tr_ptr r"
    using queue_split [OF assms] .
  then have "map ?f as = as" "map ?f bs = bs" by (auto intro: map_idI)
  then have "ln_requests (mark_result l True r s) = as @ ?f r # bs"
    using s(1) by (simp add: mark_result_def upd_request_def)
  with s(1) show ?thesis by (simp add: unanswered_def is_open_def HaveSent_iff)
qed

lemma answer_balance:
  assumes "line_wf s'" and "\<And>i. unanswered i s = k i + (if is_open i r then 1 else 0)"
    and "\<And>i. answers i s' + unanswered i s' = answers i s + k i"
  shows "same_balance s (if \<not> HaveSentResponse r then OnAsynchRequestComplete l r s' else s')"
  using assms(1) assms(3) unfolding same_balance_def assms(2)
  by (auto simp: OnAsynchRequestComplete_def is_open_def is_answer_def HaveSent_iff)

interpretation balance: line_frame same_balance
proof
  fix r s l s'
  assume r: "r \<in> set (ln_requests s)" and k: "same_balance (RemoveRequest (tr_ptr r) s) s'"
  show "same_balance s (if \<not> HaveSentResponse r then OnAsynchRequestComplete l r s' else s')"
  proof (cases "line_wf s")
    case True
    from answer_balance [OF _ unanswered_remove [OF True r], of s' l] k wf_remove [OF True] show ?thesis
      by (simp add: same_balance_def)
  qed (simp add: same_balance_def)
next
  fix r s l s'
  assume r: "r \<in> set (ln_requests s)" and k: "same_balance (mark_result l True r s) s'"
  show "same_balance s (if \<not> HaveSentResponse r then OnAsynchRequestComplete l r s' else s')"
  proof (cases "line_wf s")
    case True
    from answer_balance [OF _ unanswered_mark [OF True r, where l = l], of s' l] k True show ?thesis
      by (simp add: same_balance_def)
  qed (simp add: same_balance_def)
next
  fix g :: "tsp_request \<Rightarrow> tsp_request" and p s
  assume "\<And>r. tr_ptr (g r) = tr_ptr r \<and> tr_requestId (g r) = tr_requestId r \<and> tr_responseSent (g r) = tr_responseSent r"
  then show "same_balance s (upd_request p g s)" by (simp add: same_balance_def unanswered_upd wf_upd_request)
next
  fix ev s
  assume "\<forall>i l. ev \<noteq> AsyncCompletion i l" then show "same_balance s (tell ev s)"
    by (auto simp: same_balance_def is_answer_def split: tapi_msg.split)
qed (auto simp: same_balance_def wf_upd_call is_answer_def wf_new_call [simplified])

section \<open>Idle is final\<close>

definition idle_call :: "nat \<Rightarrow> tsp_line \<Rightarrow> bool" where
  "idle_call p s \<longleftrightarrow> (\<exists>c. get_call p s = Some c \<and> tc_state c = LINECALLSTATE_IDLE)"

text \<open>What happens to a call that is idle: it stays so, and TAPI hears no more of it.\<close>

definition idle_kept :: "tsp_line \<Rightarrow> tsp_line \<Rightarrow> bool" where
  "idle_kept s s' \<longleftrightarrow> (\<forall>p. idle_call p s \<longrightarrow> idle_call p s' \<and>
     (\<exists>ms. ln_tapi s' = ln_tapi s @ ms \<and> (\<forall>st m. LineCallState p st m \<notin> set ms)))"

lemma idle_simps [simp]:
  "idle_call p (upd_request q g s) = idle_call p s" "idle_call p (tell m s) = idle_call p s"
  "idle_call p (RemoveRequest q s) = idle_call p s" "idle_call p (OnAsynchRequestComplete l r s) = idle_call p s"
  "idle_call p (mark_result l b r s) = idle_call p s" "idle_call p (s\<lparr>ln_device := d\<rparr>) = idle_call p s"
  "idle_call p (s\<lparr>ln_tick := t\<rparr>) = idle_call p s" "idle_call p (s\<lparr>ln_open := b'\<rparr>) = idle_call p s"
  "idle_call p (s\<lparr>ln_requests := rs\<rparr>) = idle_call p s"
  by (simp_all add: idle_call_def)

lemma idle_new: "idle_call p s \<Longrightarrow> idle_call p (s\<lparr>ln_nextPtr := n, ln_calls := ln_calls s @ cs\<rparr>)"
proof -
  have "find P xs = Some x \<Longrightarrow> find P (xs @ ys) = Some x" for P and x :: tsp_call and xs ys
    by (induction xs) auto
  then show "idle_call p s \<Longrightarrow> ?thesis" by (auto simp: idle_call_def get_call_def)
qed

lemma idle_upd:
  "(\<And>c. tc_ptr (f c) = tc_ptr c \<and> tc_state (f c) = tc_state c) \<Longrightarrow> idle_call p (upd_call q f s) = idle_call p s"
  "(\<And>c. tc_ptr (f c) = tc_ptr c) \<Longrightarrow> p \<noteq> q \<Longrightarrow> idle_call p (upd_call q f s) = idle_call p s"
  by (auto simp: idle_call_def get_call_upd)

lemma idle_kept_answer:
  assumes "idle_kept s s'"
  shows "idle_kept s (if b then OnAsynchRequestComplete l r s' else s')"
proof -
  have "idle_kept s (tell (AsyncCompletion i l) s')" for i unfolding idle_kept_def
  proof (intro allI impI)
    fix p assume "idle_call p s"
    with assms obtain ms where "idle_call p s'" "ln_tapi s' = ln_tapi s @ ms" "\<forall>st m. LineCallState p st m \<notin> set ms"
      unfolding idle_kept_def by blast
    then show "idle_call p (tell (AsyncCompletion i l) s') \<and>
        (\<exists>ms. ln_tapi (tell (AsyncCompletion i l) s') = ln_tapi s @ ms \<and> (\<forall>st m. LineCallState p st m \<notin> set ms))"
      by (intro conjI exI [of _ "ms @ [AsyncCompletion i l]"]) auto
  qed
  with assms show ?thesis by (simp add: OnAsynchRequestComplete_def)
qed

interpretation idle: line_frame idle_kept
proof
  fix s s' s'' assume a: "idle_kept s s'" "idle_kept s' s''"
  show "idle_kept s s''" unfolding idle_kept_def
  proof (intro allI impI)
    fix p assume "idle_call p s"
    with a obtain ms ms' where "idle_call p s''" "ln_tapi s' = ln_tapi s @ ms" "ln_tapi s'' = ln_tapi s' @ ms'"
      "\<forall>st m. LineCallState p st m \<notin> set ms" "\<forall>st m. LineCallState p st m \<notin> set ms'"
      unfolding idle_kept_def by blast
    then show "idle_call p s'' \<and> (\<exists>ms. ln_tapi s'' = ln_tapi s @ ms \<and> (\<forall>st m. LineCallState p st m \<notin> set ms))"
      by (intro conjI exI [of _ "ms @ ms'"]) auto
  qed
next
  fix s s' p c st m assume a: "idle_kept s s'" "get_call p s = Some c" "tc_state c \<noteq> LINECALLSTATE_IDLE"
  then have "\<not> idle_call p s" by (simp add: idle_call_def)
  with a(1) show "idle_kept s (tell (LineCallState p st m) s')" by (auto simp: idle_kept_def)
next
  fix s p c and f :: "tsp_call \<Rightarrow> tsp_call" assume a: "get_call p s = Some c" "tc_state c \<noteq> LINECALLSTATE_IDLE" "\<And>c. tc_ptr (f c) = tc_ptr c"
  then have "\<not> idle_call p s" by (simp add: idle_call_def)
  then have "q \<noteq> p" if "idle_call q s" for q using that by auto
  then show "idle_kept s (upd_call p f s)" by (auto simp: idle_kept_def idle_upd(2) a(3))
next
  fix r :: tsp_request and s l s' assume "idle_kept (RemoveRequest (tr_ptr r) s) s'"
  then have "idle_kept s s'" by (simp add: idle_kept_def) (simp add: RemoveRequest_def)
  then show "idle_kept s (if \<not> HaveSentResponse r then OnAsynchRequestComplete l r s' else s')"
    by (rule idle_kept_answer)
next
  fix r :: tsp_request and s l s' assume "idle_kept (mark_result l True r s) s'"
  then have "idle_kept s s'" by (simp add: idle_kept_def) (simp add: mark_result_def)
  then show "idle_kept s (if \<not> HaveSentResponse r then OnAsynchRequestComplete l r s' else s')"
    by (rule idle_kept_answer)
qed (auto simp: idle_kept_def idle_upd(1) idle_new)

end
