(* ===== verification/Line.thy ===== *)
theory Line
  imports TspFrame
begin

text \<open>
  The driver's line (\<open>OnSipTAPI/line.cpp\<close>, \<open>makecall.cpp\<close>, \<open>dropcall.cpp\<close>, \<open>unsolicited.cpp\<close>, the
  \<open>DRV_\<close> methods of \<open>device.cpp\<close>): how it handles the requests of TAPI and the events of the engine, on
  top of the queue of \<open>Tsp\<close>. A handler answers whether it took the event and whether the next request
  is to be started.
\<close>

section \<open>The device\<close>

definition DRV_DropCall :: "dword \<Rightarrow> tsp_line \<Rightarrow> bool \<times> tsp_line" where
  "DRV_DropCall callId s =
     (case ln_device s of
        None \<Rightarrow> (False, s)
      | Some en \<Rightarrow> (True, s\<lparr>ln_device := Some (OnSipXmpp_DropCall callId en)\<rparr>))"

definition DRV_MakeCall :: "tstring \<Rightarrow> tsp_line \<Rightarrow> long \<times> tsp_line" where
  "DRV_MakeCall strDigits s =
     (case ln_device s of
        None \<Rightarrow> (- 1, s)
      | Some en \<Rightarrow> (case OnSipXmpp_MakeCall strDigits en of (callId, en') \<Rightarrow> (callId, s\<lparr>ln_device := Some en'\<rparr>)))"

definition getCallEvent :: "onsip_event option \<Rightarrow> (call_state \<times> call_data \<times> change_reason) option" where
  "getCallEvent ev = (case ev of Some (CallEvent st d r) \<Rightarrow> Some (st, d, r) | _ \<Rightarrow> None)"

definition getConnectEvent :: "onsip_event option \<Rightarrow> (init_state \<times> change_reason) option" where
  "getConnectEvent ev = (case ev of Some (ConnectEvent st r) \<Rightarrow> Some (st, r) | _ \<Rightarrow> None)"

definition GetCallID :: "nat \<Rightarrow> tsp_line \<Rightarrow> dword" where
  "GetCallID p s = (case get_call p s of None \<Rightarrow> 0 | Some c \<Rightarrow> tc_callID c)"

text \<open>A request waiting for longer than \<open>REQUEST_TIMEOUT\<close>, as the code compares the tick counts.\<close>

definition request_expired :: "tsp_request \<Rightarrow> tsp_line \<Rightarrow> bool" where
  "request_expired r s \<longleftrightarrow> tr_stateTime r + REQUEST_TIMEOUT < ln_tick s"

section \<open>Requests\<close>

type_synonym handled = "bool \<times> bool \<times> tsp_line"

definition check_timeout :: "tsp_request \<Rightarrow> tsp_line \<Rightarrow> handled" where
  "check_timeout r s =
     (if tr_state r = STATE_WAITING \<and> request_expired r s then
        (case CompleteRequest (tr_ptr r) LINEERR_OPERATIONFAILED True True s of (next, s') \<Rightarrow> (False, next, s'))
      else (False, False, s))"

definition OnMakeCall :: "tsp_request \<Rightarrow> onsip_event option \<Rightarrow> tsp_line \<Rightarrow> handled" where
  "OnMakeCall r lpBuff s =
     (let p = tr_ptr r; pCall = tr_call r;
          pAddress = (if tr_numbers r \<noteq> [] then Some (hd (tr_numbers r)) else None);
          pCallEvent = getCallEvent lpBuff;
          callEventCallId = (case pCallEvent of None \<Rightarrow> 0 | Some (_, d, _) \<Rightarrow> event_CallId d);
          (entered, s1) = EnterState STATE_INITIAL STATE_IGNORE r s
      in if entered then
           (if pAddress = None \<or> pAddress = Some [] then
              (case CompleteRequest p LINEERR_OPERATIONFAILED True True s1 of (next, s') \<Rightarrow> (True, next, s'))
            else
              (case DRV_MakeCall (the pAddress) (SetState STATE_WAITING p s1) of (callid, s2) \<Rightarrow>
                 if sint callid < 0 then
                   (case CompleteRequest p LINEERR_OPERATIONFAILED True True s2 of (next, s') \<Rightarrow> (True, next, s'))
                 else (True, False, SetCallID callid pCall s2)))
         else
           (case (if tr_state r = STATE_WAITING \<and> callEventCallId = GetCallID pCall s then pCallEvent else None) of
              Some (st, d, _) \<Rightarrow>
                (let dwCallState = GetTapiCallState st d in
                 if dwCallState = LINECALLSTATE_IDLE then
                   (case CompleteRequest p LINEERR_OPERATIONFAILED True True s of (next, s') \<Rightarrow> (True, next, s'))
                 else
                   let (_, s1) = CompleteRequest p 0 True False s;
                       s2 = SetCallState dwCallState LINEDIALTONEMODE_NORMAL pCall s1;
                       (next, s3) = CompleteRequest p 0 True True s2
                   in (True, next, s3))
            | None \<Rightarrow> check_timeout r s))"

definition OnDial :: "tsp_request \<Rightarrow> onsip_event option \<Rightarrow> tsp_line \<Rightarrow> handled" where
  "OnDial r lpBuff s =
     (let p = tr_ptr r; pCall = tr_call r;
          (entered, s1) = EnterState STATE_INITIAL STATE_IGNORE r s
      in if entered then
           (let s2 = SetState STATE_WAITING p s1 in
            if request_expired (r\<lparr>tr_stateTime := ln_tick s2\<rparr>) s2 then
              (case CompleteRequest p LINEERR_OPERATIONFAILED True True s2 of (next, s') \<Rightarrow> (False, next, s'))
            else (False, False, s2))
         else if tr_state r = STATE_WAITING \<and> lpBuff \<noteq> None then
           (let (_, s1) = CompleteRequest p 0 True False s;
                s2 = SetCallState LINECALLSTATE_DIALTONE LINEDIALTONEMODE_NORMAL pCall s1;
                s3 = SetCallState LINECALLSTATE_DIALING 0 pCall s2;
                s4 = SetCallState LINECALLSTATE_PROCEEDING 0 pCall s3;
                (next, s5) = CompleteRequest p 0 True True s4
            in (True, next, s5))
         else check_timeout r s)"

definition OnDropCall :: "tsp_request \<Rightarrow> onsip_event option \<Rightarrow> tsp_line \<Rightarrow> handled" where
  "OnDropCall r lpBuff s =
     (let p = tr_ptr r; pCall = tr_call r;
          pCallEvent = getCallEvent lpBuff;
          callEventCallId = (case pCallEvent of None \<Rightarrow> 0 | Some (_, d, _) \<Rightarrow> event_CallId d);
          (entered, s1) = EnterState STATE_INITIAL STATE_WAITING r s
      in if entered then
           (case DRV_DropCall (GetCallID pCall s1) (SetState STATE_WAITING p s1) of (ret, s2) \<Rightarrow>
              if \<not> ret then
                (case CompleteRequest p LINEERR_OPERATIONFAILED True True s2 of (next, s') \<Rightarrow> (True, next, s'))
              else (True, False, s2))
         else
           (case (if tr_state r = STATE_WAITING \<and> callEventCallId = GetCallID pCall s then pCallEvent else None) of
              Some (st, d, _) \<Rightarrow>
                (if GetTapiCallState st d = LINECALLSTATE_IDLE then
                   (case CompleteRequest p 0 True True s of (next, s') \<Rightarrow> (True, next, s'))
                 else (True, False, s))
            | None \<Rightarrow> check_timeout r s))"

text \<open>The request map of the line: \<open>SETCALLDATA\<close> is automatic, other commands have no handler.\<close>

definition DispatchRequest :: "tsp_request \<Rightarrow> onsip_event option \<Rightarrow> tsp_line \<Rightarrow> handled" where
  "DispatchRequest r lpBuff s =
     (case tr_command r of
        REQUEST_MAKECALL \<Rightarrow> OnMakeCall r lpBuff s
      | REQUEST_DIAL \<Rightarrow> OnDial r lpBuff s
      | REQUEST_DROPCALL \<Rightarrow> OnDropCall r lpBuff s
      | REQUEST_SETCALLDATA \<Rightarrow>
          (case CompleteRequest (tr_ptr r) 0 True True s of (next, s') \<Rightarrow> (False, next, s'))
      | REQUEST_OTHER \<Rightarrow>
          (case CompleteRequest (tr_ptr r) LINEERR_OPERATIONFAILED True True s of (next, s') \<Rightarrow> (False, next, s')))"

section \<open>Unsolicited events\<close>

text \<open>\<open>CTSPILineConnection::FindCallByCallID\<close>: the calls of the address, those removed left out.\<close>

definition FindCallByCallID :: "dword \<Rightarrow> tsp_line \<Rightarrow> nat option" where
  "FindCallByCallID dwCallID s =
     map_option tc_ptr (find (\<lambda>c. \<not> tc_isDeleted c \<and> tc_callID c = dwCallID) (ln_calls s))"

definition new_tsp_call :: "nat \<Rightarrow> bool \<Rightarrow> tsp_call" where
  "new_tsp_call p handle = \<lparr>tc_ptr = p, tc_callID = 0, tc_state = LINECALLSTATE_UNKNOWN, tc_mode = 0,
     tc_handle = handle, tc_initNotify = False, tc_isDropped = False, tc_isDeleted = False, tc_callerID = '''',
     tc_calledID = '''', tc_reason = LINECALLREASON_UNKNOWN, tc_origin = LINECALLORIGIN_UNKNOWN\<rparr>"

text \<open>\<open>CTSPIAddressInfo::CreateCallAppearance\<close> without a handle: TAPI is asked for one.\<close>

definition CreateCallAppearance :: "tsp_line \<Rightarrow> nat \<times> tsp_line" where
  "CreateCallAppearance s =
     (let p = ln_nextPtr s in
      (p, Send_TAPI_Event (LineNewCall p)
            (s\<lparr>ln_nextPtr := p + 1, ln_calls := ln_calls s @ [new_tsp_call p (ln_givesHandles s \<and> ln_open s)]\<rparr>)))"

definition set_party_ids :: "call_data \<Rightarrow> nat \<Rightarrow> tsp_line \<Rightarrow> tsp_line" where
  "set_party_ids d p s =
     (let remoteId = event_RemoteID d; calledId = event_CalledID d;
          s1 = (if remoteId \<noteq> [] then upd_call p (\<lambda>c. c\<lparr>tc_callerID := remoteId\<rparr>) s else s)
      in if calledId \<noteq> [] then upd_call p (\<lambda>c. c\<lparr>tc_calledID := calledId\<rparr>) s1 else s1)"

definition OnNewCallDetected :: "bool \<Rightarrow> nat option \<Rightarrow> call_data \<Rightarrow> tsp_line \<Rightarrow> nat \<times> tsp_line" where
  "OnNewCallDetected fPlaced pCall d s =
     (let (p, s1) =
        (case pCall of
           Some p \<Rightarrow> (p, s)
         | None \<Rightarrow>
             let (p, s1) = CreateCallAppearance s;
                 s2 = SetCallID (event_CallId d) p s1
             in (p, if fPlaced then SetCallState LINECALLSTATE_DIALING 0 p s2
                    else SetCallState LINECALLSTATE_OFFERING LINEOFFERINGMODE_INACTIVE p s2));
          s2 = set_party_ids d p s1;
          s3 = upd_call p (\<lambda>c. if tc_reason c = LINECALLREASON_UNKNOWN then c\<lparr>tc_reason := LINECALLREASON_DIRECT\<rparr> else c) s2
      in (p, upd_call p (\<lambda>c. c\<lparr>tc_origin := (if fPlaced then LINECALLORIGIN_OUTBOUND else LINECALLORIGIN_INBOUND)\<rparr>) s3))"

definition UnsolicitedCallEvent :: "call_state \<Rightarrow> call_data \<Rightarrow> tsp_line \<Rightarrow> bool \<times> tsp_line" where
  "UnsolicitedCallEvent st d s =
     (case FindCallByCallID (event_CallId d) s of
        None \<Rightarrow>
          if m_callType d = CT_IncomingCall then (True, snd (OnNewCallDetected False None d s))
          else if m_callType d = CT_PhysicalCall then
            (case OnNewCallDetected True None d s of (p, s1) \<Rightarrow> (True, SetCallState LINECALLSTATE_PROCEEDING 0 p s1))
          else if m_callType d = CT_MakeCall \<and> GetTapiCallState st d = LINECALLSTATE_IDLE then (True, s)
          else (False, s)
      | Some p \<Rightarrow>
          let dwCallState = GetTapiCallState st d;
              dwCurCallState = (case get_call p s of None \<Rightarrow> 0 | Some c \<Rightarrow> tc_state c);
              s1 = (if dwCallState \<noteq> dwCurCallState then SetCallState dwCallState 0 p s else s)
          in (True, set_party_ids d p s1))"

definition UnsolicitedConnectedEvent :: "init_state \<Rightarrow> tsp_line \<Rightarrow> bool \<times> tsp_line" where
  "UnsolicitedConnectedEvent st s =
     (if GetInitStatesType st = IT_FATAL then (True, Send_TAPI_Event LineClose s) else (True, s))"

definition UnsolicitedEvent :: "onsip_event \<Rightarrow> tsp_line \<Rightarrow> bool \<times> tsp_line" where
  "UnsolicitedEvent ev s =
     (case ev of
        CallEvent st d r \<Rightarrow> UnsolicitedCallEvent st d s
      | ConnectEvent st r \<Rightarrow> UnsolicitedConnectedEvent st s)"

section \<open>What the line keeps\<close>

context line_frame
begin

text \<open>Each step of a handler, after what it has done so far.\<close>

lemma CompleteRequest_after: "keep s s1 \<Longrightarrow> keep s (snd (CompleteRequest p l True rm s1))"
  using CompleteRequest_keep [OF prod.collapse [symmetric]] keep_trans by blast

lemma SetState_after: "keep s s1 \<Longrightarrow> keep s (SetState st p s1)"
  unfolding SetState_def by (rule keep_trans [OF _ keep_request]) simp_all

lemma EnterState_after: "keep s s1 \<Longrightarrow> keep s (snd (EnterState look next r s1))"
  by (simp add: EnterState_def SetState_after)

lemma SetCallID_after: "keep s s1 \<Longrightarrow> keep s (SetCallID i p s1)"
  unfolding SetCallID_def by (rule keep_trans [OF _ keep_call]) simp_all

lemma SetCallState_after: "keep s s1 \<Longrightarrow> st = LINECALLSTATE_IDLE \<longrightarrow> m = 0 \<Longrightarrow> keep s (SetCallState st m p s1)"
  using SetCallState_keep keep_trans by blast

lemma device_after: "keep s s1 \<Longrightarrow> keep s (snd (DRV_DropCall i s1))" "keep s s1 \<Longrightarrow> keep s (snd (DRV_MakeCall d s1))"
  using keep_trans [OF _ keep_device]
  by (auto simp: DRV_DropCall_def DRV_MakeCall_def split: option.split prod.split)

lemma upd_call_after:
  "keep s s1 \<Longrightarrow> (\<And>c. tc_ptr (f c) = tc_ptr c \<and> tc_state (f c) = tc_state c) \<Longrightarrow> keep s (upd_call p f s1)"
  using keep_trans keep_call by blast

lemmas handler_steps = CompleteRequest_after SetState_after EnterState_after SetCallID_after SetCallState_after
  device_after upd_call_after

lemma check_timeout_keep: "keep s (snd (snd (check_timeout r s)))"
  by (simp add: check_timeout_def case_prod_beta handler_steps)

lemma OnMakeCall_keep: "keep s (snd (snd (OnMakeCall r ev s)))"
  by (auto simp: OnMakeCall_def Let_def case_prod_beta intro!: handler_steps check_timeout_keep
      split: option.split)

lemma OnDial_keep: "keep s (snd (snd (OnDial r ev s)))"
  by (auto simp: OnDial_def Let_def case_prod_beta linecallstate_defs intro!: handler_steps check_timeout_keep)

lemma OnDropCall_keep: "keep s (snd (snd (OnDropCall r ev s)))"
  by (auto simp: OnDropCall_def Let_def case_prod_beta intro!: handler_steps check_timeout_keep
      split: option.split)

lemma DispatchRequest_keep: "keep s (snd (snd (DispatchRequest r ev s)))"
  by (auto simp: DispatchRequest_def case_prod_beta OnMakeCall_keep OnDial_keep OnDropCall_keep
      intro!: handler_steps split: tsp_command.split)

lemma CreateCallAppearance_keep: "keep s (snd (CreateCallAppearance s))"
proof -
  let ?s = "s\<lparr>ln_nextPtr := ln_nextPtr s + 1, ln_calls := ln_calls s @ [new_tsp_call (ln_nextPtr s) (ln_givesHandles s \<and> ln_open s)]\<rparr>"
  have "keep s ?s" by (rule keep_new) (simp add: new_tsp_call_def)
  also have "keep ?s (Send_TAPI_Event (LineNewCall (ln_nextPtr s)) ?s)"
    unfolding Send_TAPI_Event_def by (simp add: keep_event)
  finally show ?thesis by (simp add: CreateCallAppearance_def Let_def)
qed

lemma set_party_ids_after: "keep s s1 \<Longrightarrow> keep s (set_party_ids d p s1)"
  by (auto simp: set_party_ids_def Let_def intro!: handler_steps)

lemma OnNewCallDetected_keep: "keep s (snd (OnNewCallDetected placed pc d s))"
proof -
  have "keep s (snd (case pc of Some p \<Rightarrow> (p, s)
    | None \<Rightarrow> let (p, s1) = CreateCallAppearance s; s2 = SetCallID (event_CallId d) p s1
             in (p, if placed then SetCallState LINECALLSTATE_DIALING 0 p s2
                    else SetCallState LINECALLSTATE_OFFERING LINEOFFERINGMODE_INACTIVE p s2)))"
    by (auto simp: Let_def case_prod_beta linecallstate_defs split: option.split
        intro!: handler_steps CreateCallAppearance_keep)
  then show ?thesis
    by (auto simp: OnNewCallDetected_def Let_def case_prod_beta intro!: handler_steps set_party_ids_after)
qed

lemma UnsolicitedCallEvent_keep: "keep s (snd (UnsolicitedCallEvent st d s))"
  by (auto simp: UnsolicitedCallEvent_def Let_def case_prod_beta split: option.split
      intro!: handler_steps set_party_ids_after OnNewCallDetected_keep)

lemma UnsolicitedEvent_keep: "keep s (snd (UnsolicitedEvent ev s))"
  by (auto simp: UnsolicitedEvent_def UnsolicitedConnectedEvent_def UnsolicitedCallEvent_keep Send_TAPI_Event_def
      intro: keep_event split: onsip_event.split)

end

text \<open>A handler that asks for the next request has taken its own out of the queue.\<close>

lemma next_after:
  assumes "fst (CompleteRequest p l True rm s1)" and "shrinks s s1"
  shows "length (ln_requests (snd (CompleteRequest p l True rm s1))) < length (ln_requests s)"
  using CompleteRequest_less [of p l rm s1 "snd (CompleteRequest p l True rm s1)"] assms
  by (auto simp: shrinks_def prod_eq_iff)

lemma check_timeout_next: "fst (snd (check_timeout r s)) \<Longrightarrow> shrinks s0 s \<Longrightarrow>
    length (ln_requests (snd (snd (check_timeout r s)))) < length (ln_requests s0)"
  by (auto simp: check_timeout_def case_prod_beta next_after split: if_splits)

lemmas next_rules = next_after check_timeout_next shrink.handler_steps shrink.keep_refl

lemma OnMakeCall_next: "fst (snd (OnMakeCall r ev s)) \<Longrightarrow>
    length (ln_requests (snd (snd (OnMakeCall r ev s)))) < length (ln_requests s)"
  by (auto simp: OnMakeCall_def Let_def case_prod_beta intro!: next_rules split: option.splits if_splits)

lemma OnDial_next: "fst (snd (OnDial r ev s)) \<Longrightarrow>
    length (ln_requests (snd (snd (OnDial r ev s)))) < length (ln_requests s)"
  by (auto simp: OnDial_def Let_def case_prod_beta linecallstate_defs intro!: next_rules split: if_splits)

lemma OnDropCall_next: "fst (snd (OnDropCall r ev s)) \<Longrightarrow>
    length (ln_requests (snd (snd (OnDropCall r ev s)))) < length (ln_requests s)"
  by (auto simp: OnDropCall_def Let_def case_prod_beta intro!: next_rules split: option.splits if_splits)

lemma DispatchRequest_next: "fst (snd (DispatchRequest r ev s)) \<Longrightarrow>
    length (ln_requests (snd (snd (DispatchRequest r ev s)))) < length (ln_requests s)"
  by (auto simp: DispatchRequest_def case_prod_beta OnMakeCall_next OnDial_next OnDropCall_next
      intro!: next_rules split: tsp_command.splits)

section \<open>Data for the line\<close>

text \<open>
  \<open>ReceiveData\<close>: an event, or the start or the timer (no event), goes to the handler of the request
  at the head of the queue; when that is done, the next one is started. An event that no handler took is
  unsolicited.
\<close>

definition first_started :: "tsp_request \<Rightarrow> tsp_line \<Rightarrow> tsp_request \<times> tsp_line" where
  "first_started r s =
     (if tr_state r = STATE_NOTPROCESSED
      then (r\<lparr>tr_stateTime := ln_tick s, tr_state := STATE_INITIAL\<rparr>, SetState STATE_INITIAL (tr_ptr r) s)
      else (r, s))"

definition dispatch_first :: "onsip_event option \<Rightarrow> tsp_line \<Rightarrow> handled" where
  "dispatch_first lpBuff s =
     (case ln_requests s of
        [] \<Rightarrow> (False, False, s)
      | r # _ \<Rightarrow> (case first_started r s of (r1, s1) \<Rightarrow> DispatchRequest r1 lpBuff s1))"

lemma dispatch_first_next:
  assumes "dispatch_first ev s = (h, True, s')" shows "length (ln_requests s') < length (ln_requests s)"
proof (cases "ln_requests s")
  case (Cons r rs)
  have l: "length (ln_requests (snd (first_started r s))) = length (ln_requests s)"
    by (simp add: first_started_def SetState_def upd_request_def)
  from Cons assms have "DispatchRequest (fst (first_started r s)) ev (snd (first_started r s)) = (h, True, s')"
    by (simp add: dispatch_first_def case_prod_beta)
  with DispatchRequest_next [of "fst (first_started r s)" ev "snd (first_started r s)"] l show ?thesis by simp
qed (use assms in \<open>simp add: dispatch_first_def\<close>)

function start_requests :: "tsp_line \<Rightarrow> tsp_line" where
  "start_requests s =
     (case dispatch_first None s of (_, next, s') \<Rightarrow> if next then start_requests s' else s')"
  by pat_completeness auto
termination
  by (relation "measure (\<lambda>s. length (ln_requests s))") (auto dest: dispatch_first_next [OF sym])

declare start_requests.simps [simp del]

definition ReceiveData :: "onsip_event option \<Rightarrow> tsp_line \<Rightarrow> bool \<times> tsp_line" where
  "ReceiveData lpBuff s =
     (let (handled, next, s1) = dispatch_first lpBuff s;
          s2 = (if next then start_requests s1 else s1)
      in if handled then (True, s2)
         else case lpBuff of None \<Rightarrow> (False, s2) | Some ev \<Rightarrow> UnsolicitedEvent ev s2)"

definition OnTimer :: "tsp_line \<Rightarrow> tsp_line" where
  "OnTimer s = snd (ReceiveData None s)"

text \<open>The nested call is a \<open>ReceiveData\<close> without an event, whose answer is not looked at.\<close>

lemma start_requests_ReceiveData: "start_requests s = snd (ReceiveData None s)"
  by (subst start_requests.simps) (simp add: ReceiveData_def Let_def case_prod_beta)

definition AddRequest :: "tsp_request \<Rightarrow> tsp_line \<Rightarrow> tsp_line" where
  "AddRequest r s = (case AddAsynchRequest r s of (start, s') \<Rightarrow> if start then start_requests s' else s')"

context line_frame
begin

lemma dispatch_first_keep: "keep s (snd (snd (dispatch_first ev s)))"
proof -
  have "keep s (snd (first_started r s))" for r by (simp add: first_started_def SetState_after)
  from keep_trans [OF this DispatchRequest_keep] show ?thesis
    by (auto simp: dispatch_first_def case_prod_beta split: list.split)
qed

lemma start_requests_keep: "keep s (start_requests s)"
proof (induction s rule: start_requests.induct)
  case (1 s)
  show ?case
  proof (cases "fst (snd (dispatch_first None s))")
    case True
    with 1 have "keep (snd (snd (dispatch_first None s))) (start_requests (snd (snd (dispatch_first None s))))"
      by (metis prod.collapse)
    with keep_trans [OF dispatch_first_keep] True show ?thesis
      by (subst start_requests.simps) (simp add: case_prod_beta)
  next
    case False
    with dispatch_first_keep [of s None] show ?thesis
      by (subst start_requests.simps) (simp add: case_prod_beta)
  qed
qed

lemma ReceiveData_keep: "keep s (snd (ReceiveData ev s))"
proof -
  have k: "keep s (if fst (snd (dispatch_first ev s)) then start_requests (snd (snd (dispatch_first ev s)))
      else snd (snd (dispatch_first ev s)))"
    using keep_trans [OF dispatch_first_keep start_requests_keep] dispatch_first_keep by simp
  from keep_trans [OF k UnsolicitedEvent_keep] k show ?thesis
    by (auto simp: ReceiveData_def Let_def case_prod_beta split: option.split)
qed

lemma OnTimer_keep: "keep s (OnTimer s)"
  unfolding OnTimer_def by (rule ReceiveData_keep)

end

end
