(* ===== verification/LineCalls.thy ===== *)
theory LineCalls
  imports Line
begin

text \<open>
  The operations TAPI calls on the line and its calls (\<open>Lineconn.cpp\<close>, \<open>Call.cpp\<close>): make a call, dial,
  drop, close a call, open and close the line; the histories of a line. A request
  that is accepted answers its id, which TAPI takes from the positive numbers. The features that
  depend on counters are arguments; the address can make calls and is dialled on, as
  the driver configures it. Call parameters and user-user information are left out: \<open>lineMakeCall\<close> is called with
  none.
\<close>

section \<open>Operations\<close>

definition LINEERR_INVALCALLHANDLE :: long where "LINEERR_INVALCALLHANDLE = 0x80000018"
definition LINEERR_ALLOCATED :: long where "LINEERR_ALLOCATED = 0x80000001"
definition LINEERR_OPERATIONUNAVAIL :: long where "LINEERR_OPERATIONUNAVAIL = 0x80000049"
definition LINEERR_RESOURCEUNAVAIL :: long where "LINEERR_RESOURCEUNAVAIL = 0x8000004B"
definition TAPIERR_REQUESTCANCELLED :: long where "TAPIERR_REQUESTCANCELLED = 0xFFFFFFEF"
definition LINECALLSTATE_RINGBACK :: dword where "LINECALLSTATE_RINGBACK = 0x20"
definition LINECALLSTATE_BUSY :: dword where "LINECALLSTATE_BUSY = 0x40"

lemmas line_errors = LINEERR_INVALCALLHANDLE_def LINEERR_ALLOCATED_def LINEERR_OPERATIONUNAVAIL_def
  LINEERR_RESOURCEUNAVAIL_def LINEERR_OPERATIONFAILED_def

definition IsConnectedCallState :: "dword \<Rightarrow> bool" where
  "IsConnectedCallState dwState \<longleftrightarrow>
     and dwState (or (or (or LINECALLSTATE_DIALTONE LINECALLSTATE_DIALING) (or LINECALLSTATE_RINGBACK LINECALLSTATE_BUSY))
       (or LINECALLSTATE_CONNECTED LINECALLSTATE_PROCEEDING)) \<noteq> 0"

text \<open>The two feature bits of a call that the operations look at, as \<open>OnCallStatusChange\<close> sets them.\<close>

definition feature_drop :: "dword \<Rightarrow> bool" where
  "feature_drop dwCallState \<longleftrightarrow> dwCallState \<noteq> LINECALLSTATE_UNKNOWN \<and> dwCallState \<noteq> LINECALLSTATE_IDLE"

definition feature_dial :: "dword \<Rightarrow> bool" where
  "feature_dial dwCallState \<longleftrightarrow> feature_drop dwCallState \<and> IsConnectedCallState dwCallState"

definition live_call :: "nat \<Rightarrow> tsp_line \<Rightarrow> tsp_call option" where
  "live_call p s = (case get_call p s of None \<Rightarrow> None | Some c \<Rightarrow> if tc_isDeleted c then None else Some c)"

text \<open>
  \<open>CTSPILineConnection::MakeCall\<close> with \<open>CTSPICallAppearance::MakeCall\<close>. The arguments: whether the line has
  the make-call feature, whether its last free call is asked for, the line's own number, and what
  \<open>CheckDialableNumber\<close> made of the number.
\<close>

definition outgoing_call :: "nat \<Rightarrow> tstring \<Rightarrow> tstring list \<Rightarrow> tsp_call" where
  "outgoing_call p own numbers = (new_tsp_call p True)\<lparr>tc_origin := LINECALLORIGIN_OUTBOUND,
     tc_reason := LINECALLREASON_DIRECT, tc_callerID := own,
     tc_calledID := (case numbers of [] \<Rightarrow> '''' | n # _ \<Rightarrow> n)\<rparr>"

definition TSPI_lineMakeCall ::
  "bool \<Rightarrow> bool \<Rightarrow> tstring \<Rightarrow> dword \<Rightarrow> tstring list \<Rightarrow> dword \<Rightarrow> tsp_line \<Rightarrow> long \<times> tsp_line" where
  "TSPI_lineMakeCall mayCall lastFree own requestId numbers country s =
     (if \<not> mayCall then (LINEERR_OPERATIONUNAVAIL, s)
      else if lastFree \<and> FindRequest None REQUEST_MAKECALL s \<noteq> None then (LINEERR_RESOURCEUNAVAIL, s)
      else
        let p = ln_nextPtr s;
            s1 = s\<lparr>ln_nextPtr := p + 1, ln_calls := ln_calls s @ [outgoing_call p own numbers]\<rparr>;
            (r, s2) = new_tsp_request REQUEST_MAKECALL requestId p numbers country s1
        in (requestId, AddRequest r s2))"

definition TSPI_lineDial :: "dword \<Rightarrow> nat \<Rightarrow> tstring list \<Rightarrow> dword \<Rightarrow> tsp_line \<Rightarrow> long \<times> tsp_line" where
  "TSPI_lineDial requestId p numbers country s =
     (case live_call p s of
        None \<Rightarrow> (LINEERR_INVALCALLHANDLE, s)
      | Some c \<Rightarrow>
          if \<not> feature_dial (tc_state c) \<or> FindRequest (Some p) REQUEST_DIAL s \<noteq> None then (LINEERR_OPERATIONUNAVAIL, s)
          else
            let s1 = (if (tc_state c = LINECALLSTATE_DIALTONE \<or> tc_state c = LINECALLSTATE_DIALING) \<and>
                         numbers \<noteq> [] \<and> hd numbers \<noteq> []
                      then upd_call p (\<lambda>c. c\<lparr>tc_calledID :=
                             (if tc_state c = LINECALLSTATE_DIALING then tc_calledID c @ hd numbers else hd numbers)\<rparr>) s
                      else s);
                (r, s2) = new_tsp_request REQUEST_DIAL requestId p numbers country s1
            in (requestId, AddRequest r s2))"

definition TSPI_lineDrop :: "dword \<Rightarrow> nat \<Rightarrow> tsp_line \<Rightarrow> long \<times> tsp_line" where
  "TSPI_lineDrop requestId p s =
     (case live_call p s of
        None \<Rightarrow> (LINEERR_INVALCALLHANDLE, s)
      | Some c \<Rightarrow>
          if 0 < requestId \<and> \<not> feature_drop (tc_state c) then (LINEERR_OPERATIONUNAVAIL, s)
          else if tc_isDropped c then (0, s)
          else
            let s1 = upd_call p (\<lambda>c. c\<lparr>tc_isDropped := True\<rparr>) s;
                (r, s2) = new_tsp_request REQUEST_DROPCALL requestId p [] 0 s1
            in (requestId, AddRequest r s2))"

text \<open>
  Closing a call waits for its drop requests, closing the line for those of all calls; \<^const>\<open>None\<close> while they
  wait. A closed line keeps no calls (\<open>DeleteCallsOnClose\<close>) and drops none.
\<close>

definition TSPI_lineCloseCall :: "nat \<Rightarrow> tsp_line \<Rightarrow> (long \<times> tsp_line) option" where
  "TSPI_lineCloseCall p s =
     (case live_call p s of
        None \<Rightarrow> Some (LINEERR_INVALCALLHANDLE, s)
      | Some c \<Rightarrow>
          if FindRequest (Some p) REQUEST_DROPCALL s \<noteq> None then None
          else
            let s1 = upd_call p (\<lambda>c. c\<lparr>tc_handle := False\<rparr>) s
            in Some (0, if tc_state c = LINECALLSTATE_IDLE then RemoveCallAppearance p s1 else s1))"

fun close_calls :: "nat list \<Rightarrow> tsp_line \<Rightarrow> tsp_line" where
  "close_calls [] s = s"
| "close_calls (p # ps) s = close_calls ps
     (case live_call p s of
        None \<Rightarrow> s
      | Some c \<Rightarrow> RemoveCallAppearance p
          (if tc_state c \<noteq> LINECALLSTATE_IDLE then SetCallState LINECALLSTATE_IDLE 0 p s else s))"

definition TSPI_lineClose :: "tsp_line \<Rightarrow> (long \<times> tsp_line) option" where
  "TSPI_lineClose s =
     (if \<not> ln_open s then Some (LINEERR_OPERATIONFAILED, s)
      else if FindRequest None REQUEST_DROPCALL s \<noteq> None then None
      else
        let s1 = RemovePendingRequests RemoveCallAppearance None TAPIERR_REQUESTCANCELLED False None s;
            s2 = s1\<lparr>ln_open := False\<rparr>;
            s3 = close_calls (map tc_ptr (ln_calls s2)) s2
        in Some (0, s3\<lparr>ln_device := None\<rparr>))"

definition TSPI_lineOpen :: "bool \<Rightarrow> tsp_line \<Rightarrow> long \<times> tsp_line" where
  "TSPI_lineOpen opens s =
     (if ln_open s then (LINEERR_ALLOCATED, s)
      else if opens then (0, s\<lparr>ln_open := True\<rparr>) else (LINEERR_RESOURCEUNAVAIL, s))"

section \<open>What they keep\<close>

context line_frame
begin

lemma closes_keep:
  "TSPI_lineCloseCall p s = Some (ret, s') \<Longrightarrow> keep s s'"
proof -
  let ?s = "upd_call p (\<lambda>c. c\<lparr>tc_handle := False\<rparr>) s"
  have k: "keep s ?s" by (rule keep_call) simp
  assume "TSPI_lineCloseCall p s = Some (ret, s')"
  with k keep_trans [OF k RemoveCallAppearance_keep] show ?thesis
    by (auto simp: TSPI_lineCloseCall_def Let_def split: option.splits if_splits)
qed

lemma close_calls_keep: "keep s (close_calls ps s)"
proof (induction ps arbitrary: s)
  case (Cons p ps)
  have "keep s (case live_call p s of None \<Rightarrow> s | Some c \<Rightarrow> RemoveCallAppearance p
      (if tc_state c \<noteq> LINECALLSTATE_IDLE then SetCallState LINECALLSTATE_IDLE 0 p s else s))"
    using keep_trans [OF SetCallState_keep RemoveCallAppearance_keep] RemoveCallAppearance_keep
    by (auto split: option.split)
  from keep_trans [OF this Cons.IH] show ?case by simp
qed simp

lemma lineClose_keep: "TSPI_lineClose s = Some (ret, s') \<Longrightarrow> keep s s'"
proof -
  let ?s1 = "RemovePendingRequests RemoveCallAppearance None TAPIERR_REQUESTCANCELLED False None s"
  let ?s2 = "?s1\<lparr>ln_open := False\<rparr>"
  let ?s3 = "close_calls (map tc_ptr (ln_calls ?s2)) ?s2"
  have "keep s ?s1" by (rule RemovePending_keep [OF RemoveCallAppearance_keep])
  also have "keep ?s1 ?s2" by (rule keep_open)
  also have "keep ?s2 ?s3" by (rule close_calls_keep)
  also have "keep ?s3 (?s3\<lparr>ln_device := None\<rparr>)" by (rule keep_device)
  finally have "keep s (?s3\<lparr>ln_device := None\<rparr>)" .
  then show "TSPI_lineClose s = Some (ret, s') \<Longrightarrow> ?thesis" by (auto simp: TSPI_lineClose_def Let_def split: if_splits)
qed

lemma lineOpen_keep: "keep s (snd (TSPI_lineOpen b s))"
  by (auto simp: TSPI_lineOpen_def intro: keep_open)

end

text \<open>The requests put one new element into the queue and then run it, if its turn has come.\<close>

definition queued :: "tsp_request \<Rightarrow> tsp_line \<Rightarrow> tsp_line" where
  "queued r s = snd (AddAsynchRequest r s)"

lemma queued_parts: "\<exists>as bs. ln_requests s = as @ bs \<and> queued r s = s\<lparr>ln_requests := as @ r # bs\<rparr>"
proof -
  let ?n = "length (takeWhile (\<lambda>r. tr_state r \<noteq> STATE_NOTPROCESSED) (ln_requests s))"
  show ?thesis
  proof (cases "tr_command r = REQUEST_DROPCALL")
    case True
    then have "queued r s = s\<lparr>ln_requests := take ?n (ln_requests s) @ r # drop ?n (ln_requests s)\<rparr>"
      by (cases ?n) (simp_all add: queued_def AddAsynchRequest_def Let_def)
    then show ?thesis by (intro exI [of _ "take ?n (ln_requests s)"] exI [of _ "drop ?n (ln_requests s)"]) simp
  next
    case False
    then have "queued r s = s\<lparr>ln_requests := ln_requests s @ [r]\<rparr>"
      by (simp add: queued_def AddAsynchRequest_def Let_def)
    then show ?thesis by (intro exI [of _ "ln_requests s"] exI [of _ "[]"]) simp
  qed
qed

section \<open>Histories\<close>

definition new_line :: "bool \<Rightarrow> dword \<Rightarrow> tsp_line" where
  "new_line handles tick = \<lparr>ln_calls = [], ln_requests = [], ln_tapi = [], ln_tick = tick, ln_nextPtr = 0,
     ln_givesHandles = handles, ln_open = False, ln_device = None\<rparr>"

text \<open>
  The steps of a line, with the ids of the requests it accepts: the calls of TAPI, the events of the
  engine, the timer, the clock, and what the thread of the device does to the engine.
\<close>

inductive line_step :: "tsp_line \<Rightarrow> dword list \<Rightarrow> tsp_line \<Rightarrow> bool" where
  make_call: "TSPI_lineMakeCall mayCall lf own i ns country s = (ret, s') \<Longrightarrow> 0 < sint i \<Longrightarrow>
    line_step s (if ret = i then [i] else []) s'"
| dial: "TSPI_lineDial i p ns country s = (ret, s') \<Longrightarrow> 0 < sint i \<Longrightarrow> line_step s (if ret = i then [i] else []) s'"
| drop: "TSPI_lineDrop i p s = (ret, s') \<Longrightarrow> 0 < sint i \<Longrightarrow> line_step s (if ret = i then [i] else []) s'"
| close_call: "TSPI_lineCloseCall p s = Some (ret, s') \<Longrightarrow> line_step s [] s'"
| close_line: "TSPI_lineClose s = Some (ret, s') \<Longrightarrow> line_step s [] s'"
| open_line: "line_step s [] (snd (TSPI_lineOpen b s))"
| event: "line_step s [] (snd (ReceiveData (Some ev) s))"
| timer: "line_step s [] (OnTimer s)"
| clock: "line_step s [] (s\<lparr>ln_tick := t\<rparr>)"
| device: "line_step s [] (s\<lparr>ln_device := d\<rparr>)"

inductive line_steps :: "tsp_line \<Rightarrow> dword list \<Rightarrow> tsp_line \<Rightarrow> bool" where
  none: "line_steps s [] s"
| step: "line_steps s ids s' \<Longrightarrow> line_step s' js s'' \<Longrightarrow> line_steps s (ids @ js) s''"

definition line_run :: "dword list \<Rightarrow> tsp_line \<Rightarrow> bool" where
  "line_run ids s \<longleftrightarrow> (\<exists>handles tick. line_steps (new_line handles tick) ids s)"

lemma positive_id: "0 < sint (i :: long) \<Longrightarrow> i \<noteq> 0 \<and> i \<noteq> LINEERR_INVALCALLHANDLE \<and> i \<noteq> LINEERR_OPERATIONUNAVAIL \<and>
    i \<noteq> LINEERR_RESOURCEUNAVAIL"
  by (auto simp: line_errors)

text \<open>A step either keeps what the elementary steps keep, or does so but for one new request.\<close>

definition adds :: "(tsp_line \<Rightarrow> tsp_line \<Rightarrow> bool) \<Rightarrow> tsp_line \<Rightarrow> dword \<Rightarrow> tsp_line \<Rightarrow> bool" where
  "adds keep s i s' \<longleftrightarrow> (\<exists>s1 r. keep s s1 \<and> tr_ptr r = ln_nextPtr s1 \<and> tr_requestId r = i \<and> \<not> tr_responseSent r \<and>
     keep (queued r (s1\<lparr>ln_nextPtr := Suc (ln_nextPtr s1)\<rparr>)) s')"

context line_frame
begin

lemma AddRequest_keep: "keep (queued r s) (AddRequest r s)"
  by (simp add: AddRequest_def queued_def case_prod_beta start_requests_keep)

lemma addsI:
  assumes "keep s s1"
  shows "adds keep s i (AddRequest (fst (new_tsp_request cmd i p ns country s1)) (snd (new_tsp_request cmd i p ns country s1)))"
  unfolding adds_def new_tsp_request_def using assms AddRequest_keep
  by (intro exI [of _ s1] exI) (auto simp: )

lemma make_call_step:
  assumes "TSPI_lineMakeCall mayCall lf own i ns country s = (ret, s')" and "0 < sint i"
  shows "if ret = i then adds keep s i s' else s' = s"
proof -
  let ?s = "s\<lparr>ln_nextPtr := ln_nextPtr s + 1, ln_calls := ln_calls s @ [outgoing_call (ln_nextPtr s) own ns]\<rparr>"
  have "keep s ?s" by (rule keep_new) (simp add: outgoing_call_def new_tsp_call_def)
  from addsI [OF this] assms positive_id [OF assms(2)] show ?thesis
    by (auto simp: TSPI_lineMakeCall_def Let_def case_prod_beta split: if_splits)
qed

lemma dial_step:
  assumes "TSPI_lineDial i p ns country s = (ret, s')" and "0 < sint i"
  shows "if ret = i then adds keep s i s' else s' = s"
proof -
  have "keep s (upd_call p (\<lambda>c. c\<lparr>tc_calledID := f c\<rparr>) s)" for f by (rule keep_call) simp
  from addsI [OF this] addsI [OF keep_refl] assms positive_id [OF assms(2)] show ?thesis
    by (auto simp: TSPI_lineDial_def Let_def case_prod_beta split: if_splits option.splits)
qed

lemma drop_step:
  assumes "TSPI_lineDrop i p s = (ret, s')" and "0 < sint i"
  shows "if ret = i then adds keep s i s' else s' = s"
proof -
  have "keep s (upd_call p (\<lambda>c. c\<lparr>tc_isDropped := True\<rparr>) s)" by (rule keep_call) simp
  from addsI [OF this] assms positive_id [OF assms(2)] show ?thesis
    by (auto simp: TSPI_lineDrop_def Let_def case_prod_beta split: if_splits option.splits)
qed

lemma line_step_keep:
  assumes "line_step s js s'" and clock: "\<And>s t. keep s (s\<lparr>ln_tick := t\<rparr>)"
  shows "js = [] \<and> keep s s' \<or> (\<exists>i. js = [i] \<and> i \<noteq> 0 \<and> adds keep s i s')"
  using assms(1)
proof cases
  case (make_call mayCall lf own i ns country ret)
  with make_call_step [OF make_call(2,3)] positive_id [OF make_call(3)] show ?thesis by (auto split: if_splits)
next
  case (dial i p ns country ret)
  with dial_step [OF dial(2,3)] positive_id [OF dial(3)] show ?thesis by (auto split: if_splits)
next
  case (drop i p ret)
  with drop_step [OF drop(2,3)] positive_id [OF drop(3)] show ?thesis by (auto split: if_splits)
qed (auto intro: closes_keep lineClose_keep lineOpen_keep ReceiveData_keep OnTimer_keep clock keep_device)

end

text \<open>The new request takes the next free number; it counts as one more without an answer.\<close>

lemma wf_queued:
  assumes "line_wf s" and "tr_ptr r = ln_nextPtr s"
  shows "line_wf (queued r (s\<lparr>ln_nextPtr := Suc (ln_nextPtr s)\<rparr>))"
proof -
  let ?s = "s\<lparr>ln_nextPtr := Suc (ln_nextPtr s)\<rparr>"
  obtain as bs where q: "ln_requests ?s = as @ bs" "queued r ?s = ?s\<lparr>ln_requests := as @ r # bs\<rparr>"
    using queued_parts by blast
  have "\<forall>q \<in> set (ln_requests s). tr_ptr q < ln_nextPtr s" using assms(1) by (simp add: line_wf_def)
  with assms q show ?thesis by (auto simp: line_wf_def less_Suc_eq)
qed

lemma balance_queued:
  "answers i (queued r s) = answers i s"
  "unanswered i (queued r s) = unanswered i s + (if is_open i r then 1 else 0)"
proof -
  obtain as bs where q: "ln_requests s = as @ bs" "queued r s = s\<lparr>ln_requests := as @ r # bs\<rparr>"
    using queued_parts by blast
  then show "answers i (queued r s) = answers i s"
    "unanswered i (queued r s) = unanswered i s + (if is_open i r then 1 else 0)"
    by (simp_all add: unanswered_def)
qed

lemma balance_nextPtr [simp]:
  "answers i (s\<lparr>ln_nextPtr := n\<rparr>) = answers i s" "unanswered i (s\<lparr>ln_nextPtr := n\<rparr>) = unanswered i s"
  by (simp_all add: answers_def unanswered_def)

lemma count_list_distinct: "distinct xs \<Longrightarrow> x \<in> set xs \<Longrightarrow> count_list xs x = 1"
  by (induction xs) auto

lemma adds_balance:
  assumes "adds same_balance s i s'" and "line_wf s" and "i \<noteq> 0"
  shows "line_wf s' \<and>
    (\<forall>j. answers j s' + unanswered j s' = answers j s + unanswered j s + (if j = i then 1 else 0))"
proof -
  obtain s1 r where a: "same_balance s s1" "tr_ptr r = ln_nextPtr s1" "tr_requestId r = i" "\<not> tr_responseSent r"
    "same_balance (queued r (s1\<lparr>ln_nextPtr := Suc (ln_nextPtr s1)\<rparr>)) s'" using assms(1) by (auto simp: adds_def)
  with assms(2) have "line_wf s1" by (simp add: same_balance_def)
  from wf_queued [OF this a(2)] a assms(2,3) show ?thesis
    by (auto simp: same_balance_def balance_queued is_open_def HaveSent_iff)
qed

lemma run_balance:
  assumes "line_steps s0 ids s" and "s0 = new_line h t"
  shows "line_wf s \<and> (\<forall>i. i \<noteq> 0 \<longrightarrow> answers i s + unanswered i s = count_list ids i)"
  using assms
proof (induction rule: line_steps.induct)
  case (none s)
  then show ?case by (simp add: new_line_def line_wf_def answers_def unanswered_def)
next
  case (step s ids s' js s'')
  then have wf: "line_wf s'" and b: "i \<noteq> 0 \<Longrightarrow> answers i s' + unanswered i s' = count_list ids i" for i by auto
  have c: "same_balance s (s\<lparr>ln_tick := t\<rparr>)" for s t by (simp add: same_balance_def)
  from balance.line_step_keep [OF step.hyps(2) c]
  consider "js = []" "same_balance s' s''" | i where "js = [i]" "i \<noteq> 0" "adds same_balance s' i s''" by blast
  then show ?case
  proof cases
    case 1
    with wf b show ?thesis by (simp add: same_balance_def)
  next
    case 2
    from adds_balance [OF 2(3) wf 2(2)] b 2(1) show ?thesis by simp
  qed
qed

lemma adds_idle: "adds idle_kept s i s' \<Longrightarrow> idle_kept s s'"
proof -
  have "idle_kept s1 (queued r (s1\<lparr>ln_nextPtr := n\<rparr>))" for s1 r n
  proof -
    obtain as bs where "queued r (s1\<lparr>ln_nextPtr := n\<rparr>) = s1\<lparr>ln_nextPtr := n, ln_requests := as @ r # bs\<rparr>"
      using queued_parts [of "s1\<lparr>ln_nextPtr := n\<rparr>" r] by blast
    then show ?thesis by (simp add: idle_kept_def idle_call_def get_call_def)
  qed
  then show "adds idle_kept s i s' \<Longrightarrow> ?thesis" unfolding adds_def by (meson idle.keep_trans)
qed

lemma steps_idle: "line_steps s ids s' \<Longrightarrow> idle_kept s s'"
proof (induction rule: line_steps.induct)
  case (step s ids s' js s'')
  have c: "idle_kept s (s\<lparr>ln_tick := t\<rparr>)" for s t by (simp add: idle_kept_def)
  from idle.line_step_keep [OF step.hyps(2) c] adds_idle have "idle_kept s' s''" by blast
  with step.IH show ?case by (rule idle.keep_trans)
qed simp

section \<open>Properties\<close>

text \<open>
  C1. Every request TAPI makes is answered once. TAPI gives each request it issues an id of its
  own. In any history of the line, with any interleaving of requests, events, timer ticks, closing of calls and
  of the line, and with the engine present or not: a request the line accepted has been answered at most
  once; it has not been answered exactly as long as it waits in the queue; and no answer carries the
  id of a request that was not accepted.
\<close>
theorem requests_answered_once:
  assumes "line_run ids s" and "distinct ids"
  shows "(\<forall>i \<in> set ids. i \<noteq> 0 \<longrightarrow> answers i s \<le> 1 \<and>
       (answers i s = 0 \<longleftrightarrow> (\<exists>r \<in> set (ln_requests s). tr_requestId r = i \<and> \<not> HaveSentResponse r))) \<and>
     (\<forall>i. i \<noteq> 0 \<and> i \<notin> set ids \<longrightarrow> answers i s = 0)"
proof -
  have b: "i \<noteq> 0 \<Longrightarrow> answers i s + unanswered i s = count_list ids i" for i
    using run_balance assms(1) unfolding line_run_def by blast
  have u: "(unanswered i s \<noteq> 0) = (\<exists>r \<in> set (ln_requests s). tr_requestId r = i \<and> \<not> HaveSentResponse r)" for i
    by (auto simp: unanswered_def is_open_def filter_empty_conv)
  have "i \<in> set ids \<Longrightarrow> count_list ids i = 1" for i using assms(2) by (simp add: count_list_distinct)
  with b have one: "i \<in> set ids \<Longrightarrow> i \<noteq> 0 \<Longrightarrow> answers i s + unanswered i s = 1" for i by simp
  have "answers i s \<le> 1 \<and> (answers i s = 0 \<longleftrightarrow> unanswered i s \<noteq> 0)" if "i \<in> set ids" "i \<noteq> 0" for i
  proof -
    have "answers i s + unanswered i s = 1" using that by (rule one)
    then show ?thesis by presburger
  qed
  moreover have "i \<noteq> 0 \<Longrightarrow> i \<notin> set ids \<Longrightarrow> answers i s = 0" for i using b [of i] by simp
  ultimately show ?thesis unfolding u by simp
qed

text \<open>A line with the engine, on which a call is requested, and the request times out.\<close>

definition sample_line0 :: tsp_line where
  "sample_line0 = (snd (TSPI_lineOpen True (new_line True 1000)))\<lparr>ln_device := Some sample_polled\<rparr>"

definition sample_line1 :: tsp_line where
  "sample_line1 = (snd (TSPI_lineMakeCall True False ''100'' 7 [''5551234''] 1 sample_line0))\<lparr>ln_tick := 12001\<rparr>"

definition sample_line2 :: tsp_line where
  "sample_line2 = OnTimer sample_line1"

lemma sample_line_run: "line_run [7] sample_line2"
proof -
  let ?m = "TSPI_lineMakeCall True False ''100'' 7 [''5551234''] 1 sample_line0"
  have m: "?m = (7, snd ?m)" by (simp add: prod_eq_iff) code_simp
  have "line_steps (new_line True 1000) [] sample_line0"
    unfolding sample_line0_def using none [THEN step, OF open_line, THEN step, OF device] by simp
  from step [OF this make_call [OF m]] have "line_steps (new_line True 1000) [7] (snd ?m)" by simp
  from step [OF step [OF this clock] timer] show ?thesis
    unfolding line_run_def sample_line1_def sample_line2_def by (intro exI) simp
qed

theorem requests_answered_once_witness:
  "answers 7 sample_line2 = 1 \<and> (answers 7 sample_line2 = 0 \<longleftrightarrow>
     (\<exists>r \<in> set (ln_requests sample_line2). tr_requestId r = 7 \<and> \<not> HaveSentResponse r)) \<and> answers 8 sample_line2 = 0"
proof -
  have "answers 7 sample_line2 = 1" by code_simp
  with requests_answered_once [OF sample_line_run] show ?thesis by simp
qed

end
