(* ===== verification/LineProtocol.thy ===== *)
theory LineProtocol
  imports LineCalls
begin

text \<open>
  Properties of the line: the idle state is final, the timeout of the requests over the wrapping clock, what
  happens to a request and a call when it strikes, and the call that is created when its end is
  reported twice.
\<close>

section \<open>Idle\<close>

text \<open>
  C12. The idle state is final: whatever TAPI and the engine do, once a call of the line is idle it stays
  idle (also after it was removed), and TAPI is told no state of that call again.
\<close>
theorem idle_is_final:
  assumes "line_steps s ids s'" and "get_call p s = Some c" and "tc_state c = LINECALLSTATE_IDLE"
  shows "(\<exists>c'. get_call p s' = Some c' \<and> tc_state c' = LINECALLSTATE_IDLE) \<and>
     (\<exists>ms. ln_tapi s' = ln_tapi s @ ms \<and> (\<forall>st m. LineCallState p st m \<notin> set ms))"
  using steps_idle [OF assms(1)] assms(2,3) unfolding idle_kept_def idle_call_def by blast

lemma sample_idle: "\<exists>c. get_call 0 sample_line2 = Some c \<and> tc_state c = LINECALLSTATE_IDLE"
proof -
  have "map_option tc_state (get_call 0 sample_line2) = Some LINECALLSTATE_IDLE" by code_simp
  then show ?thesis by auto
qed

theorem idle_is_final_witness:
  "\<exists>c'. get_call 0 (OnTimer sample_line2) = Some c' \<and> tc_state c' = LINECALLSTATE_IDLE"
proof -
  obtain c where c: "get_call 0 sample_line2 = Some c" "tc_state c = LINECALLSTATE_IDLE" using sample_idle by blast
  have "line_steps sample_line2 [] (OnTimer sample_line2)" using line_steps.step [OF none timer] by fastforce
  from idle_is_final [OF this c] show ?thesis by blast
qed

section \<open>The timeout of a request\<close>

text \<open>
  C37. Exactly when a request times out. A request is in its state since \<open>e\<close> milliseconds. If the tick count
  at which it entered the state is more than ten seconds away from its wrap-around, it is found expired
  after more than ten seconds, but not when the count has wrapped. In the last ten
  seconds before the wrap-around the sum \<open>GetStateTime() + REQUEST_TIMEOUT\<close> overflows, and the
  request counts as expired at once, with no time passed at all.
\<close>
theorem request_expired_exact:
  assumes "ln_tick s = tr_stateTime r + word_of_nat e" and "e < 2 ^ 32"
  shows "request_expired r s \<longleftrightarrow>
     (if unat (tr_stateTime r) + 10000 < 2 ^ 32
      then 10000 < e \<and> unat (tr_stateTime r) + e < 2 ^ 32
      else 10000 < e \<or> unat (tr_stateTime r) + e < 2 ^ 32)"
proof -
  let ?t = "unat (tr_stateTime r)"
  have t: "?t < 2 ^ 32" using unsigned_less [of "tr_stateTime r"] by simp
  have "unat (ln_tick s) = (?t + e) mod 2 ^ 32"
    using assms by (simp add: unat_word_ariths unat_of_nat take_bit_nat_eq_self)
  moreover have "unat (tr_stateTime r + REQUEST_TIMEOUT) = (?t + 10000) mod 2 ^ 32"
    by (simp add: REQUEST_TIMEOUT_def unat_word_ariths)
  ultimately have "request_expired r s \<longleftrightarrow> (?t + 10000) mod 2 ^ 32 < (?t + e) mod 2 ^ 32"
    by (simp add: request_expired_def word_less_nat_alt)
  moreover have "(?t + k) mod 2 ^ 32 = (if ?t + k < 2 ^ 32 then ?t + k else ?t + k - 2 ^ 32)" if "k < 2 ^ 32" for k
    using t that by (simp add: mod_if)
  ultimately show ?thesis using t assms(2) by auto
qed

text \<open>Expired in the moment it was started, and not expired when the clock has wrapped.\<close>

definition sample_request :: tsp_request where
  "sample_request = (fst (new_tsp_request REQUEST_DROPCALL 7 0 [] 0 (new_line True 0)))
     \<lparr>tr_state := STATE_WAITING, tr_stateTime := 4294967000\<rparr>"

theorem request_expired_exact_witness:
  "request_expired sample_request (new_line True 4294967000) \<and>
   \<not> request_expired (sample_request\<lparr>tr_stateTime := 4294957000\<rparr>) (new_line True 20000)"
proof -
  have t: "unat (tr_stateTime sample_request) = 4294967000" "tr_stateTime sample_request = 4294967000"
    "ln_tick (new_line True 4294967000) = tr_stateTime sample_request + word_of_nat 0"
    "ln_tick (new_line True 20000) = tr_stateTime (sample_request\<lparr>tr_stateTime := 4294957000\<rparr>) + word_of_nat 30296"
    by (simp_all add: sample_request_def new_line_def)
  from request_expired_exact [OF t(3)] request_expired_exact [OF t(4)] t(1) show ?thesis by simp
qed

lemma head_request: "ln_requests s = r # rs \<Longrightarrow> get_request (tr_ptr r) s = Some r"
  by (simp add: get_request_def)

lemma waiting_dispatch:
  assumes "tr_state r = STATE_WAITING" and "tr_command r \<in> {REQUEST_MAKECALL, REQUEST_DIAL, REQUEST_DROPCALL}"
  shows "DispatchRequest r None s = check_timeout r s"
  using assms by (auto simp: DispatchRequest_def OnMakeCall_def OnDial_def OnDropCall_def EnterState_def getCallEvent_def
      state_defs Let_def)

lemma CompleteRequest_failed:
  assumes "ln_requests s = r # rs" and "tr_state r = STATE_WAITING" and "l \<noteq> 0"
  shows "snd (CompleteRequest (tr_ptr r) l True True s) =
     (let s' = RT_Failed RemoveCallAppearance r (RemoveRequest (tr_ptr r) s)
      in if \<not> HaveSentResponse r then OnAsynchRequestComplete l r s' else s')"
  using assms mark_removed(2) [of l True r s]
  by (simp add: CompleteRequest_def head_request state_defs Let_def RT_Complete_def)

lemma CompleteRequest_gone:
  assumes "ln_requests s = r # rs" and "tr_state r = STATE_WAITING" and "l \<noteq> 0"
  shows "tr_ptr r \<notin> tr_ptr ` set (ln_requests (snd (CompleteRequest (tr_ptr r) l True True s))) \<and>
     (\<not> HaveSentResponse r \<longrightarrow> AsyncCompletion (tr_requestId r) l \<in> set (ln_tapi (snd (CompleteRequest (tr_ptr r) l True True s))))"
proof -
  let ?s = "RemoveRequest (tr_ptr r) s" and ?s' = "RT_Failed RemoveCallAppearance r (RemoveRequest (tr_ptr r) s)"
  have "tr_ptr r \<notin> tr_ptr ` set (ln_requests ?s)" by (auto simp: RemoveRequest_def)
  moreover have "shrinks ?s ?s'" by (rule shrink.RT_Failed_keep [OF shrink.RemoveCallAppearance_keep])
  ultimately have "tr_ptr r \<notin> tr_ptr ` set (ln_requests ?s')" by (auto simp: shrinks_def)
  moreover have "ln_requests (OnAsynchRequestComplete l r ?s') = ln_requests ?s'"
    by (simp add: OnAsynchRequestComplete_def)
  ultimately show ?thesis unfolding CompleteRequest_failed [OF assms]
    by (auto simp: Let_def OnAsynchRequestComplete_def HaveSent_iff)
qed

lemma timer_expired:
  assumes "ln_requests s = r # rs" and "tr_state r = STATE_WAITING" and "request_expired r s"
    and "tr_command r \<in> {REQUEST_MAKECALL, REQUEST_DIAL, REQUEST_DROPCALL}"
  shows "OnTimer s = (case CompleteRequest (tr_ptr r) LINEERR_OPERATIONFAILED True True s of
     (next, s') \<Rightarrow> if next then start_requests s' else s')"
  using assms waiting_dispatch [OF assms(2,4), of s]
  by (simp add: OnTimer_def ReceiveData_def dispatch_first_def first_started_def check_timeout_def state_defs
      Let_def case_prod_beta)

text \<open>
  C17. No request waits for ever: when the timer finds the request at the head of the queue waiting and
  expired, the request leaves the queue; if TAPI has no answer to it yet it is told that the operation failed;
  and the next request is no longer behind it.
\<close>
theorem stale_request_failed:
  assumes "ln_requests s = r # rs" and "tr_state r = STATE_WAITING" and "request_expired r s"
    and "tr_command r \<in> {REQUEST_MAKECALL, REQUEST_DIAL, REQUEST_DROPCALL}"
  shows "tr_ptr r \<notin> tr_ptr ` set (ln_requests (OnTimer s)) \<and>
     (\<not> HaveSentResponse r \<longrightarrow> AsyncCompletion (tr_requestId r) LINEERR_OPERATIONFAILED \<in> set (ln_tapi (OnTimer s)))"
proof -
  let ?s = "snd (CompleteRequest (tr_ptr r) LINEERR_OPERATIONFAILED True True s)"
  have "shrinks ?s (OnTimer s)"
    unfolding timer_expired [OF assms] by (simp add: case_prod_beta shrink.start_requests_keep)
  with CompleteRequest_gone [OF assms(1,2), of LINEERR_OPERATIONFAILED] show ?thesis
    unfolding shrinks_def by (auto simp: subset_iff)
qed

lemma sample_waiting:
  "ln_requests sample_line1 = [hd (ln_requests sample_line1)]"
  "tr_state (hd (ln_requests sample_line1)) = STATE_WAITING" "request_expired (hd (ln_requests sample_line1)) sample_line1"
  "tr_command (hd (ln_requests sample_line1)) = REQUEST_MAKECALL"
  "\<not> HaveSentResponse (hd (ln_requests sample_line1))" "tr_requestId (hd (ln_requests sample_line1)) = 7"
  by code_simp+

theorem stale_request_failed_witness:
  "tr_ptr (hd (ln_requests sample_line1)) \<notin> tr_ptr ` set (ln_requests (OnTimer sample_line1)) \<and>
   AsyncCompletion 7 LINEERR_OPERATIONFAILED \<in> set (ln_tapi (OnTimer sample_line1))"
  using stale_request_failed [OF sample_waiting(1-3)] sample_waiting(4-6) by simp

section \<open>Calls without a request\<close>

text \<open>With nothing queued, the removal of a call changes this call only.\<close>

lemma upd_upd:
  "(\<And>c. tc_ptr (f c) = tc_ptr c) \<Longrightarrow> upd_call p g (upd_call p f s) = upd_call p (g \<circ> f) s"
  by (auto simp: upd_call_def)

lemma no_requests [simp]:
  "ln_requests s = [] \<Longrightarrow> FindRequest pc cmd s = None"
  "ln_requests s = [] \<Longrightarrow> RemovePendingRequests remove pc e b x s = s"
  by (simp_all add: FindRequest_def RemovePendingRequests_def)

lemma first_notify_empty: "ln_requests s = [] \<Longrightarrow>
    first_notify c p s = (if tc_initNotify c then s else upd_call p (\<lambda>c. c\<lparr>tc_initNotify := True\<rparr>) s)"
  by (simp add: first_notify_def)

text \<open>What is left of a call that TAPI has no handle for when it goes idle.\<close>

definition gone_call :: "tsp_call \<Rightarrow> tsp_call" where
  "gone_call c = c\<lparr>tc_initNotify := True, tc_state := LINECALLSTATE_IDLE, tc_mode := 0, tc_isDeleted := True,
     tc_callID := 0, tc_handle := False\<rparr>"

lemma removed_idle:
  assumes "get_call p s = Some c" "\<not> tc_isDeleted c" "tc_initNotify c" "tc_state c = LINECALLSTATE_IDLE" "tc_mode c = 0"
  shows "RemoveCallAppearance p s = upd_call p (\<lambda>c. c\<lparr>tc_isDeleted := True, tc_callID := 0, tc_handle := False\<rparr>) s"
proof -
  let ?s = "upd_call p (\<lambda>c. c\<lparr>tc_isDeleted := True\<rparr>) s"
  have "get_call p ?s = Some (c\<lparr>tc_isDeleted := True\<rparr>)" using assms(1) by (simp add: get_call_upd)
  with assms have "SetCallState_with (\<lambda>_ s. s) LINECALLSTATE_IDLE 0 False p ?s = ?s"
    by (simp add: SetCallState_with_def first_notify_def Let_def)
  with assms(1,2) show ?thesis by (simp add: RemoveCallAppearance_def SetCallID_def upd_upd comp_def)
qed

lemma upd_cong:
  assumes "line_wf s" and "get_call p s = Some c" and "f c = g c"
  shows "upd_call p f s = upd_call p g s"
proof -
  have "c' = c" if "c' \<in> set (ln_calls s)" "tc_ptr c' = p" for c'
    using that get_call_ptr [OF assms(2)] assms(1) unfolding line_wf_def distinct_map inj_on_def by auto
  with assms(3) show ?thesis unfolding upd_call_def by (auto intro!: arg_cong [where f = "\<lambda>x. s\<lparr>ln_calls := x\<rparr>"])
qed

lemma idle_removed:
  assumes "line_wf s" "ln_requests s = []" and "get_call p s = Some c" and "\<not> tc_handle c" "\<not> tc_isDeleted c"
    "tc_state c \<noteq> LINECALLSTATE_IDLE"
  shows "SetCallState LINECALLSTATE_IDLE 0 p s = upd_call p gone_call s"
proof -
  let ?s = "upd_call p (\<lambda>c. c\<lparr>tc_initNotify := True, tc_state := LINECALLSTATE_IDLE, tc_mode := 0\<rparr>) s"
  let ?c = "c\<lparr>tc_initNotify := True, tc_state := LINECALLSTATE_IDLE, tc_mode := 0\<rparr>"
  have g: "get_call p ?s = Some ?c" using assms(3) by (simp add: get_call_upd)
  have r: "RemoveCallAppearance p ?s = upd_call p gone_call s"
    using removed_idle [OF g] assms(4,5) by (simp add: upd_upd comp_def gone_call_def [abs_def])
  have q: "ln_requests ?s = []" using assms(2) by (simp add: upd_call_def)
  have f: "upd_call p (\<lambda>c. c\<lparr>tc_state := LINECALLSTATE_IDLE, tc_mode := 0\<rparr>) (first_notify c p s) = ?s"
  proof (cases "tc_initNotify c")
    case True
    then have "upd_call p (\<lambda>c. c\<lparr>tc_state := LINECALLSTATE_IDLE, tc_mode := 0\<rparr>) s = ?s"
      by (intro upd_cong [OF assms(1,3)]) (cases c, simp)
    with True assms(2) show ?thesis by (simp add: first_notify_empty)
  qed (use assms(2) in \<open>simp add: first_notify_empty upd_upd comp_def\<close>)
  show ?thesis
    using assms g r q f by (simp add: SetCallState_def SetCallState_with_def Let_def OnCallStatusChange_def
        NotifyCallStatusChanged_def get_call_upd gone_call_def)
qed

text \<open>A call as TAPI and the engine know it: its number, the id of the engine, its state.\<close>

definition shows_call :: "nat \<Rightarrow> dword \<Rightarrow> dword \<Rightarrow> tsp_line \<Rightarrow> bool" where
  "shows_call p i st s \<longleftrightarrow>
     (\<exists>c. get_call p s = Some c \<and> tc_callID c = i \<and> tc_state c = st \<and> \<not> tc_isDeleted c)"

lemma shows_upd:
  assumes "\<And>c. tc_ptr (f c) = tc_ptr c \<and> tc_callID (f c) = tc_callID c \<and> tc_state (f c) = tc_state c \<and>
     tc_isDeleted (f c) = tc_isDeleted c"
  shows "shows_call p i st (upd_call q f s) = shows_call p i st s"
  using assms by (auto simp: shows_call_def get_call_upd)

lemma shows_party_ids [simp]: "shows_call p i st (set_party_ids d q s) = shows_call p i st s"
  by (simp add: set_party_ids_def Let_def shows_upd)

lemma party_ids_simps [simp]:
  "ln_tapi (set_party_ids d q s) = ln_tapi s" "ln_requests (set_party_ids d q s) = ln_requests s"
  "ln_nextPtr (set_party_ids d q s) = ln_nextPtr s" "ln_open (set_party_ids d q s) = ln_open s"
  "ln_givesHandles (set_party_ids d q s) = ln_givesHandles s"
  by (simp_all add: set_party_ids_def Let_def upd_call_def)

lemma upd_open: "ln_open (upd_call p f s) = ln_open s"
  by (simp add: upd_call_def)

lemma find_last: "find P xs = None \<Longrightarrow> P x \<Longrightarrow> find P (xs @ [x]) = Some x"
  by (induction xs) (auto split: if_splits)

lemma first_state:
  assumes "ln_requests s = []" and "get_call p s = Some c" and "tc_handle c" "ln_open s" "tc_state c = LINECALLSTATE_UNKNOWN"
  shows "get_call p (SetCallState LINECALLSTATE_OFFERING m p s) =
      Some (c\<lparr>tc_initNotify := True, tc_state := LINECALLSTATE_OFFERING, tc_mode := m\<rparr>)"
    and "ln_tapi (SetCallState LINECALLSTATE_OFFERING m p s) = ln_tapi s @ [LineCallState p LINECALLSTATE_OFFERING m]"
proof -
  let ?s1 = "first_notify c p s"
  let ?s2 = "upd_call p (\<lambda>c. c\<lparr>tc_state := LINECALLSTATE_OFFERING, tc_mode := m\<rparr>) ?s1"
  have ptr: "tc_ptr c = p" using get_call_ptr [OF assms(2)] by simp
  have g1: "get_call p ?s1 = Some (c\<lparr>tc_initNotify := True\<rparr>)" and t: "ln_tapi ?s1 = ln_tapi s" "ln_open ?s1 = ln_open s"
    using assms(1,2) by (cases "tc_initNotify c"; cases c; simp add: first_notify_empty get_call_upd upd_open)+
  then have g2: "get_call p ?s2 = Some (c\<lparr>tc_initNotify := True, tc_state := LINECALLSTATE_OFFERING, tc_mode := m\<rparr>)"
    by (simp add: get_call_upd)
  have e: "SetCallState LINECALLSTATE_OFFERING m p s = NotifyCallStatusChanged p ?s2"
    using assms(2,5) by (simp add: SetCallState_def SetCallState_with_def OnCallStatusChange_def Let_def linecallstate_defs)
  have o: "ln_open ?s2" using t(2) assms(4) by (simp add: upd_open)
  show "get_call p (SetCallState LINECALLSTATE_OFFERING m p s) =
      Some (c\<lparr>tc_initNotify := True, tc_state := LINECALLSTATE_OFFERING, tc_mode := m\<rparr>)"
    and "ln_tapi (SetCallState LINECALLSTATE_OFFERING m p s) = ln_tapi s @ [LineCallState p LINECALLSTATE_OFFERING m]"
    unfolding e using g2 assms(3) o t(1) by (simp_all add: NotifyCallStatusChanged_def Send_TAPI_Event_def)
qed

lemma no_request_event: "ln_requests s = [] \<Longrightarrow> ReceiveData (Some ev) s = UnsolicitedEvent ev s"
  by (simp add: ReceiveData_def dispatch_first_def)

lemma new_call_rings:
  assumes "line_wf s" "ln_requests s = []" "ln_open s" "ln_givesHandles s"
    and "FindCallByCallID (event_CallId d) s = None" and "m_callType d = CT_IncomingCall"
  shows "shows_call (ln_nextPtr s) (event_CallId d) LINECALLSTATE_OFFERING (snd (UnsolicitedCallEvent st d s)) \<and>
     ln_tapi (snd (UnsolicitedCallEvent st d s)) = ln_tapi s @
       [LineNewCall (ln_nextPtr s), LineCallState (ln_nextPtr s) LINECALLSTATE_OFFERING LINEOFFERINGMODE_INACTIVE]"
proof -
  let ?p = "ln_nextPtr s"
  define s1 where "s1 = SetCallID (event_CallId d) ?p (snd (CreateCallAppearance s))"
  let ?c = "(new_tsp_call ?p True)\<lparr>tc_callID := event_CallId d\<rparr>"
  have "find (\<lambda>c. tc_ptr c = ?p) (ln_calls s) = None"
    using assms(1) by (auto simp: line_wf_def find_None_iff)
  then have "find (\<lambda>c. tc_ptr c = ?p) (ln_calls s @ [c]) = Some c" if "tc_ptr c = ?p" for c
    using that by (simp add: find_last)
  then have g: "get_call ?p s1 = Some ?c"
    using assms(3,4) by (simp add: s1_def SetCallID_def get_call_upd CreateCallAppearance_def Let_def Send_TAPI_Event_def)
      (simp add: get_call_def new_tsp_call_def)
  have s1: "ln_requests s1 = []" "ln_open s1" "ln_tapi s1 = ln_tapi s @ [LineNewCall ?p]"
    using assms(2,3) by (auto simp: s1_def SetCallID_def CreateCallAppearance_def Let_def Send_TAPI_Event_def upd_call_def tell_def)
  have h: "tc_handle ?c" "tc_state ?c = LINECALLSTATE_UNKNOWN" by (simp_all add: new_tsp_call_def)
  note f = first_state [OF s1(1) g h(1) s1(2) h(2)]
  let ?s2 = "SetCallState LINECALLSTATE_OFFERING LINEOFFERINGMODE_INACTIVE ?p s1"
  have c: "CreateCallAppearance s = (?p, snd (CreateCallAppearance s))" by (simp add: CreateCallAppearance_def Let_def)
  have "shows_call ?p (event_CallId d) LINECALLSTATE_OFFERING ?s2"
    using f(1) by (simp add: shows_call_def new_tsp_call_def)
  then show ?thesis
    using assms(5,6) f(2) s1(3) unfolding UnsolicitedCallEvent_def OnNewCallDetected_def
    by (subst (1 2) c) (simp add: Let_def shows_upd s1_def [symmetric])
qed

section \<open>An end reported twice\<close>

text \<open>The line takes the events the engine collected, one after the other.\<close>

definition deliver_calls :: "(call_state \<times> call_data \<times> change_reason) list \<Rightarrow> tsp_line \<Rightarrow> tsp_line" where
  "deliver_calls evs s = foldl (\<lambda>s (st, d, r). snd (ReceiveData (Some (CallEvent st d r)) s)) s evs"

lemma incoming_retracted:
  assumes "sm_handlers m = [h]" "ch_kind h = IncomingCall" "sm_notifys m = [()]" "w_isTapi w"
    and "getRetractCallEvent e" "getActiveCallEvent e = None"
    and "CheckDroppedCall (ch_data h) (xe_id e) (ch_branches h) = (True, d, bs)"
  shows "\<exists>m' w'. SignalEvent call_ops (Some e) True m w = Some (True, m', w') \<and> sm_handlers m' = [] \<and>
     w_lstCallEvents w' = w_lstCallEvents w @ [(CS_Dropped, d, IsYourEventHandled), (CS_Dropped, d, RemovedHandler)]"
proof -
  have i: "HasId (xe_id e) (ch_branches h)" using assms(7) by (simp add: CheckDroppedCall_def split: if_splits)
  define h1 where "h1 = (set_data d h)\<lparr>ch_branches := bs\<rparr>"
  define h2 where "h2 = h1\<lparr>ch_item := (ch_item h1)\<lparr>si_state := CS_Dropped, si_event := Some e, si_last := w_tick w\<rparr>\<rparr>"
  define w1 where "w1 = delete_event_opt (ch_event h1) w"
  have y: "Call_IsYourEvent h e w = Some (True, h2, w1)"
    using assms(2,5,6,7) i by (simp add: Call_IsYourEvent.simps Incoming_IsYourEvent_def assignNewState_eq Let_def
        h1_def h2_def w1_def)
  have h2: "ch_state h2 = CS_Dropped" "ch_data h2 = d" "ch_kind h2 = IncomingCall"
    using assms(2) by (simp_all add: h2_def h1_def set_data_def)
  have x: "Call_IsStillExist h2 w' = (False, h2, w')" for w'
    using h2(1,3) by (simp add: Call_IsStillExist_table CheckStateTimeout_def IsState_def)
  have w1: "w_isTapi w1" "w_lstCallEvents w1 = w_lstCallEvents w"
    using assms(4) by (simp_all add: w1_def delete_event_opt_def delete_event_def split: option.split)
  show ?thesis
    using y assms(1,3) x h2 w1
    by (simp add: SignalEvent_def call_ops_def checkStateHandlersExist_def OnStateChange_def Let_def CallStateChange_def
        delete_call_handler_def delete_event_opt_def delete_event_def split: option.split)
qed

lemma idle_event:
  assumes "line_wf s" "ln_requests s = []" "get_call p s = Some c" "\<not> tc_handle c" "\<not> tc_isDeleted c"
    "tc_state c \<noteq> LINECALLSTATE_IDLE" "tc_callID c = event_CallId d"
    and "\<And>c'. c' \<in> set (ln_calls s) \<Longrightarrow> tc_callID c' = event_CallId d \<Longrightarrow> \<not> tc_isDeleted c' \<Longrightarrow> tc_ptr c' = p"
  shows "snd (UnsolicitedCallEvent CS_Dropped d s) = set_party_ids d p (upd_call p gone_call s)"
proof -
  have "FindCallByCallID (event_CallId d) s = Some p"
    using get_call_ptr [OF assms(3)] assms(5,7,8) unfolding FindCallByCallID_def
    by (cases "find (\<lambda>c. \<not> tc_isDeleted c \<and> tc_callID c = event_CallId d) (ln_calls s)")
      (auto simp: find_None_iff dest: find_SomeD)
  moreover have "GetTapiCallState CS_Dropped d = LINECALLSTATE_IDLE"
    by (simp add: GetTapiCallState_def Let_def linecallstate_defs)
  ultimately show ?thesis
    using assms(3,6) idle_removed [OF assms(1-6)]
    by (simp add: UnsolicitedCallEvent_def Let_def eq_commute [of LINECALLSTATE_IDLE])
qed

definition no_live_call :: "dword \<Rightarrow> tsp_line \<Rightarrow> bool" where
  "no_live_call i s \<longleftrightarrow> list_all (\<lambda>c. tc_callID c = i \<longrightarrow> tc_isDeleted c) (ln_calls s)"

lemma no_live_upd:
  assumes "\<And>c. tc_callID (f c) = tc_callID c" "\<And>c. tc_isDeleted (f c) = tc_isDeleted c"
  shows "no_live_call i (upd_call p f s) = no_live_call i s"
proof -
  have "(\<lambda>c. tc_callID c = i \<longrightarrow> tc_isDeleted c) \<circ> (\<lambda>c. if tc_ptr c = p then f c else c) =
      (\<lambda>c. tc_callID c = i \<longrightarrow> tc_isDeleted c)"
    by (rule ext) (simp add: assms)
  then show ?thesis by (simp add: no_live_call_def upd_call_def list.pred_map)
qed

lemma find_deleted:
  assumes "\<And>c. c \<in> set (ln_calls s) \<Longrightarrow> tc_callID c = i \<Longrightarrow> \<not> tc_isDeleted c \<Longrightarrow> tc_ptr c = p"
  shows "FindCallByCallID i (set_party_ids d p (upd_call p gone_call s)) = None"
proof -
  have "no_live_call i (upd_call p gone_call s)"
    using assms by (auto simp: no_live_call_def upd_call_def gone_call_def list_all_iff)
  then have "no_live_call i (set_party_ids d p (upd_call p gone_call s))"
    by (simp add: set_party_ids_def Let_def no_live_upd)
  then show ?thesis by (auto simp: no_live_call_def FindCallByCallID_def find_None_iff list_all_iff)
qed

text \<open>
  C27. A call that ends can ring again. The engine reports the end of an incoming call twice, when the
  handler takes the retraction and when the handler is removed. If TAPI has released its handle
  before the call ends, the line removes the call at the first report, does not find it
  at the second and takes it for a new incoming call: TAPI is given a new call, in state
  offering, with the id of the call that is gone, although the engine has no call left.
\<close>
theorem ended_call_rings_again:
  assumes "sm_handlers m = [h]" "ch_kind h = IncomingCall" "sm_notifys m = [()]" "w_isTapi w"
    "getRetractCallEvent e" "getActiveCallEvent e = None" "w_lstCallEvents w = []"
    "CheckDroppedCall (ch_data h) (xe_id e) (ch_branches h) = (True, d, bs)" "m_callType d = CT_IncomingCall"
    and "line_wf s" "ln_requests s = []" "ln_open s" "ln_givesHandles s"
    "get_call p s = Some c" "\<not> tc_handle c" "\<not> tc_isDeleted c" "tc_state c \<noteq> LINECALLSTATE_IDLE" "tc_callID c = event_CallId d"
    "\<forall>c' \<in> set (ln_calls s). tc_callID c' = event_CallId d \<and> \<not> tc_isDeleted c' \<longrightarrow> tc_ptr c' = p"
  shows "\<exists>m' w'. SignalEvent call_ops (Some e) True m w = Some (True, m', w') \<and> sm_handlers m' = [] \<and>
     (let s' = deliver_calls (w_lstCallEvents w') s; n = ln_nextPtr s in
        shows_call n (event_CallId d) LINECALLSTATE_OFFERING s' \<and>
        ln_tapi s' = ln_tapi s @ [LineNewCall n, LineCallState n LINECALLSTATE_OFFERING LINEOFFERINGMODE_INACTIVE])"
proof -
  let ?s1 = "set_party_ids d p (upd_call p gone_call s)"
  have u: "tc_ptr c' = p" if "c' \<in> set (ln_calls s)" "tc_callID c' = event_CallId d" "\<not> tc_isDeleted c'" for c'
    using assms(19) that by blast
  have one: "snd (UnsolicitedCallEvent CS_Dropped d s) = ?s1"
    using idle_event [OF assms(10,11,14-18) u] by blast
  have "line_wf (upd_call p gone_call s)" by (simp add: wf_upd_call assms(10) gone_call_def)
  then have wf: "line_wf ?s1" by (simp add: set_party_ids_def Let_def wf_upd_call)
  have s1: "ln_requests ?s1 = []" "ln_open ?s1" "ln_givesHandles ?s1" "ln_nextPtr ?s1 = ln_nextPtr s" "ln_tapi ?s1 = ln_tapi s"
    using assms(11-13) by (simp_all add: upd_call_def)
  note two = new_call_rings [OF wf s1(1-3) find_deleted assms(9), of CS_Dropped, unfolded s1(4,5)]
  from incoming_retracted [OF assms(1-6,8)] obtain m' w' where r: "SignalEvent call_ops (Some e) True m w = Some (True, m', w')"
    "sm_handlers m' = []" "w_lstCallEvents w' = [(CS_Dropped, d, IsYourEventHandled), (CS_Dropped, d, RemovedHandler)]"
    using assms(7) by auto
  have "deliver_calls (w_lstCallEvents w') s = snd (UnsolicitedCallEvent CS_Dropped d ?s1)"
    using assms(11) s1(1) one r(3) by (simp add: deliver_calls_def no_request_event UnsolicitedEvent_def)
  with r two u show ?thesis by (auto simp: Let_def)
qed

definition sample_ring :: tsp_line where
  "sample_ring = snd (the (TSPI_lineCloseCall 0 (deliver_calls
     [(CS_Offering, ch_data (hd (sm_handlers sample_machine)), NewHandlerCreated)] sample_line0)))"

lemma sample_ring_facts:
  "line_wf sample_ring" "ln_requests sample_ring = []" "ln_open sample_ring" "ln_givesHandles sample_ring"
  "get_call 0 sample_ring = Some (hd (ln_calls sample_ring))" "\<not> tc_handle (hd (ln_calls sample_ring))"
  "\<not> tc_isDeleted (hd (ln_calls sample_ring))" "tc_state (hd (ln_calls sample_ring)) \<noteq> LINECALLSTATE_IDLE"
  "tc_callID (hd (ln_calls sample_ring)) = event_CallId (ch_data (hd (sm_handlers sample_machine)))"
  "\<forall>c' \<in> set (ln_calls sample_ring). tc_callID c' = event_CallId (ch_data (hd (sm_handlers sample_machine))) \<and>
     \<not> tc_isDeleted c' \<longrightarrow> tc_ptr c' = 0"
  "ln_nextPtr sample_ring = 1"
  by code_simp+

theorem ended_call_rings_again_witness:
  "\<exists>m' w'. SignalEvent call_ops (Some (sample_retract_event ''call1'')) True (sample_machine\<lparr>sm_notifys := [()]\<rparr>) sample_world =
      Some (True, m', w') \<and> sm_handlers m' = [] \<and>
      shows_call 1 1 LINECALLSTATE_OFFERING (deliver_calls (w_lstCallEvents w') sample_ring)"
proof -
  let ?h = "hd (sm_handlers sample_machine)" and ?m = "sample_machine\<lparr>sm_notifys := [()]\<rparr>"
  have h: "sm_handlers ?m = [?h]" "sm_notifys ?m = [()]" by (simp_all add: sample_handler)
  have r: "ch_kind ?h = IncomingCall" "w_isTapi sample_world" "getRetractCallEvent (sample_retract_event ''call1'')"
    "getActiveCallEvent (sample_retract_event ''call1'') = None" "w_lstCallEvents sample_world = []"
    "CheckDroppedCall (ch_data ?h) (xe_id (sample_retract_event ''call1'')) (ch_branches ?h) = (True, ch_data ?h, [])"
    "m_callType (ch_data ?h) = CT_IncomingCall" "event_CallId (ch_data ?h) = 1"
    by code_simp+
  from ended_call_rings_again [OF h(1) r(1) h(2) r(2-7) sample_ring_facts(1-10)] r(8) sample_ring_facts(11)
  show ?thesis by (auto simp: Let_def)
qed

section \<open>A call that comes too late\<close>

lemma removed_silently:
  assumes "line_wf s" "ln_requests s = []" "get_call p s = Some c" "\<not> tc_isDeleted c" "tc_state c \<noteq> LINECALLSTATE_IDLE"
    "\<not> tc_initNotify c"
  shows "RemoveCallAppearance p s = upd_call p gone_call s"
proof -
  let ?s1 = "upd_call p (\<lambda>c. c\<lparr>tc_isDeleted := True\<rparr>) s" and ?c = "c\<lparr>tc_isDeleted := True\<rparr>"
  have g: "get_call p ?s1 = Some ?c" and q: "ln_requests ?s1 = []" using assms(2,3) by (simp_all add: get_call_upd)
  have "SetCallState_with (\<lambda>_ s. s) LINECALLSTATE_IDLE 0 False p ?s1 =
      upd_call p (\<lambda>c. c\<lparr>tc_isDeleted := True, tc_initNotify := True, tc_state := LINECALLSTATE_IDLE, tc_mode := 0\<rparr>) s"
    using g q assms(5,6)
    by (auto simp: SetCallState_with_def Let_def first_notify_empty upd_upd comp_def OnCallStatusChange_def
        split: option.split)
  moreover have "(\<lambda>c. c\<lparr>tc_isDeleted := True, tc_initNotify := True, tc_state := LINECALLSTATE_IDLE, tc_mode := 0,
      tc_callID := 0, tc_handle := False\<rparr>) = gone_call"
    by (rule ext, rename_tac x, case_tac x) (simp add: gone_call_def)
  ultimately show ?thesis using assms(3,4)
    by (simp add: RemoveCallAppearance_def SetCallID_def upd_upd comp_def)
qed

lemma CompleteRequest_next: "fst (CompleteRequest p l t rm s) \<Longrightarrow> ln_requests (snd (CompleteRequest p l t rm s)) \<noteq> []"
  by (cases "get_request p s"; cases t) (simp_all add: CompleteRequest_def Let_def split: if_split_asm)

lemma makecall_failed:
  assumes "line_wf s" "ln_requests s = [r]" "tr_state r = STATE_WAITING" "request_expired r s"
    and "tr_command r = REQUEST_MAKECALL" "get_call (tr_call r) s = Some c" "\<not> tc_isDeleted c"
    "tc_state c \<noteq> LINECALLSTATE_IDLE" "\<not> tc_initNotify c"
  shows "OnTimer s = (let s' = upd_call (tr_call r) gone_call (s\<lparr>ln_requests := []\<rparr>) in
     if \<not> HaveSentResponse r then OnAsynchRequestComplete LINEERR_OPERATIONFAILED r s' else s')"
proof -
  let ?s = "RemoveRequest (tr_ptr r) s"
  have s: "?s = s\<lparr>ln_requests := []\<rparr>" using assms(2) by (simp add: RemoveRequest_def)
  have w: "line_wf ?s" by (rule wf_remove [OF assms(1)])
  have g: "get_call (tr_call r) ?s = Some c" "ln_requests ?s = []" using assms(6) by (simp_all add: s)
  have f: "RT_Failed RemoveCallAppearance r ?s = upd_call (tr_call r) gone_call ?s"
    using removed_silently [OF w g(2,1) assms(7-9)] g(1) assms(5,9) by (simp add: RT_Failed_def)
  have e: "snd (CompleteRequest (tr_ptr r) LINEERR_OPERATIONFAILED True True s) =
     (let s' = upd_call (tr_call r) gone_call ?s in
      if \<not> HaveSentResponse r then OnAsynchRequestComplete LINEERR_OPERATIONFAILED r s' else s')"
    using CompleteRequest_failed [of s r "[]" LINEERR_OPERATIONFAILED] assms(2,3) by (simp add: f Let_def)
  have l: "ln_requests (snd (CompleteRequest (tr_ptr r) LINEERR_OPERATIONFAILED True True s)) = []"
    using g(2) unfolding e by (simp add: Let_def OnAsynchRequestComplete_def)
  then have n: "\<not> fst (CompleteRequest (tr_ptr r) LINEERR_OPERATIONFAILED True True s)"
    using CompleteRequest_next by blast
  have "OnTimer s = snd (CompleteRequest (tr_ptr r) LINEERR_OPERATIONFAILED True True s)"
    using timer_expired [OF assms(2-4)] assms(5) n by (simp add: case_prod_beta)
  then show ?thesis unfolding e s .
qed

text \<open>
  C26. A call that comes too late is lost to TAPI. When a request to make a call times out before the first event
  of its call, TAPI is told that it failed and the call appearance is removed, but nothing is sent to
  the engine, which goes on dialling: the device is unchanged. When the call then is
  dialled, answered or connected, the line ignores every event of it and stays as it is, so TAPI cannot see or drop it.
\<close>
theorem timed_out_call_lost:
  assumes "line_wf s" "ln_requests s = [r]" "tr_state r = STATE_WAITING" "request_expired r s"
    and "tr_command r = REQUEST_MAKECALL" "\<not> HaveSentResponse r"
    and "get_call (tr_call r) s = Some c" "\<not> tc_isDeleted c" "tc_state c \<noteq> LINECALLSTATE_IDLE" "\<not> tc_initNotify c"
    and "\<forall>c' \<in> set (ln_calls s). tc_callID c' = tc_callID c \<and> \<not> tc_isDeleted c' \<longrightarrow> tc_ptr c' = tr_call r"
  shows "ln_device (OnTimer s) = ln_device s \<and>
     ln_tapi (OnTimer s) = ln_tapi s @ [AsyncCompletion (tr_requestId r) LINEERR_OPERATIONFAILED] \<and>
     (\<forall>st d reason. event_CallId d = tc_callID c \<and> m_callType d = CT_MakeCall \<longrightarrow>
        snd (ReceiveData (Some (CallEvent st d reason)) (OnTimer s)) = OnTimer s)"
proof -
  let ?s = "upd_call (tr_call r) gone_call (s\<lparr>ln_requests := []\<rparr>)"
  have t: "OnTimer s = tell (AsyncCompletion (tr_requestId r) LINEERR_OPERATIONFAILED) ?s"
    using makecall_failed [OF assms(1-5,7-10)] assms(6)
    by (auto simp: OnAsynchRequestComplete_def Let_def HaveSentResponse_def split: if_splits)
  have "no_live_call (tc_callID c) ?s"
    using assms(11) by (auto simp: no_live_call_def upd_call_def gone_call_def list_all_iff)
  then have n: "FindCallByCallID (tc_callID c) (OnTimer s) = None"
    unfolding t by (auto simp: no_live_call_def FindCallByCallID_def find_None_iff list_all_iff)
  have q: "ln_requests (OnTimer s) = []" unfolding t by simp
  have "snd (UnsolicitedCallEvent st d (OnTimer s)) = OnTimer s"
    if "event_CallId d = tc_callID c" "m_callType d = CT_MakeCall" for st d
    using n that by (simp add: UnsolicitedCallEvent_def)
  with q have "snd (ReceiveData (Some (CallEvent st d reason)) (OnTimer s)) = OnTimer s"
    if "event_CallId d = tc_callID c" "m_callType d = CT_MakeCall" for st d reason
    using that by (simp add: no_request_event UnsolicitedEvent_def)
  then show ?thesis by (simp add: t)
qed

lemma sample_requested:
  "line_wf sample_line1" "get_call (tr_call (hd (ln_requests sample_line1))) sample_line1 = Some (hd (ln_calls sample_line1))"
  "\<not> tc_isDeleted (hd (ln_calls sample_line1))" "tc_state (hd (ln_calls sample_line1)) \<noteq> LINECALLSTATE_IDLE"
  "\<not> tc_initNotify (hd (ln_calls sample_line1))"
  "\<forall>c' \<in> set (ln_calls sample_line1). tc_callID c' = tc_callID (hd (ln_calls sample_line1)) \<and> \<not> tc_isDeleted c' \<longrightarrow>
     tc_ptr c' = tr_call (hd (ln_requests sample_line1))"
  by code_simp+

theorem timed_out_call_lost_witness:
  "ln_device (OnTimer sample_line1) = ln_device sample_line1 \<and>
   ln_tapi (OnTimer sample_line1) = ln_tapi sample_line1 @ [AsyncCompletion 7 LINEERR_OPERATIONFAILED]"
  using timed_out_call_lost [OF sample_requested(1) sample_waiting(1-5) sample_requested(2-6)] sample_waiting(6) by simp

end
