(* ===== verification/Pool.thy ===== *)
theory Pool
  imports OnSip_Prelude
begin

text \<open>
  The pool of worker threads that hands the events of a device to its connections
  (\<open>TspLib3/Include/PoolMgr.h\<close>): \<open>CThreadPoolMgr\<close> with the default \<open>TPM_CanRunEvent\<close>. The threads
  are positions in the code between two actions on shared state; a step moves one thread. What a
  critical section does is one step, the signals of the auto-reset event and
  the counter of running threads are steps of their own. Handles, traces and memory are left out.
\<close>

section \<open>State\<close>

record ('k, 'r) pool_request =
  pq_key :: 'k
  pq_req :: 'r
  pq_conn :: nat

text \<open>Where a worker is: in \<open>GetNextAvailableRequest\<close> up to \<open>AtScan\<close>, then in \<open>Runner\<close>.\<close>

datatype 'q worker_at =
  AtCheck | AtSignal | AtWait | AtScan | AtRun 'q | AtReceive 'q | AtRelease 'q | AtLeave | AtExit

text \<open>Where a caller of \<open>Add\<close> is after it queued its request, with the length of the queue it saw.\<close>

datatype adder_at = Spawning nat | Signalling nat

record ('k, 'r) pool =
  pm_lstRequests :: "('k, 'r) pool_request list"
  pm_mapRunning :: "'k \<Rightarrow> int option"
  pm_evtRequest :: bool
  pm_iWorkerThreads :: int
  pm_iMaxThreadCount :: int
  pm_lRunningThreads :: int
  pm_workers :: "('k, 'r) pool_request worker_at list"
  pm_adders :: "adder_at list"
  pm_shutdown :: bool
  pm_deleted :: "'r list"

definition CreationThreshold :: nat where "CreationThreshold = 2"
definition PM_THREADS_PER_PROCESSOR :: int where "PM_THREADS_PER_PROCESSOR = 20"

text \<open>
  The thread limit of the constructor. For an argument other than 0 the member is never
  assigned: it keeps whatever value the memory held.
\<close>

definition max_thread_count :: "int \<Rightarrow> int \<Rightarrow> int \<Rightarrow> int \<Rightarrow> int" where
  "max_thread_count iMaxThreadCount totalPhys processors unassigned =
     (if iMaxThreadCount = 0 then
        let m = totalPhys div (1024 * 1024) in
        if 0 < processors then min (processors * PM_THREADS_PER_PROCESSOR) m else m
      else unassigned)"

definition new_pool :: "int \<Rightarrow> ('k, 'r) pool" where
  "new_pool maxThreads = \<lparr>pm_lstRequests = [], pm_mapRunning = Map.empty, pm_evtRequest = False,
     pm_iWorkerThreads = 0, pm_iMaxThreadCount = maxThreads, pm_lRunningThreads = 0, pm_workers = [],
     pm_adders = [], pm_shutdown = False, pm_deleted = []\<rparr>"

section \<open>Operations\<close>

definition TPM_CanRunEvent :: "bool \<Rightarrow> bool" where
  "TPM_CanRunEvent fSynchKeyIsLocked \<longleftrightarrow> fSynchKeyIsLocked = False"

definition CheckForThreadCreate :: "nat \<Rightarrow> ('k, 'r) pool \<Rightarrow> bool" where
  "CheckForThreadCreate nQueued s \<longleftrightarrow>
     pm_iWorkerThreads s = 0 \<or>
     (CreationThreshold < nQueued \<and> pm_iWorkerThreads s \<le> pm_lRunningThreads s + 1) \<and>
     pm_iWorkerThreads s < pm_iMaxThreadCount s"

definition SpawnWorkerThread :: "bool \<Rightarrow> ('k, 'r) pool \<Rightarrow> ('k, 'r) pool" where
  "SpawnWorkerThread created s =
     (if created then s\<lparr>pm_workers := pm_workers s @ [AtCheck], pm_iWorkerThreads := pm_iWorkerThreads s + 1\<rparr> else s)"

text \<open>The three parts of \<open>Add\<close>.\<close>

definition Add_queue :: "('k, 'r) pool_request \<Rightarrow> ('k, 'r) pool \<Rightarrow> ('k, 'r) pool" where
  "Add_queue q s = s\<lparr>pm_lstRequests := pm_lstRequests s @ [q],
     pm_adders := pm_adders s @ [Spawning (length (pm_lstRequests s) + 1)]\<rparr>"

definition Add_spawn :: "bool \<Rightarrow> nat \<Rightarrow> ('k, 'r) pool \<Rightarrow> ('k, 'r) pool" where
  "Add_spawn created iSize s = (if CheckForThreadCreate iSize s then SpawnWorkerThread created s else s)"

definition Add_signal :: "nat \<Rightarrow> ('k, 'r) pool \<Rightarrow> ('k, 'r) pool" where
  "Add_signal iSize s = (if 0 < iSize then s\<lparr>pm_evtRequest := True\<rparr> else s)"

text \<open>The search of \<open>GetNextAvailableRequest\<close>: the first request that can run, and the others.\<close>

fun take_request ::
  "('k \<Rightarrow> int option) \<Rightarrow> ('k, 'r) pool_request list \<Rightarrow> (('k, 'r) pool_request \<times> ('k, 'r) pool_request list) option" where
  "take_request running [] = None"
| "take_request running (q # qs) =
     (if TPM_CanRunEvent (running (pq_key q) \<noteq> None) then Some (q, qs)
      else map_option (\<lambda>(p, rest). (p, q # rest)) (take_request running qs))"

definition assign_request ::
  "('k, 'r) pool \<Rightarrow> ('k, 'r) pool_request worker_at \<times> ('k, 'r) pool" where
  "assign_request s =
     (case take_request (pm_mapRunning s) (pm_lstRequests s) of
        None \<Rightarrow> (AtWait, s)
      | Some (q, rest) \<Rightarrow>
          (AtRun q, s\<lparr>pm_mapRunning := (pm_mapRunning s)(pq_key q \<mapsto>
               (case pm_mapRunning s (pq_key q) of Some n \<Rightarrow> n + 1 | None \<Rightarrow> 1)),
             pm_lstRequests := rest, pm_evtRequest := (if rest \<noteq> [] then True else pm_evtRequest s)\<rparr>))"

definition release_key :: "'k \<Rightarrow> ('k, 'r) pool \<Rightarrow> ('k, 'r) pool" where
  "release_key k s =
     (case pm_mapRunning s k of
        None \<Rightarrow> s
      | Some n \<Rightarrow> s\<lparr>pm_mapRunning := (pm_mapRunning s)(k := (if n = 1 then None else Some (n - 1)))\<rparr>)"

text \<open>
  One step of a worker in \<open>Runner\<close>; \<^const>\<open>None\<close> when it waits for the event or has ended.
  The flag tells whether \<open>ReceiveData\<close> threw a \<open>std::exception\<close>: the event is then not deleted.
\<close>

fun Runner_step ::
  "bool \<Rightarrow> ('k, 'r) pool_request worker_at \<Rightarrow> ('k, 'r) pool \<Rightarrow>
     (('k, 'r) pool_request worker_at \<times> ('k, 'r) pool) option" where
  "Runner_step threw AtCheck s = Some (if pm_shutdown s then AtExit else AtSignal, s)"
| "Runner_step threw AtSignal s =
     Some (AtWait, if pm_lstRequests s \<noteq> [] then s\<lparr>pm_evtRequest := True\<rparr> else s)"
| "Runner_step threw AtWait s =
     (if pm_shutdown s then Some (AtExit, s)
      else if pm_evtRequest s then Some (AtScan, s\<lparr>pm_evtRequest := False\<rparr>) else None)"
| "Runner_step threw AtScan s = Some (assign_request s)"
| "Runner_step threw (AtRun q) s = Some (AtReceive q, s\<lparr>pm_lRunningThreads := pm_lRunningThreads s + 1\<rparr>)"
| "Runner_step threw (AtReceive q) s =
     Some (AtRelease q, if threw then s else s\<lparr>pm_deleted := pm_deleted s @ [pq_req q]\<rparr>)"
| "Runner_step threw (AtRelease q) s = Some (AtLeave, release_key (pq_key q) s)"
| "Runner_step threw AtLeave s = Some (AtCheck, s\<lparr>pm_lRunningThreads := pm_lRunningThreads s - 1\<rparr>)"
| "Runner_step threw AtExit s = None"

section \<open>Histories\<close>

datatype ('k, 'r) pool_act = Added "('k, 'r) pool_request" | Received "('k, 'r) pool_request" | Shutdown | Internal

definition worker_act :: "('k, 'r) pool_request worker_at \<Rightarrow> ('k, 'r) pool_act" where
  "worker_act w = (case w of AtReceive q \<Rightarrow> Received q | _ \<Rightarrow> Internal)"

inductive pool_step :: "('k, 'r) pool \<Rightarrow> ('k, 'r) pool_act \<Rightarrow> ('k, 'r) pool \<Rightarrow> bool" where
  add: "pool_step s (Added q) (Add_queue q s)"
| spawn: "pm_adders s = as @ Spawning n # bs \<Longrightarrow>
    pool_step s Internal ((Add_spawn created n s)\<lparr>pm_adders := as @ Signalling n # bs\<rparr>)"
| signal: "pm_adders s = as @ Signalling n # bs \<Longrightarrow>
    pool_step s Internal ((Add_signal n s)\<lparr>pm_adders := as @ bs\<rparr>)"
| worker: "pm_workers s = as @ w # bs \<Longrightarrow> Runner_step threw w s = Some (w', s') \<Longrightarrow>
    pool_step s (worker_act w) (s'\<lparr>pm_workers := as @ w' # bs\<rparr>)"
| shutdown: "pool_step s Shutdown (s\<lparr>pm_shutdown := True\<rparr>)"

inductive pool_steps :: "('k, 'r) pool \<Rightarrow> ('k, 'r) pool_act list \<Rightarrow> ('k, 'r) pool \<Rightarrow> bool" where
  none: "pool_steps s [] s"
| step: "pool_steps s acts s' \<Longrightarrow> pool_step s' a s'' \<Longrightarrow> pool_steps s (acts @ [a]) s''"

definition pool_run :: "('k, 'r) pool_act list \<Rightarrow> ('k, 'r) pool \<Rightarrow> bool" where
  "pool_run acts s \<longleftrightarrow> (\<exists>m. pool_steps (new_pool m) acts s)"

text \<open>The requests with a key, in the order they were added, and in the order \<open>ReceiveData\<close> got them.\<close>

fun added_of :: "'k \<Rightarrow> ('k, 'r) pool_act \<Rightarrow> ('k, 'r) pool_request list" where
  "added_of k (Added q) = (if pq_key q = k then [q] else [])"
| "added_of k _ = []"

fun received_of :: "'k \<Rightarrow> ('k, 'r) pool_act \<Rightarrow> ('k, 'r) pool_request list" where
  "received_of k (Received q) = (if pq_key q = k then [q] else [])"
| "received_of k _ = []"

definition added :: "'k \<Rightarrow> ('k, 'r) pool_act list \<Rightarrow> ('k, 'r) pool_request list" where
  "added k acts = concat (map (added_of k) acts)"

definition received :: "'k \<Rightarrow> ('k, 'r) pool_act list \<Rightarrow> ('k, 'r) pool_request list" where
  "received k acts = concat (map (received_of k) acts)"

section \<open>One worker per key\<close>

fun holds_key :: "'k \<Rightarrow> ('k, 'r) pool_request worker_at \<Rightarrow> bool" where
  "holds_key k (AtRun q) \<longleftrightarrow> pq_key q = k"
| "holds_key k (AtReceive q) \<longleftrightarrow> pq_key q = k"
| "holds_key k (AtRelease q) \<longleftrightarrow> pq_key q = k"
| "holds_key k _ \<longleftrightarrow> False"

text \<open>What a worker has taken and not yet passed on.\<close>

fun carries :: "'k \<Rightarrow> ('k, 'r) pool_request worker_at \<Rightarrow> ('k, 'r) pool_request list" where
  "carries k (AtRun q) = (if pq_key q = k then [q] else [])"
| "carries k (AtReceive q) = (if pq_key q = k then [q] else [])"
| "carries k _ = []"

definition holders :: "'k \<Rightarrow> ('k, 'r) pool \<Rightarrow> ('k, 'r) pool_request worker_at list" where
  "holders k s = filter (holds_key k) (pm_workers s)"

definition carried :: "'k \<Rightarrow> ('k, 'r) pool \<Rightarrow> ('k, 'r) pool_request list" where
  "carried k s = concat (map (carries k) (pm_workers s))"

definition queued_for :: "'k \<Rightarrow> ('k, 'r) pool \<Rightarrow> ('k, 'r) pool_request list" where
  "queued_for k s = filter (\<lambda>q. pq_key q = k) (pm_lstRequests s)"

lemma not_holding: "\<not> holds_key k w \<Longrightarrow> carries k w = []"
  by (cases w) simp_all

lemma holders_empty: "holders k s = [] \<Longrightarrow> carried k s = []"
  by (auto simp: holders_def carried_def filter_empty_conv not_holding)

definition keys_ok :: "('k, 'r) pool \<Rightarrow> bool" where
  "keys_ok s \<longleftrightarrow> (\<forall>k. length (holders k s) \<le> 1 \<and>
     pm_mapRunning s k = (if holders k s = [] then None else Some 1))"

text \<open>What the search takes is the first of its key, and its key is free.\<close>

lemma take_request_Some:
  "take_request f qs = Some (q, rest) \<Longrightarrow>
     \<exists>us vs. qs = us @ q # vs \<and> rest = us @ vs \<and> f (pq_key q) = None \<and> (\<forall>u \<in> set us. f (pq_key u) \<noteq> None)"
proof (induction qs arbitrary: rest)
  case (Cons p ps)
  show ?case
  proof (cases "f (pq_key p)")
    case None
    with Cons.prems show ?thesis by (intro exI [of _ "[]"] exI [of _ ps]) (auto simp: TPM_CanRunEvent_def)
  next
    case (Some n)
    with Cons.prems obtain rest' where r: "take_request f ps = Some (q, rest')" "rest = p # rest'"
      by (auto simp: TPM_CanRunEvent_def)
    from Cons.IH [OF r(1)] obtain us vs where "ps = us @ q # vs" "rest' = us @ vs" "f (pq_key q) = None"
      "\<forall>u \<in> set us. f (pq_key u) \<noteq> None" by blast
    with r(2) Some show ?thesis by (intro exI [of _ "p # us"] exI [of _ vs]) simp
  qed
qed simp

lemma take_request_None: "take_request f qs = None \<longleftrightarrow> (\<forall>q \<in> set qs. f (pq_key q) \<noteq> None)"
  by (induction qs) (auto simp: TPM_CanRunEvent_def)

text \<open>
  The invariant of the histories: one holder per key, the map counts it; the requests of a
  key are received in the order they were added, with the one under way and the queue behind them;
  and a queue that is not empty is looked at: the event is set, a caller is about to set it,
  or a worker is on its way.
\<close>

definition on_its_way :: "'q worker_at \<Rightarrow> bool" where
  "on_its_way w \<longleftrightarrow> w \<noteq> AtWait \<and> w \<noteq> AtExit"

definition awake :: "('k, 'r) pool \<Rightarrow> bool" where
  "awake s \<longleftrightarrow> pm_evtRequest s \<or> pm_adders s \<noteq> [] \<or> (\<exists>w \<in> set (pm_workers s). on_its_way w)"

fun adder_size :: "adder_at \<Rightarrow> nat" where
  "adder_size (Spawning n) = n"
| "adder_size (Signalling n) = n"

definition pool_inv :: "('k, 'r) pool_act list \<Rightarrow> ('k, 'r) pool \<Rightarrow> bool" where
  "pool_inv acts s \<longleftrightarrow>
     keys_ok s \<and>
     (\<forall>k. received k acts @ carried k s @ queued_for k s = added k acts) \<and>
     (\<forall>a \<in> set (pm_adders s). 0 < adder_size a) \<and>
     (\<not> pm_shutdown s \<longrightarrow> (pm_lstRequests s \<noteq> [] \<longrightarrow> awake s) \<and> AtExit \<notin> set (pm_workers s))"

lemma history_simps [simp]:
  "added k [] = []" "received k [] = []" "added k (acts @ [a]) = added k acts @ added_of k a"
  "received k (acts @ [a]) = received k acts @ received_of k a"
  by (simp_all add: added_def received_def)

lemma new_pool_inv: "pool_inv [] (new_pool m)"
  by (simp add: pool_inv_def keys_ok_def holders_def carried_def queued_for_def new_pool_def)

lemma pool_parts:
  "holders k (s\<lparr>pm_workers := as @ w # bs\<rparr>) =
     filter (holds_key k) as @ (if holds_key k w then [w] else []) @ filter (holds_key k) bs"
  "carried k (s\<lparr>pm_workers := as @ w # bs\<rparr>) = concat (map (carries k) as) @ carries k w @ concat (map (carries k) bs)"
  by (simp_all add: holders_def carried_def)

lemma pool_parts_at:
  assumes "pm_workers s = as @ w # bs"
  shows "holders k s = filter (holds_key k) as @ (if holds_key k w then [w] else []) @ filter (holds_key k) bs"
    "carried k s = concat (map (carries k) as) @ carries k w @ concat (map (carries k) bs)"
  using assms by (simp_all add: holders_def carried_def)

lemma carries_none: "filter (holds_key k) ws = [] \<Longrightarrow> concat (map (carries k) ws) = []"
  by (auto simp: filter_empty_conv not_holding)

lemma only_holder:
  assumes "keys_ok s" and "pm_workers s = as @ w # bs" and "holds_key k w"
  shows "filter (holds_key k) as = []" "filter (holds_key k) bs = []" "pm_mapRunning s k = Some 1"
proof -
  have "length (holders k s) \<le> 1" "pm_mapRunning s k = (if holders k s = [] then None else Some 1)"
    using assms(1) by (simp_all add: keys_ok_def)
  then show "filter (holds_key k) as = []" "filter (holds_key k) bs = []" "pm_mapRunning s k = Some 1"
    unfolding pool_parts_at [OF assms(2)] using assms(3) by simp_all
qed

text \<open>A worker moves and leaves the queue and the map alone.\<close>

lemma quiet_step:
  assumes inv: "pool_inv acts s" and ws: "pm_workers s = as @ w # bs"
    and same: "pm_lstRequests t = pm_lstRequests s" "pm_mapRunning t = pm_mapRunning s" "pm_adders t = pm_adders s"
      "pm_shutdown t = pm_shutdown s"
    and wt: "pm_workers t = as @ w' # bs" and h: "\<And>k. holds_key k w' = holds_key k w"
    and c: "\<And>k. carries k w = received_of k a @ carries k w'" and a: "\<And>k. added_of k a = []"
    and e: "pm_shutdown s \<or> w' \<noteq> AtExit" and aw: "pm_shutdown s \<or> pm_lstRequests s = [] \<or> awake t"
  shows "pool_inv (acts @ [a]) t"
proof -
  have ok: "keys_ok s" using inv by (simp add: pool_inv_def)
  have "length (holders k t) = length (holders k s)" for k
    unfolding pool_parts_at [OF ws] pool_parts_at [OF wt] h by simp
  then have "keys_ok t" using ok same(2) unfolding keys_ok_def by (metis length_0_conv)
  moreover have "(received k acts @ received_of k a) @ carried k t @ queued_for k t = added k acts" for k
  proof -
    have "received_of k a @ carried k t = carried k s"
    proof (cases "received_of k a = []")
      case True
      then show ?thesis unfolding pool_parts_at [OF ws] pool_parts_at [OF wt] c by simp
    next
      case False
      then have "holds_key k w" using c [of k] not_holding by force
      from carries_none [OF only_holder(1) [OF ok ws this]] have e: "concat (map (carries k) as) = []" .
      show ?thesis unfolding pool_parts_at [OF ws] pool_parts_at [OF wt] c e by simp
    qed
    moreover have "queued_for k t = queued_for k s" by (simp add: queued_for_def same)
    moreover have "received k acts @ carried k s @ queued_for k s = added k acts" using inv by (simp add: pool_inv_def)
    ultimately show ?thesis by (metis append.assoc)
  qed
  moreover have "\<not> pm_shutdown s \<longrightarrow> AtExit \<notin> set (pm_workers t)"
    using inv e unfolding wt pool_inv_def ws by auto
  ultimately show ?thesis using inv aw a unfolding pool_inv_def history_simps same by auto
qed

lemma awake_worker: "pm_workers t = as @ w' # bs \<Longrightarrow> on_its_way w' \<Longrightarrow> awake t"
  by (simp add: awake_def)

lemma other_holder:
  assumes "keys_ok s" "pm_workers s = as @ w # bs" "\<not> holds_key k w" "pm_mapRunning s k \<noteq> None"
  shows "\<exists>v \<in> set as \<union> set bs. on_its_way v"
proof -
  have "holders k s \<noteq> []" using assms(1,4) by (auto simp: keys_ok_def split: if_splits)
  then obtain v where "v \<in> set as \<union> set bs" "holds_key k v"
    using assms(3) unfolding pool_parts_at [OF assms(2)] by (auto simp: filter_empty_conv)
  then show ?thesis by (intro bexI [of _ v]) (auto simp: on_its_way_def)
qed

text \<open>A worker takes a request: its key was free, and nobody carried one of this key.\<close>

lemma take_step:
  assumes inv: "pool_inv acts s" and ws: "pm_workers s = as @ AtScan # bs"
    and t: "take_request (pm_mapRunning s) (pm_lstRequests s) = Some (q, rest)"
  shows "pool_inv (acts @ [Internal]) (snd (assign_request s)\<lparr>pm_workers := as @ AtRun q # bs\<rparr>)"
proof -
  let ?t = "snd (assign_request s)\<lparr>pm_workers := as @ AtRun q # bs\<rparr>"
  from take_request_Some [OF t] obtain us vs where q: "pm_lstRequests s = us @ q # vs" "rest = us @ vs"
    "pm_mapRunning s (pq_key q) = None" "\<forall>u \<in> set us. pm_mapRunning s (pq_key u) \<noteq> None" by blast
  have ok: "keys_ok s" using inv by (simp add: pool_inv_def)
  then have free: "holders (pq_key q) s = []" using q(3) by (auto simp: keys_ok_def split: if_splits)
  have "?t = s\<lparr>pm_mapRunning := (pm_mapRunning s)(pq_key q \<mapsto> 1), pm_lstRequests := rest,
      pm_evtRequest := (if rest \<noteq> [] then True else pm_evtRequest s), pm_workers := as @ AtRun q # bs\<rparr>"
    using t q(3) by (simp add: assign_request_def)
  then have f: "pm_mapRunning ?t = (pm_mapRunning s)(pq_key q \<mapsto> 1)" "pm_lstRequests ?t = rest"
    "pm_workers ?t = as @ AtRun q # bs" "pm_adders ?t = pm_adders s" "pm_shutdown ?t = pm_shutdown s" by simp_all
  have "keys_ok ?t"
    using ok free unfolding keys_ok_def f(1) pool_parts_at [OF ws] pool_parts_at [OF f(3)] by auto
  moreover have "received k acts @ carried k ?t @ queued_for k ?t = added k acts" for k
  proof -
    have "received k acts @ carried k s @ queued_for k s = added k acts" using inv by (simp add: pool_inv_def)
    moreover have "carried k ?t @ queued_for k ?t = carried k s @ queued_for k s"
    proof (cases "pq_key q = k")
      case True
      with free have "filter (holds_key k) as = []" "filter (holds_key k) bs = []"
        unfolding pool_parts_at [OF ws] by simp_all
      from this [THEN carries_none] have e: "concat (map (carries k) as) = []" "concat (map (carries k) bs) = []" .
      have "filter (\<lambda>q. pq_key q = k) us = []" using q(3,4) True by (auto simp: filter_empty_conv)
      then show ?thesis using True q(1,2) unfolding pool_parts_at [OF ws] pool_parts_at [OF f(3)] queued_for_def f(2) e
        by simp
    next
      case False
      then show ?thesis using q(1,2) unfolding pool_parts_at [OF ws] pool_parts_at [OF f(3)] queued_for_def f(2) by simp
    qed
    ultimately show ?thesis by simp
  qed
  moreover have "awake ?t" using f(3) by (rule awake_worker) (simp add: on_its_way_def)
  moreover have "\<not> pm_shutdown s \<longrightarrow> AtExit \<notin> set (pm_workers ?t)"
    using inv unfolding f(3) pool_inv_def ws by auto
  ultimately show ?thesis using inv unfolding pool_inv_def history_simps f(4,5) by simp
qed

lemma release_step:
  assumes inv: "pool_inv acts s" and ws: "pm_workers s = as @ AtRelease q # bs"
  shows "pool_inv (acts @ [Internal]) (release_key (pq_key q) s\<lparr>pm_workers := as @ AtLeave # bs\<rparr>)"
proof -
  let ?t = "release_key (pq_key q) s\<lparr>pm_workers := as @ AtLeave # bs\<rparr>"
  have ok: "keys_ok s" using inv by (simp add: pool_inv_def)
  note o = only_holder [OF ok ws, of "pq_key q", simplified]
  have f: "pm_mapRunning ?t = (pm_mapRunning s)(pq_key q := None)" "pm_lstRequests ?t = pm_lstRequests s"
    "pm_workers ?t = as @ AtLeave # bs" "pm_adders ?t = pm_adders s" "pm_shutdown ?t = pm_shutdown s"
    using o(3) by (simp_all add: release_key_def)
  have "length (holders k ?t) \<le> 1 \<and> pm_mapRunning ?t k = (if holders k ?t = [] then None else Some 1)" for k
  proof (cases "k = pq_key q")
    case True
    then show ?thesis using o(1,2) unfolding f(1) pool_parts_at [OF f(3)] by simp
  next
    case False
    then have "holders k ?t = holders k s" unfolding pool_parts_at [OF ws] pool_parts_at [OF f(3)] by simp
    with ok False show ?thesis unfolding f(1) keys_ok_def by simp
  qed
  then have "keys_ok ?t" by (simp add: keys_ok_def)
  moreover have "carried k ?t = carried k s" for k unfolding pool_parts_at [OF ws] pool_parts_at [OF f(3)] by simp
  moreover have "awake ?t" using f(3) by (rule awake_worker) (simp add: on_its_way_def)
  moreover have "\<not> pm_shutdown s \<longrightarrow> AtExit \<notin> set (pm_workers ?t)"
    using inv unfolding f(3) pool_inv_def ws by auto
  ultimately show ?thesis using inv unfolding pool_inv_def history_simps f(4,5) queued_for_def f(2) by simp
qed

lemma worker_step_inv:
  assumes inv: "pool_inv acts s" and ws: "pm_workers s = as @ w # bs" and r: "Runner_step threw w s = Some (w', s')"
  shows "pool_inv (acts @ [worker_act w]) (s'\<lparr>pm_workers := as @ w' # bs\<rparr>)"
proof -
  have ok: "keys_ok s" using inv by (simp add: pool_inv_def)
  note quiet = quiet_step [OF inv ws]
  show ?thesis
  proof (cases w)
    case AtCheck
    with r show ?thesis by (intro quiet) (auto simp: worker_act_def awake_def on_its_way_def split: if_splits)
  next
    case AtSignal
    with r show ?thesis by (intro quiet) (auto simp: worker_act_def awake_def split: if_splits)
  next
    case AtWait
    with r show ?thesis by (intro quiet) (auto simp: worker_act_def awake_def on_its_way_def split: if_splits)
  next
    case AtScan
    show ?thesis
    proof (cases "take_request (pm_mapRunning s) (pm_lstRequests s)")
      case None
      then have e: "w' = AtWait" "s' = s" using r AtScan by (simp_all add: assign_request_def)
      have "awake (s\<lparr>pm_workers := as @ AtWait # bs\<rparr>)" if ne: "pm_lstRequests s \<noteq> []"
      proof -
        obtain q qs where "pm_lstRequests s = q # qs" using ne by (cases "pm_lstRequests s") auto
        with None have "pm_mapRunning s (pq_key q) \<noteq> None" unfolding take_request_None by simp
        from other_holder [OF ok ws _ this] AtScan show ?thesis by (auto simp: awake_def)
      qed
      with e AtScan show ?thesis by (intro quiet) (auto simp: worker_act_def)
    next
      case (Some x)
      then obtain q rest where t: "take_request (pm_mapRunning s) (pm_lstRequests s) = Some (q, rest)" by (cases x) simp
      then have "w' = AtRun q" "s' = snd (assign_request s)" using r AtScan by (auto simp: assign_request_def)
      with take_step [OF inv ws [unfolded AtScan] t] AtScan show ?thesis by (simp add: worker_act_def)
    qed
  next
    case (AtRun q)
    with r show ?thesis by (intro quiet) (auto simp: worker_act_def awake_def on_its_way_def)
  next
    case (AtReceive q)
    with r show ?thesis by (intro quiet) (auto simp: worker_act_def awake_def on_its_way_def split: if_splits)
  next
    case (AtRelease q)
    with r release_step [OF inv ws [unfolded AtRelease]] show ?thesis by (simp add: worker_act_def)
  next
    case AtLeave
    with r show ?thesis by (intro quiet) (auto simp: worker_act_def awake_def on_its_way_def)
  qed (use r in simp)
qed

lemma step_inv:
  assumes "pool_inv acts s" and "pool_step s a s'"
  shows "pool_inv (acts @ [a]) s'"
  using assms(2)
proof cases
  case (add q)
  with assms(1) show ?thesis
    by (auto simp: pool_inv_def Add_queue_def keys_ok_def holders_def carried_def queued_for_def awake_def)
next
  case (spawn as n bs created)
  have k: "holders k s' = holders k s" "carried k s' = carried k s" "queued_for k s' = queued_for k s"
    "pm_mapRunning s' = pm_mapRunning s" "pm_shutdown s' = pm_shutdown s" for k
    using spawn(2) by (simp_all add: Add_spawn_def SpawnWorkerThread_def holders_def carried_def queued_for_def)
  have "awake s'" "AtExit \<notin> set (pm_workers s) \<Longrightarrow> AtExit \<notin> set (pm_workers s')" "pm_adders s' = as @ Signalling n # bs"
    using spawn(2) by (simp_all add: awake_def Add_spawn_def SpawnWorkerThread_def)
  with assms(1) spawn(1,3) k show ?thesis by (auto simp: pool_inv_def keys_ok_def)
next
  case (signal as n bs)
  have k: "holders k s' = holders k s" "carried k s' = carried k s" "queued_for k s' = queued_for k s"
    "pm_mapRunning s' = pm_mapRunning s" "pm_shutdown s' = pm_shutdown s" "pm_workers s' = pm_workers s" for k
    using signal(2) by (simp_all add: Add_signal_def holders_def carried_def queued_for_def)
  have "0 < n" using assms(1) signal(3) by (auto simp: pool_inv_def)
  then have "awake s'" "pm_adders s' = as @ bs" using signal(2) by (simp_all add: awake_def Add_signal_def)
  with assms(1) signal(1,3) k show ?thesis by (auto simp: pool_inv_def keys_ok_def)
next
  case (worker as w bs threw w' s2)
  with worker_step_inv [OF assms(1) worker(3,4)] show ?thesis by simp
next
  case shutdown
  with assms(1) show ?thesis
    by (auto simp: pool_inv_def keys_ok_def holders_def carried_def queued_for_def)
qed

lemma run_inv: "pool_run acts s \<Longrightarrow> pool_inv acts s"
proof -
  have "pool_steps s0 acts s \<Longrightarrow> s0 = new_pool m \<Longrightarrow> pool_inv acts s" for s0 m
    by (induction rule: pool_steps.induct) (auto simp: new_pool_inv intro: step_inv)
  then show "pool_run acts s \<Longrightarrow> pool_inv acts s" unfolding pool_run_def by blast
qed

section \<open>The queue drains\<close>

text \<open>What the threads still have to do, without new requests.\<close>

fun worker_weight :: "'q worker_at \<Rightarrow> nat" where
  "worker_weight AtExit = 0"
| "worker_weight AtWait = 1"
| "worker_weight AtScan = 2"
| "worker_weight AtSignal = 4"
| "worker_weight AtCheck = 5"
| "worker_weight AtLeave = 6"
| "worker_weight (AtRelease _) = 7"
| "worker_weight (AtReceive _) = 8"
| "worker_weight (AtRun _) = 9"

fun adder_weight :: "adder_at \<Rightarrow> nat" where
  "adder_weight (Spawning _) = 9"
| "adder_weight (Signalling _) = 3"

definition pool_weight :: "('k, 'r) pool \<Rightarrow> nat" where
  "pool_weight s = 10 * length (pm_lstRequests s) + (if pm_evtRequest s then 2 else 0) +
     sum_list (map adder_weight (pm_adders s)) + sum_list (map worker_weight (pm_workers s))"

definition own_act :: "('k, 'r) pool_act \<Rightarrow> bool" where
  "own_act a \<longleftrightarrow> (case a of Internal \<Rightarrow> True | Received _ \<Rightarrow> True | _ \<Rightarrow> False)"

definition at_rest :: "('k, 'r) pool \<Rightarrow> bool" where
  "at_rest s \<longleftrightarrow> (\<forall>a s'. pool_step s a s' \<longrightarrow> \<not> own_act a)"

lemma weight_worker:
  assumes "pm_workers s = as @ w # bs" and "Runner_step threw w s = Some (w', s')"
  shows "pool_weight (s'\<lparr>pm_workers := as @ w' # bs\<rparr>) < pool_weight s"
proof (cases w)
  case AtScan
  then show ?thesis using assms
    by (auto simp: pool_weight_def assign_request_def dest!: take_request_Some split: option.splits)
next
  case (AtRelease q)
  then show ?thesis using assms by (auto simp: pool_weight_def release_key_def split: option.splits)
qed (use assms in \<open>auto simp: pool_weight_def split: if_splits\<close>)

lemma weight_step:
  assumes "pool_step s a s'" and "own_act a"
  shows "pool_weight s' < pool_weight s"
  using assms(1)
proof cases
  case (worker as w bs threw w' s2)
  then show ?thesis using weight_worker by blast
qed (use assms(2) in \<open>auto simp: own_act_def pool_weight_def Add_spawn_def SpawnWorkerThread_def Add_signal_def\<close>)

lemma weight_steps: "pool_steps s acts s' \<Longrightarrow> \<forall>a \<in> set acts. own_act a \<Longrightarrow> length acts + pool_weight s' \<le> pool_weight s"
  by (induction rule: pool_steps.induct) (fastforce dest: weight_step)+

lemma no_shutdown_steps:
  "pool_steps s acts s' \<Longrightarrow> \<forall>a \<in> set acts. own_act a \<Longrightarrow>
     pm_shutdown s' = pm_shutdown s \<and> length (pm_workers s) \<le> length (pm_workers s')"
proof (induction rule: pool_steps.induct)
  case (step s acts s' a s'')
  have "pm_shutdown s'' = pm_shutdown s' \<and> length (pm_workers s') \<le> length (pm_workers s'')"
    using step.hyps(2) step.prems
    by (cases rule: pool_step.cases)
      (auto simp: own_act_def Add_spawn_def SpawnWorkerThread_def Add_signal_def elim!: Runner_step.elims
        simp: assign_request_def release_key_def split: option.splits if_splits)
  with step show ?case by auto
qed simp

lemma rest_empty:
  assumes inv: "pool_inv acts s" and "\<not> pm_shutdown s" "pm_workers s \<noteq> []" "at_rest s"
  shows "pm_lstRequests s = [] \<and> set (pm_workers s) \<subseteq> {AtWait}"
proof -
  have "\<exists>threw x. Runner_step threw w s = Some x" if "w \<noteq> AtWait" "w \<noteq> AtExit" for w
    using that by (cases w) auto
  moreover have blocked: "Runner_step threw w s = None" if m: "w \<in> set (pm_workers s)" for w threw
  proof -
    obtain as bs where ws: "pm_workers s = as @ w # bs" using split_list [OF m] by blast
    have "own_act (worker_act w)" by (cases w) (simp_all add: worker_act_def own_act_def)
    with worker [OF ws] assms(4) show ?thesis
      unfolding at_rest_def by (cases "Runner_step threw w s") fastforce+
  qed
  moreover have "AtExit \<notin> set (pm_workers s)" using inv assms(2) by (simp add: pool_inv_def)
  ultimately have w: "set (pm_workers s) \<subseteq> {AtWait}" by (metis insertI1 not_None_eq subsetI)
  moreover have "\<not> pm_evtRequest s"
  proof
    assume "pm_evtRequest s"
    then have "Runner_step True AtWait s \<noteq> None" using assms(2) by simp
    moreover have "AtWait \<in> set (pm_workers s)" using w assms(3) by (cases "pm_workers s") auto
    ultimately show False using blocked [of AtWait True] by simp
  qed
  moreover have "pm_adders s = []"
  proof (rule ccontr)
    assume "pm_adders s \<noteq> []"
    then obtain x xs where x: "pm_adders s = [] @ x # xs" by (cases "pm_adders s") auto
    show False
    proof (cases x)
      case (Spawning n)
      with spawn [of s "[]" n xs True] x assms(4) show False by (auto simp: at_rest_def own_act_def)
    next
      case (Signalling n)
      with signal [of s "[]" n xs] x assms(4) show False by (auto simp: at_rest_def own_act_def)
    qed
  qed
  ultimately have "\<not> awake s" by (auto simp: awake_def on_its_way_def)
  with inv assms(2) w show ?thesis by (auto simp: pool_inv_def)
qed

section \<open>Schedules\<close>

text \<open>A schedule as a list of moves, to run the pool on an example.\<close>

datatype ('k, 'r) pool_move = MoveAdd "('k, 'r) pool_request" | MoveAdder bool | MoveWorker nat bool

fun play_move :: "('k, 'r) pool_move \<Rightarrow> ('k, 'r) pool \<Rightarrow> (('k, 'r) pool_act \<times> ('k, 'r) pool) option" where
  "play_move (MoveAdd q) s = Some (Added q, Add_queue q s)"
| "play_move (MoveAdder created) s =
     (case pm_adders s of
        [] \<Rightarrow> None
      | Spawning n # bs \<Rightarrow> Some (Internal, (Add_spawn created n s)\<lparr>pm_adders := Signalling n # bs\<rparr>)
      | Signalling n # bs \<Rightarrow> Some (Internal, (Add_signal n s)\<lparr>pm_adders := bs\<rparr>))"
| "play_move (MoveWorker i threw) s =
     (if i < length (pm_workers s) then
        map_option (\<lambda>(w', s'). (worker_act (pm_workers s ! i),
            s'\<lparr>pm_workers := take i (pm_workers s) @ w' # drop (Suc i) (pm_workers s)\<rparr>))
          (Runner_step threw (pm_workers s ! i) s)
      else None)"

fun play :: "('k, 'r) pool_move list \<Rightarrow> ('k, 'r) pool_act list \<Rightarrow> ('k, 'r) pool \<Rightarrow>
    (('k, 'r) pool_act list \<times> ('k, 'r) pool) option" where
  "play [] acts s = Some (acts, s)"
| "play (m # ms) acts s =
     (case play_move m s of None \<Rightarrow> None | Some (a, s') \<Rightarrow> play ms (acts @ [a]) s')"

lemma play_move_step: "play_move m s = Some (a, s') \<Longrightarrow> pool_step s a s'"
proof (cases m)
  case (MoveAdder created)
  assume p: "play_move m s = Some (a, s')"
  with MoveAdder obtain x xs where "pm_adders s = [] @ x # xs" by (cases "pm_adders s") auto
  with p MoveAdder spawn [of s "[]" _ xs created] signal [of s "[]" _ xs] show ?thesis
    by (cases x) auto
next
  case (MoveWorker i threw)
  assume p: "play_move m s = Some (a, s')"
  with MoveWorker have i: "i < length (pm_workers s)" by (auto split: if_splits)
  from p MoveWorker i obtain w' s1 where w: "Runner_step threw (pm_workers s ! i) s = Some (w', s1)"
    "a = worker_act (pm_workers s ! i)" "s' = s1\<lparr>pm_workers := take i (pm_workers s) @ w' # drop (Suc i) (pm_workers s)\<rparr>"
    by auto
  from worker [OF id_take_nth_drop [OF i] w(1)] w(2,3) show ?thesis by simp
qed (auto intro: add)

lemma play_steps: "play ms acts s = Some (acts', s') \<Longrightarrow> pool_steps s0 acts s \<Longrightarrow> pool_steps s0 acts' s'"
  by (induction ms arbitrary: acts s) (auto split: option.splits intro: step dest!: play_move_step)

section \<open>Properties\<close>

text \<open>
  C10. The events of a connection are handled one at a time and in order. In any history of the pool,
  with any number of worker threads, callers of \<open>Add\<close> and interleavings of their steps: at most one
  thread holds a key; and the requests of a key reach \<open>ReceiveData\<close> in the order in which they were added,
  none lost and none twice: those received, the one that is under way and those queued are the ones added.
\<close>
theorem pool_keeps_order:
  assumes "pool_run acts s"
  shows "length (holders k s) \<le> 1 \<and> length (carried k s) \<le> 1 \<and>
     received k acts @ carried k s @ queued_for k s = added k acts"
proof -
  have inv: "keys_ok s" "received k acts @ carried k s @ queued_for k s = added k acts"
    using run_inv [OF assms] by (simp_all add: pool_inv_def)
  then have h: "length (holders k s) \<le> 1" by (simp add: keys_ok_def)
  have "length (carries k w) \<le> 1" for w :: "('a, 'b) pool_request worker_at" by (cases w) simp_all
  moreover have "concat (map (carries k) ws) = concat (map (carries k) (filter (holds_key k) ws))"
    for ws :: "('a, 'b) pool_request worker_at list" by (induction ws) (auto simp: not_holding)
  then have "carried k s = concat (map (carries k) (holders k s))" unfolding carried_def holders_def .
  ultimately have "length (carried k s) \<le> 1" using h by (cases "holders k s") auto
  with h inv(2) show ?thesis by simp
qed

text \<open>Two events of one line, the worker in the middle of the first; and the moves that are left.\<close>

definition sample_setup :: "(nat, nat) pool_move list" where
  "sample_setup = [MoveAdd \<lparr>pq_key = 1, pq_req = 10, pq_conn = 0\<rparr>, MoveAdder True, MoveAdder True, MoveWorker 0 False,
     MoveWorker 0 False, MoveWorker 0 False, MoveWorker 0 False, MoveAdd \<lparr>pq_key = 1, pq_req = 11, pq_conn = 0\<rparr>]"

definition sample_pool :: "(nat, nat) pool_act list \<times> (nat, nat) pool" where
  "sample_pool = the (play sample_setup [] (new_pool 4))"

lemma sample_pool_run: "pool_run (fst sample_pool) (snd sample_pool)"
proof -
  have "play sample_setup [] (new_pool 4) \<noteq> None" by code_simp
  then have "play sample_setup [] (new_pool 4) = Some (fst sample_pool, snd sample_pool)"
    by (auto simp: sample_pool_def)
  from play_steps [OF this none] show ?thesis unfolding pool_run_def by blast
qed

theorem pool_keeps_order_witness:
  "length (holders 1 (snd sample_pool)) = 1 \<and> map pq_req (carried 1 (snd sample_pool)) = [10] \<and>
   map pq_req (queued_for 1 (snd sample_pool)) = [11] \<and> map pq_req (added 1 (fst sample_pool)) = [10, 11]"
proof -
  have "received 1 (fst sample_pool) = []" "map pq_req (carried 1 (snd sample_pool)) = [10]"
    "map pq_req (queued_for 1 (snd sample_pool)) = [11]" "length (holders 1 (snd sample_pool)) = 1" by code_simp+
  with pool_keeps_order [OF sample_pool_run, of 1] show ?thesis by (metis append_Cons append_Nil map_append)
qed

text \<open>
  C11. No wakeup is lost. Once no more requests are added, and as long as there is a worker
  and no shutdown, the threads make finitely many steps (a bound is computed from the state), in whatever order they are
  scheduled; and when none can move any more, the queue is empty, every worker waits, and
  every request that was ever added has reached \<open>ReceiveData\<close>. This although the event
  is reset by each wait and a worker may find that no request can run.
\<close>
theorem pool_drains:
  assumes "pool_run acts s" and "\<not> pm_shutdown s" and "pm_workers s \<noteq> []"
    and "pool_steps s own s'" and "\<forall>a \<in> set own. own_act a"
  shows "length own \<le> pool_weight s \<and>
     (at_rest s' \<longrightarrow> pm_lstRequests s' = [] \<and> set (pm_workers s') \<subseteq> {AtWait} \<and>
        (\<forall>k. received k (acts @ own) = added k acts))"
proof -
  have r: "pool_run (acts @ own) s'"
  proof -
    obtain m where m: "pool_steps (new_pool m) acts s" using assms(1) by (auto simp: pool_run_def)
    have "pool_steps t own s' \<Longrightarrow> pool_steps (new_pool m) acts t \<Longrightarrow> pool_steps (new_pool m) (acts @ own) s'" for t
      by (induction rule: pool_steps.induct) (auto simp flip: append_assoc intro: pool_steps.step)
    with m assms(4) show ?thesis unfolding pool_run_def by blast
  qed
  have w: "\<not> pm_shutdown s'" "pm_workers s' \<noteq> []"
    using no_shutdown_steps [OF assms(4,5)] assms(2,3) by auto
  have a: "added k (acts @ own) = added k acts" for k
    using assms(5) by (induction own rule: rev_induct) (auto simp: own_act_def simp flip: append_assoc split: pool_act.splits)
  have "pm_lstRequests s' = [] \<and> set (pm_workers s') \<subseteq> {AtWait} \<and> (\<forall>k. received k (acts @ own) = added k acts)"
    if "at_rest s'"
  proof -
    note e = rest_empty [OF run_inv [OF r] w that]
    then have "carried k s' = []" "queued_for k s' = []" for k by (auto simp: carried_def queued_for_def)
    with run_inv [OF r] e a show ?thesis by (simp add: pool_inv_def)
  qed
  moreover have "length own \<le> pool_weight s" using weight_steps [OF assms(4,5)] by simp
  ultimately show ?thesis by blast
qed

definition sample_moves :: "(nat, nat) pool_move list" where
  "sample_moves = [MoveAdder True, MoveAdder True, MoveWorker 0 False, MoveWorker 0 False, MoveWorker 0 False,
     MoveWorker 0 False, MoveWorker 0 False, MoveWorker 0 False, MoveWorker 0 False, MoveWorker 0 False,
     MoveWorker 0 False, MoveWorker 0 False, MoveWorker 0 False, MoveWorker 0 False, MoveWorker 0 False, MoveWorker 0 False]"

definition sample_drained :: "(nat, nat) pool_act list \<times> (nat, nat) pool" where
  "sample_drained = the (play sample_moves [] (snd sample_pool))"

lemma sample_at_rest: "at_rest (snd sample_drained)"
proof -
  have "pm_adders (snd sample_drained) = [] \<and> pm_workers (snd sample_drained) = [AtWait] \<and>
      \<not> pm_shutdown (snd sample_drained) \<and> \<not> pm_evtRequest (snd sample_drained)" by code_simp
  then show ?thesis by (auto simp: at_rest_def own_act_def Cons_eq_append_conv append_eq_Cons_conv elim!: pool_step.cases)
qed

theorem pool_drains_witness:
  "length (fst sample_drained) \<le> pool_weight (snd sample_pool) \<and> pm_lstRequests (snd sample_drained) = [] \<and>
   map pq_req (received 1 (fst sample_pool @ fst sample_drained)) = [10, 11]"
proof -
  have "play sample_moves [] (snd sample_pool) \<noteq> None" by code_simp
  then have "play sample_moves [] (snd sample_pool) = Some (fst sample_drained, snd sample_drained)"
    by (auto simp: sample_drained_def)
  note steps = play_steps [OF this none]
  have own: "\<forall>a \<in> set (fst sample_drained). own_act a" and s: "\<not> pm_shutdown (snd sample_pool)" "pm_workers (snd sample_pool) \<noteq> []"
    and r: "map pq_req (received 1 (fst sample_pool @ fst sample_drained)) = [10, 11]" by code_simp+
  from pool_drains [OF sample_pool_run s steps own] r sample_at_rest show ?thesis by blast
qed

end
