(* ===== verification/GlooxXml.thy ===== *)
theory GlooxXml
  imports OnSip_Prelude
begin

text \<open>
  The XML layer of the vendored gloox library: \<open>util::escape\<close>, the trees \<open>Tag\<close> with their namespaces
  and their printing (\<open>gloox/src/tag.cpp\<close>), and the incremental \<open>Parser\<close> (\<open>gloox/src/parser.cpp\<close>) that
  the client feeds with what it receives. A \<open>Tag\<close> is a value; the tags the parser has open,
  from \<open>m_current\<close> up to \<open>m_root\<close>, are a list, and a tag joins its parent when it is closed. The stanzas that are
  handed on (\<open>handleTag\<close>) are collected in \<open>ps_handled\<close>. A character is a byte; \<open>long\<close> is wide enough for
  the at most seven digits a reference can have.
\<close>

section \<open>util\<close>

definition escape_char :: "char \<Rightarrow> string" where
  "escape_char c =
     (if c = CHR ''&'' then ''&amp;'' else if c = CHR ''<'' then ''&lt;'' else if c = CHR ''>'' then ''&gt;''
      else if c = CHR 0x27 then ''&apos;'' else if c = CHR 0x22 then ''&quot;'' else [c])"

definition escape :: "string \<Rightarrow> string" where
  "escape what = concat (map escape_char what)"

definition valid_xml_char :: "char \<Rightarrow> bool" where
  "valid_xml_char c = (let n = (of_char c :: nat) in
     n = 0x09 \<or> n = 0x0a \<or> n = 0x0d \<or> (0x20 \<le> n \<and> n \<noteq> 0xc0 \<and> n \<noteq> 0xc1 \<and> n < 0xf5))"

definition checkValidXMLChars :: "string \<Rightarrow> bool" where
  "checkValidXMLChars s = list_all valid_xml_char s"

section \<open>Tag\<close>

text \<open>Attributes have no namespace of their own here: nothing that parses or sends stanzas sets one.\<close>

record attribute =
  at_prefix :: string
  at_name :: string
  at_value :: string

datatype xtag = XTag (x_prefix: string) (x_name: string) (x_attribs: "attribute list")
    (x_xmlns: string) (x_xmlnss: "(string \<times> string) list") (x_nodes: "xnode list")
and xnode = ElemNode xtag | TextNode string

definition XMLNS :: string where "XMLNS = ''xmlns''"
definition XMLNS_STREAM :: string where "XMLNS_STREAM = ''http://etherx.jabber.org/streams''"

definition new_attribute :: "string \<Rightarrow> string \<Rightarrow> attribute" where
  "new_attribute name value =
     (if \<not> checkValidXMLChars value then \<lparr>at_prefix = '''', at_name = '''', at_value = ''''\<rparr>
      else if \<not> checkValidXMLChars name then \<lparr>at_prefix = '''', at_name = '''', at_value = value\<rparr>
      else \<lparr>at_prefix = '''', at_name = name, at_value = value\<rparr>)"

definition attribute_xml :: "attribute \<Rightarrow> string" where
  "attribute_xml a =
     (if at_name a = [] then ''''
      else '' '' @ (if at_prefix a \<noteq> [] then at_prefix a @ '':'' else '''') @ at_name a @
        [CHR ''='', CHR 0x27] @ escape (at_value a) @ [CHR 0x27])"

definition qname :: "string \<Rightarrow> string \<Rightarrow> string" where
  "qname p n = (if p \<noteq> [] then p @ '':'' else '''') @ n"

fun tag_xml :: "xtag \<Rightarrow> string" and node_xml :: "xnode \<Rightarrow> string" where
  "tag_xml (XTag p n as ns nss nodes) =
     (if n = [] then ''''
      else ''<'' @ qname p n @ concat (map attribute_xml as) @
        (if nodes = [] then ''/>''
         else ''>'' @ concat (map node_xml nodes) @ ''</'' @ qname p n @ ''>''))"
| "node_xml (ElemNode t) = tag_xml t"
| "node_xml (TextNode s) = escape s"

definition new_tag :: "string \<Rightarrow> xtag" where
  "new_tag name = XTag '''' (if checkValidXMLChars name then name else '''') [] '''' [] []"

definition add_node :: "xnode \<Rightarrow> xtag \<Rightarrow> xtag" where
  "add_node n t = XTag (x_prefix t) (x_name t) (x_attribs t) (x_xmlns t) (x_xmlnss t) (x_nodes t @ [n])"

definition addCData :: "string \<Rightarrow> xtag \<Rightarrow> xtag" where
  "addCData s t = (if s = [] \<or> \<not> checkValidXMLChars s then t else add_node (TextNode s) t)"

definition setPrefix :: "string \<Rightarrow> xtag \<Rightarrow> xtag" where
  "setPrefix p t =
     (if checkValidXMLChars p then XTag p (x_name t) (x_attribs t) (x_xmlns t) (x_xmlnss t) (x_nodes t) else t)"

definition setAttributes :: "attribute list \<Rightarrow> xtag \<Rightarrow> xtag" where
  "setAttributes as t = XTag (x_prefix t) (x_name t) as (x_xmlns t) (x_xmlnss t) (x_nodes t)"

text \<open>A \<open>StringMap\<close> as a list without duplicate keys.\<close>

fun ns_update :: "string \<Rightarrow> string \<Rightarrow> (string \<times> string) list \<Rightarrow> (string \<times> string) list" where
  "ns_update k v [] = [(k, v)]"
| "ns_update k v ((k', v') # m) = (if k = k' then (k, v) # m else (k', v') # ns_update k v m)"

definition setXmlnsMap :: "(string \<times> string) list \<Rightarrow> xtag \<Rightarrow> xtag" where
  "setXmlnsMap m t = XTag (x_prefix t) (x_name t) (x_attribs t) (x_xmlns t) m (x_nodes t)"

definition findXAttribute :: "xtag \<Rightarrow> string \<Rightarrow> string option" where
  "findXAttribute t name = map_option at_value (find (\<lambda>a. at_name a = name) (x_attribs t))"

text \<open>\<open>Tag::xmlns(prefix)\<close> on a tag and its ancestors.\<close>

fun xmlns_of :: "string \<Rightarrow> xtag list \<Rightarrow> string" where
  "xmlns_of p [] = ''''"
| "xmlns_of p (t # ts) =
     (if p = [] then (case findXAttribute t XMLNS of Some v \<Rightarrow> v | None \<Rightarrow> x_xmlns t)
      else case map_of (x_xmlnss t) p of Some v \<Rightarrow> v | None \<Rightarrow> xmlns_of p ts)"

text \<open>
  \<open>addAttribute(name, value)\<close> on the first of a list of open tags: an attribute of the same name and the same
  namespace or prefix is replaced.
\<close>

fun replace_attribute :: "attribute \<Rightarrow> (attribute \<Rightarrow> bool) \<Rightarrow> attribute list \<Rightarrow> attribute list" where
  "replace_attribute new same [] = [new]"
| "replace_attribute new same (a # as) = (if same a then new # as else a # replace_attribute new same as)"

definition addAttribute :: "string \<Rightarrow> string \<Rightarrow> xtag list \<Rightarrow> xtag list" where
  "addAttribute name value stack =
     (case stack of
        [] \<Rightarrow> []
      | t # ts \<Rightarrow>
          let new = new_attribute name value;
              same = (\<lambda>a. at_name a = at_name new \<and> (xmlns_of (at_prefix a) stack = '''' \<or> at_prefix a = ''''))
          in if name = [] \<or> value = [] \<or> at_name new = [] then stack
             else setAttributes (replace_attribute new same (x_attribs t)) t # ts)"

definition setXmlns :: "string \<Rightarrow> string \<Rightarrow> xtag list \<Rightarrow> xtag list" where
  "setXmlns xmlns p stack =
     (case stack of
        [] \<Rightarrow> []
      | t # ts \<Rightarrow>
          if \<not> checkValidXMLChars xmlns \<or> \<not> checkValidXMLChars p then stack
          else if p = [] then
            addAttribute XMLNS xmlns (XTag (x_prefix t) (x_name t) (x_attribs t) xmlns (x_xmlnss t) (x_nodes t) # ts)
          else addAttribute (XMLNS @ '':'' @ p) xmlns (setXmlnsMap (ns_update p xmlns (x_xmlnss t)) t # ts))"

section \<open>Parser\<close>

datatype parser_state =
  Initial | TagOpening | TagOpeningSlash | TagOpeningLt | TagInside | TagNameCollect | TagNameComplete
| TagNameAlmostComplete | TagAttribute | TagAttributeComplete | TagAttributeEqual | TagClosing
| TagClosingSlash | TagValueApos | TagAttributeValue | TagPreamble | TagCDATASection

record parser =
  ps_stack :: "xtag list"
  ps_xmlnss :: "(string \<times> string) list"
  ps_state :: parser_state
  ps_attribs :: "attribute list"
  ps_tag :: string
  ps_cdata :: string
  ps_attrib :: string
  ps_value :: string
  ps_xmlns :: string
  ps_tagPrefix :: string
  ps_attribPrefix :: string
  ps_backBuffer :: string
  ps_preamble :: nat
  ps_quote :: bool
  ps_haveTagPrefix :: bool
  ps_haveAttribPrefix :: bool
  ps_attribIsXmlns :: bool
  ps_handled :: "xtag list"

definition new_parser :: parser where
  "new_parser = \<lparr>ps_stack = [], ps_xmlnss = [], ps_state = Initial, ps_attribs = [], ps_tag = '''', ps_cdata = '''',
     ps_attrib = '''', ps_value = '''', ps_xmlns = '''', ps_tagPrefix = '''', ps_attribPrefix = '''',
     ps_backBuffer = '''', ps_preamble = 0, ps_quote = False, ps_haveTagPrefix = False,
     ps_haveAttribPrefix = False, ps_attribIsXmlns = False, ps_handled = []\<rparr>"

text \<open>As the code has it: the condition holds for every byte.\<close>

definition isValid :: "char \<Rightarrow> bool" where
  "isValid c = (let n = (of_char c :: nat) in n \<noteq> 0xc0 \<or> n \<noteq> 0xc1 \<or> n < 0xf5)"

definition isWhitespace :: "char \<Rightarrow> bool" where
  "isWhitespace c = (let n = (of_char c :: nat) in n = 0x09 \<or> n = 0x0a \<or> n = 0x0d \<or> n = 0x20)"

text \<open>Neither \<open>m_quote\<close> nor \<open>m_attribIsXmlns\<close> is reset.\<close>

definition ps_cleanup :: "parser \<Rightarrow> parser" where
  "ps_cleanup p = p\<lparr>ps_stack := [], ps_xmlnss := [], ps_cdata := '''', ps_tag := '''', ps_attrib := '''',
     ps_attribPrefix := '''', ps_tagPrefix := '''', ps_haveAttribPrefix := False, ps_haveTagPrefix := False,
     ps_value := '''', ps_xmlns := '''', ps_attribs := [], ps_state := Initial, ps_preamble := 0\<rparr>"

text \<open>The root tag with all that is in it, the open tags included.\<close>

fun root_tag :: "xtag list \<Rightarrow> xtag list" where
  "root_tag [] = []"
| "root_tag [t] = [t]"
| "root_tag (c # t # ts) = root_tag (add_node (ElemNode c) t # ts)"

definition streamEvent :: "parser \<Rightarrow> parser" where
  "streamEvent p = p\<lparr>ps_handled := ps_handled p @ root_tag (ps_stack p)\<rparr>"

definition addTag :: "parser \<Rightarrow> parser" where
  "addTag p =
     (let t = new_tag (ps_tag p);
          t1 = (if ps_haveTagPrefix p then setPrefix (ps_tagPrefix p) t else t);
          t2 = (if ps_attribs p \<noteq> [] then setAttributes (ps_attribs p) t1 else t1);
          t3 = (if ps_xmlnss p \<noteq> [] then setXmlnsMap (ps_xmlnss p) t2 else t2);
          stack = setXmlns (ps_xmlns p) '''' (t3 # ps_stack p);
          p1 = p\<lparr>ps_haveTagPrefix := False, ps_attribs := [], ps_xmlnss := [], ps_xmlns := '''', ps_stack := stack\<rparr>;
          root = last stack
      in if ps_tag p = ''stream'' \<and> xmlns_of (x_prefix root) [root] = XMLNS_STREAM
         then ps_cleanup (streamEvent p1)
         else
           let p2 = (if ps_stack p = [] \<and> ps_tagPrefix p = ''stream''
                     then p1\<lparr>ps_stack := setXmlns XMLNS_STREAM (ps_tagPrefix p) stack\<rparr> else p1)
           in if ps_tag p = ''xml'' \<and> ps_preamble p = 2 then ps_cleanup p2 else p2)"

definition ps_addAttribute :: "parser \<Rightarrow> parser" where
  "ps_addAttribute p =
     (let attr = new_attribute (ps_attrib p) (ps_value p);
          set_prefix = (\<lambda>s a. if checkValidXMLChars s then a\<lparr>at_prefix := s\<rparr> else a);
          p1 = (if ps_attribIsXmlns p
                then p\<lparr>ps_xmlnss := ns_update (ps_attrib p) (ps_value p) (ps_xmlnss p),
                       ps_attribs := ps_attribs p @ [set_prefix XMLNS attr]\<rparr>
                else p\<lparr>ps_xmlns := (if ps_attrib p = XMLNS then ps_value p else ps_xmlns p),
                       ps_attribs := ps_attribs p @
                         [if ps_attribPrefix p \<noteq> [] then set_prefix (ps_attribPrefix p) attr else attr]\<rparr>)
      in p1\<lparr>ps_attrib := '''', ps_value := '''', ps_attribPrefix := '''', ps_haveAttribPrefix := False,
            ps_attribIsXmlns := False\<rparr>)"

definition ps_addCData :: "parser \<Rightarrow> parser" where
  "ps_addCData p =
     (case ps_stack p of
        [] \<Rightarrow> p
      | t # ts \<Rightarrow> if ps_cdata p = [] then p else p\<lparr>ps_stack := addCData (ps_cdata p) t # ts, ps_cdata := ''''\<rparr>)"

definition closeTag :: "parser \<Rightarrow> bool \<times> parser" where
  "closeTag p =
     (if ps_tag p = ''stream'' \<and> ps_tagPrefix p = ''stream'' then (True, p)
      else
        (case ps_stack p of
           [] \<Rightarrow> (False, p)
         | c # ts \<Rightarrow>
             if x_name c \<noteq> ps_tag p \<or> (x_prefix c \<noteq> [] \<and> x_prefix c \<noteq> ps_tagPrefix p) then (False, p)
             else
               let p1 = p\<lparr>ps_tagPrefix := '''', ps_haveTagPrefix := False\<rparr>
               in (True, case ts of
                     t # ts' \<Rightarrow> p1\<lparr>ps_stack := add_node (ElemNode c) t # ts'\<rparr>
                   | [] \<Rightarrow> ps_cleanup (streamEvent p1))))"

text \<open>The colon in a tag name: the part before it is the prefix; a second one is an error.\<close>

definition tag_colon :: "parser \<Rightarrow> bool \<times> parser" where
  "tag_colon p =
     (if \<not> ps_haveTagPrefix p then (True, p\<lparr>ps_haveTagPrefix := True, ps_tagPrefix := ps_tag p, ps_tag := ''''\<rparr>)
      else (False, p))"

text \<open>The end of a start tag, in the three states after its name.\<close>

definition tag_end :: "parser \<Rightarrow> bool \<times> parser" where
  "tag_end p = (if ps_preamble p = 1 then (False, p) else (True, addTag (p\<lparr>ps_state := TagInside\<rparr>)))"

definition tag_question :: "parser \<Rightarrow> bool \<times> parser" where
  "tag_question p = (if ps_preamble p = 1 then (True, p\<lparr>ps_preamble := 2\<rparr>) else (False, p))"

text \<open>
  What \<open>feed\<close> does with one character, in the states of an end tag, of the names and of the values of attributes, and in all states, where it needs no other; false where it then cleans up and returns
  the position.
\<close>

definition parse_close_char :: "char \<Rightarrow> parser \<Rightarrow> bool \<times> parser" where
  "parse_close_char c p =
     (case ps_state p of
        TagOpeningSlash \<Rightarrow>
          (if isWhitespace c then (True, p)
           else if c = CHR ''>'' then
             (case closeTag (addTag p) of (ok, p1) \<Rightarrow> if ok then (True, p1\<lparr>ps_state := Initial\<rparr>) else (False, p1))
           else (False, p))
      | TagClosingSlash \<Rightarrow>
          (if isWhitespace c then (True, p)
           else if c \<in> {CHR ''>'', CHR ''<'', CHR ''/''} then (False, p)
           else (True, p\<lparr>ps_tag := ps_tag p @ [c], ps_state := TagClosing\<rparr>))
      | TagClosing \<Rightarrow>
          (if c \<in> {CHR ''<'', CHR ''/'', CHR ''!'', CHR ''?'', CHR ''&''} then (False, p)
           else if c = CHR '':'' then tag_colon p
           else if c = CHR ''>'' then
             (case closeTag p of (ok, p1) \<Rightarrow> if ok then (True, p1\<lparr>ps_state := Initial\<rparr>) else (False, p1))
           else (True, p\<lparr>ps_tag := ps_tag p @ [c]\<rparr>))
      | _ \<Rightarrow> (True, p))"

definition parse_attrib_char :: "char \<Rightarrow> parser \<Rightarrow> bool \<times> parser" where
  "parse_attrib_char c p =
     (case ps_state p of
        TagNameComplete \<Rightarrow>
          (if isWhitespace c then (True, p)
           else if c \<in> {CHR ''<'', CHR ''!'', CHR ''&''} then (False, p)
           else if c = CHR ''/'' then (True, p\<lparr>ps_state := TagOpeningSlash\<rparr>)
           else if c = CHR ''>'' then tag_end p
           else if c = CHR ''?'' then tag_question p
           else (True, p\<lparr>ps_attrib := ps_attrib p @ [c], ps_state := TagAttribute\<rparr>))
      | TagAttribute \<Rightarrow>
          (if isWhitespace c then (True, p\<lparr>ps_state := TagAttributeComplete\<rparr>)
           else if c \<in> {CHR ''<'', CHR ''/'', CHR ''>'', CHR ''?'', CHR ''!'', CHR ''&''} then (False, p)
           else if c = CHR ''='' then (True, p\<lparr>ps_state := TagAttributeEqual\<rparr>)
           else if c = CHR '':'' then
             (if \<not> ps_haveAttribPrefix p \<and> ps_attrib p \<noteq> XMLNS
              then (True, p\<lparr>ps_haveAttribPrefix := True, ps_attribPrefix := ps_attrib p, ps_attrib := ''''\<rparr>)
              else if ps_attrib p = XMLNS then (True, p\<lparr>ps_attribIsXmlns := True, ps_attrib := ''''\<rparr>)
              else (False, p))
           else (True, p\<lparr>ps_attrib := ps_attrib p @ [c]\<rparr>))
      | TagAttributeComplete \<Rightarrow>
          (if isWhitespace c then (True, p)
           else if c = CHR ''='' then (True, p\<lparr>ps_state := TagAttributeEqual\<rparr>) else (False, p))
      | _ \<Rightarrow> (True, p))"

definition parse_value_char :: "char \<Rightarrow> parser \<Rightarrow> bool \<times> parser" where
  "parse_value_char c p =
     (case ps_state p of
        TagAttributeEqual \<Rightarrow>
          (if isWhitespace c then (True, p)
           else if c = CHR 0x22 then (True, p\<lparr>ps_quote := True, ps_state := TagAttributeValue\<rparr>)
           else if c = CHR 0x27 then (True, p\<lparr>ps_state := TagAttributeValue\<rparr>)
           else (False, p))
      | TagAttributeValue \<Rightarrow>
          (if c = CHR ''<'' then (False, p)
           else if c = CHR 0x27 \<and> ps_quote p then (True, p\<lparr>ps_value := ps_value p @ [c]\<rparr>)
           else if c = CHR 0x27 \<or> c = CHR 0x22
             then (True, (ps_addAttribute p)\<lparr>ps_state := TagNameAlmostComplete, ps_quote := False\<rparr>)
           else (True, p\<lparr>ps_value := ps_value p @ [c]\<rparr>))
      | TagNameAlmostComplete \<Rightarrow>
          (if isWhitespace c then (True, p\<lparr>ps_state := TagNameComplete\<rparr>)
           else if c = CHR ''/'' then (True, p\<lparr>ps_state := TagOpeningSlash\<rparr>)
           else if c = CHR ''>'' then tag_end p
           else if c = CHR ''?'' then tag_question p
           else (False, p))
      | _ \<Rightarrow> (True, p))"

definition parse_char :: "char \<Rightarrow> parser \<Rightarrow> bool \<times> parser" where
  "parse_char c p =
     (case ps_state p of
        Initial \<Rightarrow>
          (let p = p\<lparr>ps_tag := ''''\<rparr> in
           if isWhitespace c then (True, p)
           else if c = CHR ''<'' then (True, p\<lparr>ps_state := TagOpening\<rparr>)
           else if ps_stack p \<noteq> [] then (True, p\<lparr>ps_cdata := ps_cdata p @ [c], ps_state := TagInside\<rparr>)
           else (True, p))
      | TagOpening \<Rightarrow>
          (if isWhitespace c then (True, p)
           else if c \<in> {CHR ''<'', CHR ''>'', CHR ''&''} then (False, p)
           else if c = CHR ''/'' then (True, p\<lparr>ps_state := TagClosingSlash\<rparr>)
           else if c = CHR ''?'' then (True, p\<lparr>ps_state := TagNameCollect, ps_preamble := 1\<rparr>)
           else (True, p\<lparr>ps_tag := ps_tag p @ [c], ps_state := TagNameCollect\<rparr>))
      | TagCDATASection \<Rightarrow> (True, p\<lparr>ps_cdata := ps_cdata p @ [c]\<rparr>)
      | TagNameCollect \<Rightarrow>
          (if isWhitespace c then (True, p\<lparr>ps_state := TagNameComplete\<rparr>)
           else if c \<in> {CHR ''<'', CHR ''?'', CHR ''!'', CHR ''&''} then (False, p)
           else if c = CHR ''/'' then (True, p\<lparr>ps_state := TagOpeningSlash\<rparr>)
           else if c = CHR ''>'' then (True, (addTag p)\<lparr>ps_state := TagInside\<rparr>)
           else if c = CHR '':'' then tag_colon p
           else (True, p\<lparr>ps_tag := ps_tag p @ [c]\<rparr>))
      | TagInside \<Rightarrow>
          (let p = p\<lparr>ps_tag := ''''\<rparr> in
           if c = CHR ''<'' then (True, (ps_addCData p)\<lparr>ps_state := TagOpening\<rparr>)
           else (True, p\<lparr>ps_cdata := ps_cdata p @ [c]\<rparr>))
      | st \<Rightarrow>
          if st \<in> {TagOpeningSlash, TagClosingSlash, TagClosing} then parse_close_char c p
          else if st \<in> {TagNameComplete, TagAttribute, TagAttributeComplete} then parse_attrib_char c p
          else parse_value_char c p)"

lemmas parse_char_defs = parse_char_def parse_close_char_def parse_attrib_char_def parse_value_char_def

section \<open>References\<close>

definition digit_value :: "char \<Rightarrow> nat option" where
  "digit_value c = (let n = (of_char c :: nat) in
     if 48 \<le> n \<and> n \<le> 57 then Some (n - 48)
     else if 97 \<le> n \<and> n \<le> 122 then Some (n - 87)
     else if 65 \<le> n \<and> n \<le> 90 then Some (n - 55) else None)"

definition is_digit_of :: "nat \<Rightarrow> char \<Rightarrow> bool" where
  "is_digit_of base c = (case digit_value c of None \<Rightarrow> False | Some d \<Rightarrow> d < base)"

fun read_digits :: "nat \<Rightarrow> nat \<Rightarrow> string \<Rightarrow> nat \<times> string" where
  "read_digits base acc [] = (acc, [])"
| "read_digits base acc (c # cs) =
     (if is_digit_of base c then read_digits base (acc * base + the (digit_value c)) cs else (acc, c # cs))"

definition is_space :: "char \<Rightarrow> bool" where
  "is_space c = (let n = (of_char c :: nat) in n = 32 \<or> (9 \<le> n \<and> n \<le> 13))"

definition strip_sign :: "string \<Rightarrow> bool \<times> string" where
  "strip_sign s =
     (case s of [] \<Rightarrow> (False, [])
      | c # cs \<Rightarrow> if c = CHR ''-'' then (True, cs) else if c = CHR ''+'' then (False, cs) else (False, s))"

definition strip_hex :: "string \<Rightarrow> string" where
  "strip_hex s =
     (case s of
        z # x # d # cs \<Rightarrow>
          if z = CHR ''0'' \<and> (x = CHR ''x'' \<or> x = CHR ''X'') \<and> is_digit_of 16 d then d # cs else s
      | _ \<Rightarrow> s)"

text \<open>\<open>strtol\<close> of the C library: the value and what is left; all of it when there is no number.\<close>

definition strtol :: "nat \<Rightarrow> string \<Rightarrow> int \<times> string" where
  "strtol base s =
     (let (neg, s2) = strip_sign (dropWhile is_space s);
          s3 = (if base = 16 then strip_hex s2 else s2)
      in case s3 of
           [] \<Rightarrow> (0, s)
         | c # _ \<Rightarrow>
             if is_digit_of base c
             then (case read_digits base 0 s3 of (n, rest) \<Rightarrow> (if neg then - int n else int n, rest))
             else (0, s))"

text \<open>The bytes of a character by its number; \<^const>\<open>None\<close> for those the code rejects.\<close>

definition utf8_of :: "nat \<Rightarrow> string option" where
  "utf8_of v =
     (if v = 0x9 \<or> v = 0xA \<or> v = 0xD \<or> (0x20 \<le> v \<and> v \<le> 0x7F) then Some [char_of v]
      else if 0x80 \<le> v \<and> v \<le> 0x7FF then Some [char_of (192 + v div 64), char_of (128 + v mod 64)]
      else if (0x800 \<le> v \<and> v \<le> 0xD7FF) \<or> (0xE000 \<le> v \<and> v \<le> 0xFFFD)
        then Some [char_of (224 + v div 4096), char_of (128 + v div 64 mod 64), char_of (128 + v mod 64)]
      else if 0x100000 \<le> v \<and> v < 0x10FFFF
        then Some [char_of (240 + v div 262144), char_of (128 + v div 4096 mod 64),
          char_of (128 + v div 64 mod 64), char_of (128 + v mod 64)]
      else None)"

datatype decode_state = DecodeValid string nat | DecodeInvalid | DecodeInsufficient

text \<open>\<open>decode\<close> on the data from the \<open>&\<close> on, with the text it stands for and the number of characters up to the \<open>;\<close>.\<close>

definition decode_number :: "string \<Rightarrow> nat \<Rightarrow> decode_state" where
  "decode_number data diff =
     (let hex = (data ! 2 = CHR ''x'' \<or> data ! 2 = CHR ''X'');
          (val, rest) = (if hex then strtol 16 (drop 3 data) else strtol 10 (drop 2 data))
      in if take 1 rest \<noteq> '';'' \<or> val < 0 then DecodeInvalid
         else case utf8_of (nat val) of Some rep \<Rightarrow> DecodeValid rep diff | None \<Rightarrow> DecodeInvalid)"

definition decode :: "string \<Rightarrow> decode_state" where
  "decode data =
     (case sfind '';'' data of
        None \<Rightarrow> DecodeInsufficient
      | Some diff \<Rightarrow>
          if diff < 3 \<or> 9 < diff then DecodeInvalid
          else if data ! 1 = CHR ''#'' then decode_number data diff
          else if data ! 1 = CHR ''l'' then
            (if diff = 3 \<and> data ! 2 = CHR ''t'' then DecodeValid ''<'' diff else DecodeInvalid)
          else if data ! 1 = CHR ''g'' then
            (if diff = 3 \<and> data ! 2 = CHR ''t'' then DecodeValid ''>'' diff else DecodeInvalid)
          else if data ! 1 = CHR ''a'' then
            (if diff = 5 \<and> take 5 (drop 1 data) = ''apos;'' then DecodeValid [CHR 0x27] diff
             else if diff = 4 \<and> take 4 (drop 1 data) = ''amp;'' then DecodeValid ''&'' diff else DecodeInvalid)
          else if data ! 1 = CHR ''q'' then
            (if diff = 5 \<and> take 5 (drop 1 data) = ''quot;'' then DecodeValid [CHR 0x22] diff else DecodeInvalid)
          else DecodeInvalid)"

section \<open>Feeding\<close>

text \<open>
  \<open>feed\<close>: -1 when all was taken (the parser may keep an incomplete reference or mark for the next
  packet), otherwise the position of the error.
\<close>

function feed_loop :: "nat \<Rightarrow> string \<Rightarrow> parser \<Rightarrow> int \<times> parser" where
  "feed_loop i [] p = (- 1, p)"
| "feed_loop i (c # cs) p =
     (if \<not> isValid c then (int i, ps_cleanup p)
      else if ps_state p = TagOpening \<and> c = CHR ''!'' then
        (if 8 \<le> length (c # cs) then
           (if prefix ''![CDATA['' (c # cs) then feed_loop (i + 8) (drop 7 cs) (p\<lparr>ps_state := TagCDATASection\<rparr>)
            else (int i, ps_cleanup p))
         else (- 1, p\<lparr>ps_backBuffer := c # cs\<rparr>))
      else if ps_state p = TagCDATASection \<and> c = CHR '']'' then
        (if 3 \<le> length (c # cs) then
           (if prefix '']]>'' (c # cs) then feed_loop (i + 3) (drop 2 cs) (p\<lparr>ps_state := TagInside\<rparr>)
            else feed_loop (i + 1) cs (p\<lparr>ps_cdata := ps_cdata p @ [c]\<rparr>))
         else (- 1, p\<lparr>ps_backBuffer := c # cs\<rparr>))
      else if (ps_state p = TagInside \<or> ps_state p = TagAttributeValue) \<and> c = CHR ''&'' then
        (let p = (if ps_state p = TagInside then p\<lparr>ps_tag := ''''\<rparr> else p) in
         case decode (c # cs) of
           DecodeValid rep diff \<Rightarrow>
             feed_loop (i + diff + 1) (drop diff cs)
               (if ps_state p = TagInside then p\<lparr>ps_cdata := ps_cdata p @ rep\<rparr> else p\<lparr>ps_value := ps_value p @ rep\<rparr>)
         | DecodeInvalid \<Rightarrow> (int i, ps_cleanup p)
         | DecodeInsufficient \<Rightarrow> (- 1, p\<lparr>ps_backBuffer := c # cs\<rparr>))
      else
        (case parse_char c p of
           (True, p') \<Rightarrow> feed_loop (i + 1) cs p'
         | (False, p') \<Rightarrow> (int i, ps_cleanup p')))"
  by pat_completeness auto
termination by (relation "measure (\<lambda>(i, s, p). length s)") auto

definition feed :: "string \<Rightarrow> parser \<Rightarrow> int \<times> parser" where
  "feed data p = feed_loop 0 (ps_backBuffer p @ data) (p\<lparr>ps_backBuffer := ''''\<rparr>)"

declare feed_loop.simps [simp del]

end
