(* ===== verification/XmlPackets.thy ===== *)
theory XmlPackets
  imports GlooxXml
begin

text \<open>
  What the gloox parser does with a text that arrives in pieces: one run over all of it.
\<close>

section \<open>Single steps\<close>

lemma isValid_True [simp]: "isValid c"
  by (auto simp: isValid_def Let_def)

lemma feed_nil [simp]: "feed_loop i [] p = (- 1, p)"
  by (simp add: feed_loop.simps)

text \<open>The characters that need those behind them.\<close>

definition looks_ahead :: "char \<Rightarrow> parser \<Rightarrow> bool" where
  "looks_ahead c p \<longleftrightarrow>
     ps_state p = TagOpening \<and> c = CHR ''!'' \<or> ps_state p = TagCDATASection \<and> c = CHR '']'' \<or>
     (ps_state p = TagInside \<or> ps_state p = TagAttributeValue) \<and> c = CHR ''&''"

lemma feed_char:
  "\<not> looks_ahead c p \<Longrightarrow> feed_loop i (c # cs) p =
     (case parse_char c p of (True, p') \<Rightarrow> feed_loop (i + 1) cs p' | (False, p') \<Rightarrow> (int i, ps_cleanup p'))"
  by (auto simp: feed_loop.simps looks_ahead_def)

lemma feed_step:
  "\<not> looks_ahead c p \<Longrightarrow> parse_char c p = (True, p') \<Longrightarrow> feed_loop i (c # cs) p = feed_loop (Suc i) cs p'"
  by (simp add: feed_char)

section \<open>Packets\<close>

lemma read_digits_append:
  "\<exists>c \<in> set s. \<not> is_digit_of base c \<Longrightarrow>
     read_digits base acc (s @ t) = (fst (read_digits base acc s), snd (read_digits base acc s) @ t)"
  by (induction s arbitrary: acc) auto

lemma semicolon: "\<not> is_space CHR '';''" "\<not> is_digit_of base CHR '';''"
  by (simp_all add: is_space_def is_digit_of_def digit_value_def)

lemma strip_sign_append:
  assumes "s \<noteq> []"
  shows "strip_sign (s @ t) = (fst (strip_sign s), snd (strip_sign s) @ t)"
  using assms by (cases s) (auto simp: strip_sign_def)

lemma strip_sign_keeps: "CHR '';'' \<in> set s \<Longrightarrow> CHR '';'' \<in> set (snd (strip_sign s))"
  by (auto simp: strip_sign_def split: list.split)

lemma strip_hex_append: "CHR '';'' \<in> set s \<Longrightarrow> strip_hex (s @ t) = strip_hex s @ t"
  by (cases s rule: remdups_adj.cases; auto simp: strip_hex_def split: list.split)

lemma strip_hex_keeps: "CHR '';'' \<in> set s \<Longrightarrow> CHR '';'' \<in> set (strip_hex s)"
  by (auto simp: strip_hex_def is_digit_of_def digit_value_def split: list.split)

lemma strtol_append:
  assumes "CHR '';'' \<in> set s"
  shows "strtol base (s @ t) = (fst (strtol base s), snd (strtol base s) @ t)"
proof -
  let ?s1 = "dropWhile is_space s"
  have d: "dropWhile is_space (s @ t) = ?s1 @ t" using assms semicolon(1) by (auto intro: dropWhile_append1)
  have "set ?s1 \<union> set (takeWhile is_space s) = set s" by (metis Un_commute set_append takeWhile_dropWhile_id)
  then have m1: "CHR '';'' \<in> set ?s1" using assms semicolon(1) by (auto dest: set_takeWhileD)
  obtain neg s2 where s2: "strip_sign ?s1 = (neg, s2)" by (cases "strip_sign ?s1")
  have m2: "CHR '';'' \<in> set s2" using strip_sign_keeps [OF m1] s2 by simp
  have a2: "strip_sign (?s1 @ t) = (neg, s2 @ t)" using strip_sign_append [of ?s1 t] m1 s2 by fastforce
  let ?s3 = "if base = 16 then strip_hex s2 else s2"
  have m3: "CHR '';'' \<in> set ?s3" using strip_hex_keeps [OF m2] m2 by simp
  have a3: "(if base = 16 then strip_hex (s2 @ t) else s2 @ t) = ?s3 @ t" using strip_hex_append [OF m2] by simp
  have r: "read_digits base 0 (?s3 @ t) = (fst (read_digits base 0 ?s3), snd (read_digits base 0 ?s3) @ t)"
    using m3 semicolon(2) by (intro read_digits_append) blast
  obtain c cs where c: "?s3 = c # cs" using m3 by (cases ?s3) auto
  show ?thesis
    using r unfolding strtol_def d a2 s2 Let_def prod.case a3 c
    by (cases "is_digit_of base c") (simp_all add: case_prod_beta)
qed

lemma read_digits_keeps: "CHR '';'' \<in> set s \<Longrightarrow> CHR '';'' \<in> set (snd (read_digits base acc s))"
  using semicolon(2) [of base] by (induction s arbitrary: acc) auto

lemma strtol_rest: "CHR '';'' \<in> set s \<Longrightarrow> snd (strtol base s) \<noteq> []"
proof -
  assume m: "CHR '';'' \<in> set s"
  let ?s3 = "if base = 16 then strip_hex (snd (strip_sign (dropWhile is_space s))) else snd (strip_sign (dropWhile is_space s))"
  have "set (dropWhile is_space s) \<union> set (takeWhile is_space s) = set s" by (metis Un_commute set_append takeWhile_dropWhile_id)
  then have "CHR '';'' \<in> set (dropWhile is_space s)" using m semicolon(1) by (auto dest: set_takeWhileD)
  then have "CHR '';'' \<in> set ?s3" using strip_sign_keeps strip_hex_keeps by simp
  from read_digits_keeps [OF this, of base 0] m show ?thesis
    unfolding strtol_def Let_def case_prod_beta by (auto split: list.split)
qed

lemma take_1_append: "xs \<noteq> [] \<Longrightarrow> take (Suc 0) (xs @ t) = take (Suc 0) xs"
  by (cases xs) simp_all

lemma sfind_semicolon: "sfind '';'' s = Some n \<Longrightarrow> n < length s \<and> s ! n = CHR '';'' \<and> sfind '';'' (s @ t) = Some n"
  by (induction s arbitrary: n) (auto split: if_splits)

lemma decode_append:
  assumes "decode s \<noteq> DecodeInsufficient"
  shows "decode (s @ t) = decode s"
proof -
  obtain diff where f: "sfind '';'' s = Some diff" using assms by (auto simp: decode_def split: option.splits)
  from sfind_semicolon [OF f, of t] have n: "diff < length s" "s ! diff = CHR '';''" "sfind '';'' (s @ t) = Some diff" by auto
  show ?thesis
  proof (cases "diff < 3 \<or> 9 < diff")
    case True
    with f n(3) show ?thesis by (simp add: decode_def)
  next
    case False
    then have i: "(s @ t) ! 1 = s ! 1" "(s @ t) ! 2 = s ! 2" using n(1) by (simp_all add: nth_append)
    have k: "take k (drop 1 (s @ t)) = take k (drop 1 s)" if "k \<le> diff" for k using n(1) that by simp
    have "CHR '';'' \<in> set (drop k s)" if "k \<le> diff" for k
      using n(1,2) that by (auto simp: in_set_conv_nth intro!: exI [of _ "diff - k"])
    then have m: "CHR '';'' \<in> set (drop 2 s)" "CHR '';'' \<in> set (drop 3 s)" using False by auto
    have "drop 2 (s @ t) = drop 2 s @ t" "drop 3 (s @ t) = drop 3 s @ t" using n(1) False by simp_all
    with i m have "decode_number (s @ t) diff = decode_number s diff"
      by (auto simp: decode_number_def strtol_append strtol_rest take_1_append Let_def case_prod_beta simp del: take_append)
    with f n(3) i k False show ?thesis by (auto simp: decode_def simp del: take_append drop_append)
  qed
qed

lemma ps_simps [simp]:
  "ps_backBuffer (ps_cleanup p) = ps_backBuffer p" "ps_backBuffer (addTag p) = ps_backBuffer p"
  "ps_backBuffer (ps_addAttribute p) = ps_backBuffer p" "ps_backBuffer (ps_addCData p) = ps_backBuffer p"
  "ps_backBuffer (snd (closeTag p)) = ps_backBuffer p"
  by (simp_all add: ps_cleanup_def addTag_def streamEvent_def ps_addAttribute_def ps_addCData_def closeTag_def Let_def
      split: list.split)

lemma parse_char_buffer: "ps_backBuffer (snd (parse_char c p)) = ps_backBuffer p"
  by (cases "ps_state p")
    (simp_all add: parse_char_defs tag_colon_def tag_end_def tag_question_def Let_def case_prod_beta)

lemma decode_valid: "decode s = DecodeValid rep diff \<Longrightarrow> diff < length s"
proof -
  assume d: "decode s = DecodeValid rep diff"
  then obtain n where n: "sfind '';'' s = Some n" by (auto simp: decode_def split: option.splits)
  with d have "n = diff"
    by (auto simp: decode_def decode_number_def Let_def case_prod_beta split: if_splits option.splits)
  with sfind_semicolon [OF n] show "diff < length s" by simp
qed

lemma feed_loop_retag: "ps_state p = TagInside \<Longrightarrow> feed_loop i (c # cs) (p\<lparr>ps_tag := ''''\<rparr>) = feed_loop i (c # cs) p"
  by (subst (1 2) feed_loop.simps) (simp add: parse_char_defs Let_def)

lemma no_buffer: "ps_backBuffer p = '''' \<Longrightarrow> p\<lparr>ps_backBuffer := ''''\<rparr> = p"
  by (cases p) simp

text \<open>What the loop leaves when it comes to the end of its data without an error.\<close>

definition resumes :: "nat \<Rightarrow> string \<Rightarrow> parser \<Rightarrow> string \<Rightarrow> parser \<Rightarrow> bool" where
  "resumes i s p t p' \<longleftrightarrow> (\<exists>j. feed_loop i (s @ t) p = feed_loop j (ps_backBuffer p' @ t) (p'\<lparr>ps_backBuffer := ''''\<rparr>))"

lemma resumes_stop: "ps_backBuffer p = '''' \<Longrightarrow> resumes i s p t (p\<lparr>ps_backBuffer := s\<rparr>)"
  unfolding resumes_def by (intro exI [of _ i]) (simp add: no_buffer)

lemma resumes_step: "resumes j s' q t p' \<Longrightarrow> feed_loop i (s @ t) p = feed_loop j (s' @ t) q \<Longrightarrow> resumes i s p t p'"
  by (simp add: resumes_def)

lemma resumes_cdata:
  assumes IH: "\<And>i s p. length s < Suc (length cs) \<Longrightarrow> feed_loop i s p = (- 1, p') \<Longrightarrow> ps_backBuffer p = '''' \<Longrightarrow> resumes i s p t p'"
    and prem: "feed_loop i (c # cs) p = (- 1, p')" and b: "ps_backBuffer p = ''''"
    and cdata: "ps_state p = TagOpening \<and> c = CHR ''!''"
  shows "resumes i (c # cs) p t p'"
proof (cases "8 \<le> length (c # cs)")
  case False
  with prem cdata have "p' = p\<lparr>ps_backBuffer := c # cs\<rparr>" by (simp add: feed_loop.simps)
  with resumes_stop [OF b] show ?thesis by simp
next
  case True
  with prem cdata have m: "prefix ''![CDATA['' (c # cs)"
    and "feed_loop (i + 8) (drop 7 cs) (p\<lparr>ps_state := TagCDATASection\<rparr>) = (- 1, p')"
    by (auto simp: feed_loop.simps(2) [of i] split: if_splits)
  with b True have "resumes (i + 8) (drop 7 cs) (p\<lparr>ps_state := TagCDATASection\<rparr>) t p'" by (intro IH) auto
  moreover have n: "prefix ''![CDATA['' (c # cs @ t)" using m by (metis append_Cons prefix_prefix)
  ultimately show ?thesis
    by (elim resumes_step) (use cdata True n in \<open>simp add: feed_loop.simps(2) [of i]\<close>)
qed

lemma resumes_close:
  assumes IH: "\<And>i s p. length s < Suc (length cs) \<Longrightarrow> feed_loop i s p = (- 1, p') \<Longrightarrow> ps_backBuffer p = '''' \<Longrightarrow> resumes i s p t p'"
    and prem: "feed_loop i (c # cs) p = (- 1, p')" and b: "ps_backBuffer p = ''''"
    and close: "ps_state p = TagCDATASection \<and> c = CHR '']''"
  shows "resumes i (c # cs) p t p'"
proof (cases "3 \<le> length (c # cs)")
  case False
  with prem close have "p' = p\<lparr>ps_backBuffer := c # cs\<rparr>" by (simp add: feed_loop.simps)
  with resumes_stop [OF b] show ?thesis by simp
next
  case True
  then obtain x y r where r: "cs = x # y # r" by (cases cs rule: remdups_adj.cases) auto
  show ?thesis
  proof (cases "x = CHR '']'' \<and> y = CHR ''>''")
    case yes: True
    with prem close r have "feed_loop (i + 3) r (p\<lparr>ps_state := TagInside\<rparr>) = (- 1, p')" by (simp add: feed_loop.simps(2) [of i])
    with b r have "resumes (i + 3) r (p\<lparr>ps_state := TagInside\<rparr>) t p'" by (intro IH) auto
    then show ?thesis by (rule resumes_step) (use close r yes in \<open>simp add: feed_loop.simps(2) [of i]\<close>)
  next
    case no: False
    with prem close r have "feed_loop (i + 1) cs (p\<lparr>ps_cdata := ps_cdata p @ [c]\<rparr>) = (- 1, p')"
      by (auto simp: feed_loop.simps(2) [of i])
    with b have "resumes (i + 1) cs (p\<lparr>ps_cdata := ps_cdata p @ [c]\<rparr>) t p'" by (intro IH) auto
    then show ?thesis by (rule resumes_step) (use close r no in \<open>auto simp: feed_loop.simps(2) [of i]\<close>)
  qed
qed

lemma resumes_ref:
  assumes IH: "\<And>i s p. length s < Suc (length cs) \<Longrightarrow> feed_loop i s p = (- 1, p') \<Longrightarrow> ps_backBuffer p = '''' \<Longrightarrow> resumes i s p t p'"
    and prem: "feed_loop i (c # cs) p = (- 1, p')" and b: "ps_backBuffer p = ''''"
    and ref: "(ps_state p = TagInside \<or> ps_state p = TagAttributeValue) \<and> c = CHR ''&''"
  shows "resumes i (c # cs) p t p'"
proof (cases "decode (c # cs)")
  case DecodeInvalid
  with prem ref show ?thesis by (auto simp: feed_loop.simps(2) [of i] Let_def)
next
  case DecodeInsufficient
  with prem ref have p': "p' = (if ps_state p = TagInside then p\<lparr>ps_tag := ''''\<rparr> else p)\<lparr>ps_backBuffer := c # cs\<rparr>"
    by (auto simp: feed_loop.simps(2) [of i] Let_def)
  show ?thesis
  proof (cases "ps_state p = TagInside")
    case True
    have "(p\<lparr>ps_tag := ''''\<rparr>)\<lparr>ps_backBuffer := ''''\<rparr> = p\<lparr>ps_tag := ''''\<rparr>" using b by (cases p) simp
    with True p' feed_loop_retag [of p i c "cs @ t"] show ?thesis
      by (auto simp: resumes_def intro!: exI [of _ i])
  qed (use p' resumes_stop [OF b, of i "c # cs" t] in simp)
next
  case (DecodeValid rep diff)
  let ?q = "if ps_state p = TagInside then p\<lparr>ps_tag := '''', ps_cdata := ps_cdata p @ rep\<rparr> else p\<lparr>ps_value := ps_value p @ rep\<rparr>"
  have l: "diff \<le> length cs" using decode_valid [OF DecodeValid] by simp
  have a: "decode (c # cs @ t) = DecodeValid rep diff" using decode_append [of "c # cs" t] DecodeValid by simp
  from prem ref DecodeValid have "feed_loop (i + diff + 1) (drop diff cs) ?q = (- 1, p')"
    by (auto simp: feed_loop.simps(2) [of i] Let_def)
  with b have "resumes (i + diff + 1) (drop diff cs) ?q t p'" by (intro IH) auto
  then show ?thesis by (rule resumes_step) (use ref a l in \<open>auto simp: feed_loop.simps(2) [of i] Let_def\<close>)
qed

lemma feed_loop_append:
  assumes "feed_loop i s p = (- 1, p')" and "ps_backBuffer p = ''''"
  shows "resumes i s p t p'"
  using assms
proof (induction "length s" arbitrary: i s p rule: less_induct)
  case less
  show ?case
  proof (cases s)
    case Nil
    with less.prems show ?thesis by (simp add: resumes_def no_buffer) blast
  next
    case (Cons c cs)
    have IH: "resumes i s p t p'"
      if "length s < Suc (length cs)" "feed_loop i s p = (- 1, p')" "ps_backBuffer p = ''''" for i s p
      using less.hyps [of s i p] that Cons by simp
    note prem = less.prems(1) [unfolded Cons]
    show ?thesis
    proof (cases "looks_ahead c p")
      case True
      with resumes_cdata [OF IH prem less.prems(2)] resumes_close [OF IH prem less.prems(2)] resumes_ref [OF IH prem less.prems(2)]
      show ?thesis unfolding Cons looks_ahead_def by blast
    next
      case plain: False
      from prem have f: "parse_char c p = (True, snd (parse_char c p))" "feed_loop (Suc i) cs (snd (parse_char c p)) = (- 1, p')"
        unfolding feed_char [OF plain] by (auto split: prod.splits bool.splits)
      with parse_char_buffer [of c p] less.prems(2) have "resumes (Suc i) cs (snd (parse_char c p)) t p'"
        by (intro IH) auto
      then show ?thesis unfolding Cons by (rule resumes_step) (use feed_step [OF plain f(1)] in simp)
    qed
  qed
qed

text \<open>An error is found where it is, whatever follows.\<close>

lemma feed_loop_error:
  assumes "feed_loop i s p = (k, p')" and "k \<noteq> - 1"
  shows "feed_loop i (s @ t) p = (k, p')"
  using assms
proof (induction i s p rule: feed_loop.induct)
  case (1 i p)
  then show ?case by simp
next
  case (2 i c cs p)
  consider (cdata) "ps_state p = TagOpening \<and> c = CHR ''!''" | (close) "ps_state p = TagCDATASection \<and> c = CHR '']''"
    | (ref) "(ps_state p = TagInside \<or> ps_state p = TagAttributeValue) \<and> c = CHR ''&''" | (plain) "\<not> looks_ahead c p"
    by (auto simp: looks_ahead_def)
  then show ?case
  proof cases
    case cdata
    with "2.prems" have l: "8 \<le> length (c # cs)" by (auto simp: feed_loop.simps(2) [of i] split: if_splits)
    show ?thesis
    proof (cases "prefix ''![CDATA['' (c # cs)")
      case True
      then have m: "prefix ''![CDATA['' (c # cs @ t)" by (metis append_Cons prefix_prefix)
      with "2.IH"(1) "2.prems" cdata l True show ?thesis by (simp add: feed_loop.simps(2) [of i])
    next
      case False
      have "prefix ''![CDATA['' (c # cs)" if "prefix ''![CDATA['' ((c # cs) @ t)"
        by (rule prefix_length_prefix [OF that, of "c # cs"]) (use l in auto)
      with False have m: "\<not> prefix ''![CDATA['' (c # cs @ t)" by auto
      with "2.prems" cdata l False show ?thesis by (simp add: feed_loop.simps(2) [of i])
    qed
  next
    case close
    with "2.prems" have l: "3 \<le> length (c # cs)" by (auto simp: feed_loop.simps(2) [of i] split: if_splits)
    then obtain x y r where r: "cs = x # y # r" by (cases cs rule: remdups_adj.cases) auto
    with "2.IH"(2,3) "2.prems" close show ?thesis
      by (cases "x = CHR '']'' \<and> y = CHR ''>''") (auto simp: feed_loop.simps(2) [of i])
  next
    case ref
    show ?thesis
    proof (cases "decode (c # cs)")
      case DecodeInsufficient
      with "2.prems" ref show ?thesis by (auto simp: feed_loop.simps(2) [of i] Let_def)
    next
      case DecodeInvalid
      with decode_append [of "c # cs" t] "2.prems" ref show ?thesis by (auto simp: feed_loop.simps(2) [of i] Let_def)
    next
      case (DecodeValid rep diff)
      have l: "diff \<le> length cs" using decode_valid [OF DecodeValid] by simp
      with DecodeValid decode_append [of "c # cs" t] "2.prems" "2.IH"(4) ref show ?thesis
        by (auto simp: feed_loop.simps(2) [of i] Let_def)
    qed
  next
    case plain
    then show ?thesis using "2.prems" "2.IH"(5)
      unfolding append_Cons feed_char [OF plain] by (auto simp: looks_ahead_def split: prod.splits bool.splits)
  qed
qed

text \<open>The position only counts.\<close>

definition same_end :: "int \<times> parser \<Rightarrow> int \<times> parser \<Rightarrow> bool" where
  "same_end x y \<longleftrightarrow> snd x = snd y \<and> (fst x = - 1 \<longleftrightarrow> fst y = - 1)"

lemma same_end_simps [simp]: "same_end x x" "same_end (int i, p) (int j, p)"
  by (simp_all add: same_end_def)

lemma feed_loop_index: "same_end (feed_loop i s p) (feed_loop j s p)"
proof (induction i s p arbitrary: j rule: feed_loop.induct)
  case (1 i p)
  then show ?case by simp
next
  case (2 i c cs p)
  note loops = feed_loop.simps(2) [of i] feed_loop.simps(2) [of j]
  show ?case
  proof (cases "looks_ahead c p")
    case False
    with 2(5) show ?thesis by (auto simp: feed_char looks_ahead_def split: prod.split bool.split)
  next
    case True
    then consider (cdata) "ps_state p = TagOpening" "c = CHR ''!''" | (close) "ps_state p = TagCDATASection" "c = CHR '']''"
      | (ref) "ps_state p = TagInside \<or> ps_state p = TagAttributeValue" "c = CHR ''&''"
      by (auto simp: looks_ahead_def)
    then show ?thesis
    proof cases
      case cdata
      with 2(1) show ?thesis by (simp add: loops)
    next
      case close
      with 2(2,3) show ?thesis by (simp add: loops)
    next
      case ref
      with 2(4) show ?thesis by (cases "decode (c # cs)") (auto simp: loops Let_def)
    qed
  qed
qed

section \<open>feed\<close>

text \<open>What the client does with the packets of a connection: the first error ends it (\<open>ClientBase::parse\<close>).\<close>

fun feed_packets :: "string list \<Rightarrow> parser \<Rightarrow> bool \<times> parser" where
  "feed_packets [] p = (True, p)"
| "feed_packets (d # ds) p = (case feed d p of (k, p') \<Rightarrow> if k = - 1 then feed_packets ds p' else (False, p'))"

lemma feed_append:
  "feed a p = (- 1, p') \<Longrightarrow> same_end (feed (a @ b) p) (feed b p')"
  "feed a p = (k, p') \<Longrightarrow> k \<noteq> - 1 \<Longrightarrow> feed (a @ b) p = (k, p')"
  using feed_loop_append [of 0 "ps_backBuffer p @ a" "p\<lparr>ps_backBuffer := ''''\<rparr>" p' b] feed_loop_index
    feed_loop_error [of 0 "ps_backBuffer p @ a" "p\<lparr>ps_backBuffer := ''''\<rparr>" k p' b]
  by (auto simp: feed_def resumes_def)

lemma packets_joined:
  assumes "ds \<noteq> []"
  shows "feed_packets ds p = (fst (feed (concat ds) p) = - 1, snd (feed (concat ds) p))"
  using assms
proof (induction ds arbitrary: p)
  case (Cons d ds)
  obtain k p' where d: "feed d p = (k, p')" by (cases "feed d p")
  show ?case
  proof (cases "k = - 1")
    case False
    with d feed_append(2) [OF d False, of "concat ds"] show ?thesis by simp
  next
    case True
    show ?thesis
    proof (cases "ds = []")
      case False
      with Cons.IH [OF this, of p'] feed_append(1) [of d p p' "concat ds"] d True show ?thesis
        by (simp add: same_end_def)
    qed (use d True in simp)
  qed
qed simp


text \<open>
  C19. The packets do not matter: fed with the pieces of a text one by one, up to the first that has an error, the
  parser ends as it does when it is fed with all of the text at once, in the same state, with the same stanzas handed on, and with
  an error in the one case just when there is one in the other. What a piece leaves undecided (an
  unfinished entity, the start of a \<open>CDATA\<close> mark or its end) is kept for the next.
\<close>

theorem feed_packets_joined:
  assumes "ds \<noteq> []"
  shows "feed_packets ds p = (fst (feed (concat ds) p) = - 1, snd (feed (concat ds) p))"
  using assms by (rule packets_joined)

theorem feed_packets_joined_witness:
  "feed_packets [''<a>x&a'', ''mp;y'', ''</a><b'', ''/>''] new_parser =
     (True, new_parser\<lparr>ps_handled := [XTag [] ''a'' [] [] [] [TextNode ''x&y''], XTag [] ''b'' [] [] [] []]\<rparr>)"
proof -
  have "feed (concat [''<a>x&a'', ''mp;y'', ''</a><b'', ''/>'']) new_parser =
     (- 1, new_parser\<lparr>ps_handled := [XTag [] ''a'' [] [] [] [TextNode ''x&y''], XTag [] ''b'' [] [] [] []]\<rparr>)" by code_simp
  with feed_packets_joined [of "[''<a>x&a'', ''mp;y'', ''</a><b'', ''/>'']" new_parser] show ?thesis by simp
qed

end
