(* ===== verification/XmlRoundtrip.thy ===== *)
theory XmlRoundtrip
  imports XmlPackets
begin

text \<open>
  What the gloox parser does with the text \<open>Tag::xml\<close> prints: the tags come back, one by one, whatever the
  packets they arrive in. The tags are those a stanza can have: names without the marks of XML, namespaces
  as the attributes declare them, and texts the parser keeps apart.
\<close>

section \<open>Tags that survive\<close>

definition name_char :: "char \<Rightarrow> bool" where
  "name_char c \<longleftrightarrow> valid_xml_char c \<and> \<not> isWhitespace c \<and> c \<notin> set ''<>/?!&:=''"

definition name_ok :: "string \<Rightarrow> bool" where
  "name_ok s \<longleftrightarrow> s \<noteq> [] \<and> list_all name_char s"

definition attr_ok :: "attribute \<Rightarrow> bool" where
  "attr_ok a \<longleftrightarrow> name_ok (at_name a) \<and> checkValidXMLChars (at_value a) \<and>
     (at_prefix a = [] \<or> name_ok (at_prefix a) \<and> at_name a \<noteq> XMLNS)"

text \<open>The namespaces a list of attributes declares.\<close>

definition attr_xmlns :: "attribute list \<Rightarrow> string" where
  "attr_xmlns as = foldl (\<lambda>x a. if at_name a = XMLNS then at_value a else x) '''' as"

definition attr_nss :: "attribute list \<Rightarrow> (string \<times> string) list" where
  "attr_nss as = foldl (\<lambda>m a. if at_prefix a = XMLNS then ns_update (at_name a) (at_value a) m else m) [] as"

text \<open>A text that the parser does not mistake after a child element.\<close>

definition plain_start :: "string \<Rightarrow> bool" where
  "plain_start s \<longleftrightarrow> \<not> isWhitespace (hd s) \<and> escape_char (hd s) = [hd s]"

fun texts_ok :: "bool \<Rightarrow> xnode list \<Rightarrow> bool" where
  "texts_ok after [] = True"
| "texts_ok after (ElemNode t # ns) = texts_ok True ns"
| "texts_ok after (TextNode s # ns) =
     (s \<noteq> [] \<and> checkValidXMLChars s \<and> (after \<longrightarrow> plain_start s) \<and>
      (case ns of TextNode s' # ns' \<Rightarrow> False | _ \<Rightarrow> texts_ok True ns))"

fun tag_ok :: "xtag \<Rightarrow> bool" and node_ok :: "xnode \<Rightarrow> bool" where
  "tag_ok (XTag p n as ns nss nodes) =
     (name_ok n \<and> n \<noteq> ''stream'' \<and> (p = [] \<or> name_ok p) \<and> list_all attr_ok as \<and>
      length (filter (\<lambda>a. at_name a = XMLNS) as) \<le> 1 \<and> ns = attr_xmlns as \<and> nss = attr_nss as \<and>
      texts_ok False nodes \<and> list_all node_ok nodes)"
| "node_ok (ElemNode t) = tag_ok t"
| "node_ok (TextNode s) = True"

definition stanza_ok :: "xtag \<Rightarrow> bool" where
  "stanza_ok t \<longleftrightarrow> tag_ok t \<and> x_prefix t \<noteq> ''stream''"

section \<open>Reading\<close>

definition reads :: "string \<Rightarrow> parser \<Rightarrow> parser \<Rightarrow> bool" where
  "reads s p q \<longleftrightarrow> (\<forall>i rest. \<exists>j. feed_loop i (s @ rest) p = feed_loop j rest q)"

lemma reads_Nil [simp]: "reads [] p p"
  by (auto simp: reads_def)

lemma reads_append: "reads s p q \<Longrightarrow> reads s' q r \<Longrightarrow> reads (s @ s') p r"
  unfolding reads_def append_assoc by metis

lemma reads_char: "\<not> looks_ahead c p \<Longrightarrow> parse_char c p = (True, q) \<Longrightarrow> reads [c] p q"
  unfolding reads_def using feed_step by fastforce

lemma reads_Cons: "\<not> looks_ahead c p \<Longrightarrow> parse_char c p = (True, q) \<Longrightarrow> reads s q r \<Longrightarrow> reads (c # s) p r"
  using reads_append [OF reads_char, of c p q s r] by simp

definition parser_at :: "parser_state \<Rightarrow> xtag list \<Rightarrow> string \<Rightarrow> string \<Rightarrow> string \<Rightarrow> xtag list \<Rightarrow> parser" where
  "parser_at st stack tag cdata pf H = new_parser\<lparr>ps_stack := stack, ps_state := st, ps_tag := tag,
     ps_cdata := cdata, ps_tagPrefix := pf, ps_handled := H\<rparr>"

lemma name_charD:
  "name_char c \<Longrightarrow> \<not> isWhitespace c \<and> c \<noteq> CHR ''<'' \<and> c \<noteq> CHR ''>'' \<and> c \<noteq> CHR ''/'' \<and> c \<noteq> CHR ''?'' \<and>
     c \<noteq> CHR ''!'' \<and> c \<noteq> CHR ''&'' \<and> c \<noteq> CHR '':'' \<and> c \<noteq> CHR ''=''"
  by (simp add: name_char_def)

lemma parse_name_char:
  assumes "name_char c"
  shows "ps_state p = TagNameCollect \<Longrightarrow> parse_char c p = (True, p\<lparr>ps_tag := ps_tag p @ [c]\<rparr>)"
    and "ps_state p = TagClosing \<Longrightarrow> parse_char c p = (True, p\<lparr>ps_tag := ps_tag p @ [c]\<rparr>)"
    and "ps_state p = TagAttribute \<Longrightarrow> parse_char c p = (True, p\<lparr>ps_attrib := ps_attrib p @ [c]\<rparr>)"
  using name_charD [OF assms] by (simp_all add: parse_char_defs)

lemma reads_name:
  "list_all name_char s \<Longrightarrow> ps_state p = TagNameCollect \<or> ps_state p = TagClosing \<Longrightarrow>
     reads s p (p\<lparr>ps_tag := ps_tag p @ s\<rparr>)"
proof (induction s arbitrary: p)
  case (Cons c s)
  then have n: "name_char c" and r: "reads s (p\<lparr>ps_tag := ps_tag p @ [c]\<rparr>) (p\<lparr>ps_tag := ps_tag p @ c # s\<rparr>)"
    using Cons.IH [of "p\<lparr>ps_tag := ps_tag p @ [c]\<rparr>"] by simp_all
  have "parse_char c p = (True, p\<lparr>ps_tag := ps_tag p @ [c]\<rparr>)" using Cons.prems(2) parse_name_char [OF n] by blast
  moreover have "\<not> looks_ahead c p" using Cons.prems(2) by (auto simp: looks_ahead_def)
  ultimately show ?case using reads_Cons r by blast
qed simp

lemma reads_attrib_name:
  "list_all name_char s \<Longrightarrow> ps_state p = TagAttribute \<Longrightarrow> reads s p (p\<lparr>ps_attrib := ps_attrib p @ s\<rparr>)"
proof (induction s arbitrary: p)
  case (Cons c s)
  then have n: "name_char c" and r: "reads s (p\<lparr>ps_attrib := ps_attrib p @ [c]\<rparr>) (p\<lparr>ps_attrib := ps_attrib p @ c # s\<rparr>)"
    using Cons.IH [of "p\<lparr>ps_attrib := ps_attrib p @ [c]\<rparr>"] by simp_all
  have "parse_char c p = (True, p\<lparr>ps_attrib := ps_attrib p @ [c]\<rparr>)" using Cons.prems(2) parse_name_char [OF n] by blast
  moreover have "\<not> looks_ahead c p" using Cons.prems(2) by (auto simp: looks_ahead_def)
  ultimately show ?case using reads_Cons r by blast
qed simp

lemma decode_escaped:
  "c \<in> set [CHR ''&'', CHR ''<'', CHR ''>'', CHR 0x27, CHR 0x22] \<Longrightarrow> escape_char c = CHR ''&'' # e \<Longrightarrow>
     decode (CHR ''&'' # e @ rest) = DecodeValid [c] (length e)"
  by (auto simp: escape_char_def decode_def numeral_eq_Suc)

lemma reads_escape_char:
  "ps_state p = TagInside \<Longrightarrow> reads (escape_char c) p (p\<lparr>ps_tag := '''', ps_cdata := ps_cdata p @ [c]\<rparr>)"
  "ps_state p = TagAttributeValue \<Longrightarrow> \<not> ps_quote p \<Longrightarrow> reads (escape_char c) p (p\<lparr>ps_value := ps_value p @ [c]\<rparr>)"
proof -
  have plain: "escape_char c = [c]" if "c \<notin> set [CHR ''&'', CHR ''<'', CHR ''>'', CHR 0x27, CHR 0x22]"
    using that by (simp add: escape_char_def)
  have ref: "\<exists>e. escape_char c = CHR ''&'' # e" if "c \<in> set [CHR ''&'', CHR ''<'', CHR ''>'', CHR 0x27, CHR 0x22]"
    using that by (auto simp: escape_char_def)
  show "reads (escape_char c) p (p\<lparr>ps_tag := '''', ps_cdata := ps_cdata p @ [c]\<rparr>)" if st: "ps_state p = TagInside"
  proof (cases "c \<in> set [CHR ''&'', CHR ''<'', CHR ''>'', CHR 0x27, CHR 0x22]")
    case False
    with plain st show ?thesis by (auto intro!: reads_char simp: looks_ahead_def parse_char_defs)
  next
    case True
    then obtain e where e: "escape_char c = CHR ''&'' # e" using ref by blast
    with decode_escaped [OF True e] st show ?thesis by (simp add: reads_def feed_loop.simps(2)) blast
  qed
  show "reads (escape_char c) p (p\<lparr>ps_value := ps_value p @ [c]\<rparr>)" if st: "ps_state p = TagAttributeValue" "\<not> ps_quote p"
  proof (cases "c \<in> set [CHR ''&'', CHR ''<'', CHR ''>'', CHR 0x27, CHR 0x22]")
    case False
    with plain st show ?thesis by (auto intro!: reads_char simp: looks_ahead_def parse_char_defs)
  next
    case True
    then obtain e where e: "escape_char c = CHR ''&'' # e" using ref by blast
    with decode_escaped [OF True e] st show ?thesis by (simp add: reads_def feed_loop.simps(2)) blast
  qed
qed

lemma escape_simps [simp]: "escape [] = []" "escape (c # s) = escape_char c @ escape s"
  by (simp_all add: escape_def)

lemma reads_escape:
  "ps_state p = TagInside \<Longrightarrow> s \<noteq> [] \<Longrightarrow> reads (escape s) p (p\<lparr>ps_tag := '''', ps_cdata := ps_cdata p @ s\<rparr>)"
proof (induction s arbitrary: p)
  case (Cons c s)
  show ?case
  proof (cases "s = []")
    case False
    with reads_append [OF reads_escape_char(1) [of p c] Cons.IH [of "p\<lparr>ps_tag := '''', ps_cdata := ps_cdata p @ [c]\<rparr>"]] Cons.prems
    show ?thesis by simp
  qed (use reads_escape_char(1) Cons.prems in simp)
qed simp

lemma reads_value:
  "ps_state p = TagAttributeValue \<Longrightarrow> \<not> ps_quote p \<Longrightarrow> reads (escape s) p (p\<lparr>ps_value := ps_value p @ s\<rparr>)"
proof (induction s arbitrary: p)
  case (Cons c s)
  with reads_append [OF reads_escape_char(2) [of p c] Cons.IH [of "p\<lparr>ps_value := ps_value p @ [c]\<rparr>"]]
  show ?case by simp
qed simp

section \<open>Start tags\<close>

definition in_tag ::
  "parser_state \<Rightarrow> xtag list \<Rightarrow> string \<Rightarrow> bool \<Rightarrow> string \<Rightarrow> xtag list \<Rightarrow> attribute list \<Rightarrow> parser" where
  "in_tag st stack n have_pf pf H as = (parser_at st stack n '''' pf H)\<lparr>ps_haveTagPrefix := have_pf,
     ps_attribs := as, ps_xmlnss := attr_nss as, ps_xmlns := attr_xmlns as\<rparr>"

lemmas ctx = parser_at_def new_parser_def

lemma attr_Nil [simp]: "attr_xmlns [] = ''''" "attr_nss [] = []"
  by (simp_all add: attr_xmlns_def attr_nss_def)

lemma reads_colon:
  "st = TagNameCollect \<or> st = TagClosing \<Longrightarrow>
     reads '':'' (parser_at st stack p '''' pf H) ((parser_at st stack '''' '''' p H)\<lparr>ps_haveTagPrefix := True\<rparr>)"
  by (rule reads_char) (auto simp: looks_ahead_def parse_char_defs tag_colon_def isWhitespace_def ctx)

lemma reads_qname:
  assumes n: "name_ok n" and p: "p = [] \<or> name_ok p" and st: "st = TagNameCollect \<or> st = TagClosing"
    and start: "\<And>c. name_char c \<Longrightarrow> reads [c] q (parser_at st stack [c] '''' pf H)"
  shows "reads (qname p n) q ((parser_at st stack n '''' (if p = [] then pf else p) H)\<lparr>ps_haveTagPrefix := (p \<noteq> [])\<rparr>)"
proof -
  have word: "reads s q (parser_at st stack s '''' pf H)" if s: "name_ok s" for s
  proof -
    obtain c cs where c: "s = c # cs" "name_char c" "list_all name_char cs" using s by (cases s) (auto simp: name_ok_def)
    have "reads cs (parser_at st stack [c] '''' pf H) ((parser_at st stack [c] '''' pf H)\<lparr>ps_tag := [c] @ cs\<rparr>)"
      using reads_name [OF c(3), of "parser_at st stack [c] '''' pf H"] st by (simp add: ctx)
    with reads_append [OF start [OF c(2)]] c(1) show ?thesis by (simp add: ctx)
  qed
  show ?thesis
  proof (cases "p = []")
    case True
    with word [OF n] show ?thesis by (simp add: qname_def ctx)
  next
    case False
    let ?q = "(parser_at st stack '''' '''' p H)\<lparr>ps_haveTagPrefix := True\<rparr>"
    have "reads n ?q (?q\<lparr>ps_tag := n\<rparr>)"
      using reads_name [of n ?q] n st by (simp add: ctx name_ok_def)
    from reads_append [OF reads_append [OF word [of p] reads_colon [OF st]] this] p False
    show ?thesis by (simp add: qname_def ctx)
  qed
qed

lemma reads_start_name:
  assumes "name_ok n" "p = [] \<or> name_ok p"
  shows "reads (qname p n) (parser_at TagOpening stack '''' '''' pf H)
    (in_tag TagNameCollect stack n (p \<noteq> []) (if p = [] then pf else p) H [])"
proof -
  have "reads [c] (parser_at TagOpening stack '''' '''' pf H) (parser_at TagNameCollect stack [c] '''' pf H)"
    if "name_char c" for c
    by (rule reads_char) (use name_charD [OF that] in \<open>auto simp: ctx looks_ahead_def parse_char_defs\<close>)
  from reads_qname [OF assms _ this] show ?thesis by (simp add: in_tag_def ctx)
qed

lemma reads_end_name:
  assumes "name_ok n" "p = [] \<or> name_ok p"
  shows "reads (qname p n) (parser_at TagClosingSlash stack '''' '''' pf H)
    ((parser_at TagClosing stack n '''' (if p = [] then pf else p) H)\<lparr>ps_haveTagPrefix := (p \<noteq> [])\<rparr>)"
proof -
  have "reads [c] (parser_at TagClosingSlash stack '''' '''' pf H) (parser_at TagClosing stack [c] '''' pf H)"
    if "name_char c" for c
    by (rule reads_char) (use name_charD [OF that] in \<open>auto simp: ctx looks_ahead_def parse_char_defs\<close>)
  from reads_qname [OF assms _ this] show ?thesis by simp
qed

section \<open>Attributes\<close>

lemma name_ok_valid: "name_ok s \<Longrightarrow> checkValidXMLChars s"
  by (auto simp: name_ok_def checkValidXMLChars_def name_char_def list_all_iff)

lemma name_ok_XMLNS: "name_ok XMLNS"
  by code_simp

text \<open>A name in front of a value.\<close>

lemma reads_attrib_word:
  assumes "ps_state q = TagNameComplete" "ps_attrib q = ''''" "name_ok s"
  shows "reads s q (q\<lparr>ps_state := TagAttribute, ps_attrib := s\<rparr>)"
proof -
  obtain c cs where c: "s = c # cs" "name_char c" "list_all name_char cs" using assms(3) by (cases s) (auto simp: name_ok_def)
  let ?q = "q\<lparr>ps_state := TagAttribute, ps_attrib := [c]\<rparr>"
  have "reads [c] q ?q"
    by (rule reads_char) (use name_charD [OF c(2)] assms in \<open>auto simp: looks_ahead_def parse_char_defs\<close>)
  moreover have "reads cs ?q (?q\<lparr>ps_attrib := [c] @ cs\<rparr>)" using reads_attrib_name [OF c(3), of ?q] by simp
  ultimately show ?thesis using reads_append c(1) by fastforce
qed

definition named :: "attribute \<Rightarrow> parser \<Rightarrow> parser" where
  "named a q = (let q1 = q\<lparr>ps_state := TagAttribute, ps_attrib := at_name a\<rparr> in
     if at_prefix a = [] then q1 else if at_prefix a = XMLNS then q1\<lparr>ps_attribIsXmlns := True\<rparr>
     else q1\<lparr>ps_haveAttribPrefix := True, ps_attribPrefix := at_prefix a\<rparr>)"

lemma named_simps [simp]:
  "ps_state (named a q) = TagAttribute" "ps_attrib (named a q) = at_name a" "ps_quote (named a q) = ps_quote q"
  "ps_value (named a q) = ps_value q" "(named a q)\<lparr>ps_attrib := at_name a\<rparr> = named a q"
  by (simp_all add: named_def Let_def)

lemma reads_attrib_qname:
  assumes q: "ps_state q = TagNameComplete" "ps_attrib q = ''''" "\<not> ps_haveAttribPrefix q" and a: "attr_ok a"
  shows "reads (qname (at_prefix a) (at_name a)) q (named a q)"
proof (cases "at_prefix a = []")
  case True
  with reads_attrib_word [OF q(1,2)] a show ?thesis by (simp add: attr_ok_def qname_def named_def)
next
  case False
  with a have ok: "name_ok (at_prefix a)" "list_all name_char (at_name a)" by (auto simp: attr_ok_def name_ok_def)
  let ?q = "(named a q)\<lparr>ps_attrib := ''''\<rparr>"
  have "reads '':'' (q\<lparr>ps_state := TagAttribute, ps_attrib := at_prefix a\<rparr>) ?q"
    by (rule reads_char)
      (use q False in \<open>auto simp: looks_ahead_def parse_char_defs named_def isWhitespace_def Let_def\<close>)
  moreover have "reads (at_name a) ?q (named a q)"
    using reads_attrib_name [OF ok(2), of ?q] by simp
  ultimately have "reads (at_prefix a @ '':'' @ at_name a) q (named a q)"
    using reads_attrib_word [OF q(1,2) ok(1)] by (blast intro: reads_append)
  with False show ?thesis by (simp add: qname_def)
qed

lemma reads_quoted:
  assumes "ps_state q = TagAttribute" "\<not> ps_quote q" "ps_value q = ''''"
  shows "reads ([CHR ''='', CHR 0x27] @ escape v @ [CHR 0x27]) q
    ((ps_addAttribute (q\<lparr>ps_state := TagAttributeValue, ps_value := v\<rparr>))\<lparr>ps_state := TagNameAlmostComplete, ps_quote := False\<rparr>)"
proof -
  let ?v = "q\<lparr>ps_state := TagAttributeValue\<rparr>"
  have "reads [CHR ''='', CHR 0x27] q ?v"
    by (rule reads_Cons [OF _ _ reads_char])
      (use assms in \<open>auto simp: looks_ahead_def parse_char_defs isWhitespace_def\<close>)
  moreover have "reads (escape v) ?v (?v\<lparr>ps_value := v\<rparr>)" using reads_value [of ?v v] assms by simp
  moreover have "reads [CHR 0x27] (?v\<lparr>ps_value := v\<rparr>)
      ((ps_addAttribute (?v\<lparr>ps_value := v\<rparr>))\<lparr>ps_state := TagNameAlmostComplete, ps_quote := False\<rparr>)"
    by (rule reads_char) (use assms in \<open>auto simp: looks_ahead_def parse_char_defs\<close>)
  ultimately show ?thesis by (blast intro: reads_append)
qed

lemma add_named:
  assumes "attr_ok a"
  shows "(ps_addAttribute ((named a (in_tag TagNameComplete stack n h pf H as))\<lparr>ps_state := TagAttributeValue, ps_value := at_value a\<rparr>))
      \<lparr>ps_state := TagNameAlmostComplete, ps_quote := False\<rparr> = in_tag TagNameAlmostComplete stack n h pf H (as @ [a])"
proof -
  have n: "checkValidXMLChars (at_name a)" "checkValidXMLChars (at_value a)" "at_prefix a = [] \<or> checkValidXMLChars (at_prefix a)"
    using assms by (auto simp: attr_ok_def name_ok_valid)
  have x: "at_prefix a \<noteq> [] \<Longrightarrow> at_name a \<noteq> XMLNS" and ne: "XMLNS \<noteq> []" using assms by (auto simp: attr_ok_def XMLNS_def)
  consider (none) "at_prefix a = []" | (ns) "at_prefix a = XMLNS" | (other) "at_prefix a \<noteq> []" "at_prefix a \<noteq> XMLNS" by blast
  then show ?thesis
    using n x ne
    by cases (simp_all add: in_tag_def ctx named_def ps_addAttribute_def new_attribute_def attr_xmlns_def attr_nss_def Let_def)
qed

lemma reads_attribute:
  assumes st: "st = TagNameCollect \<or> st = TagNameAlmostComplete" and a: "attr_ok a"
  shows "reads (attribute_xml a) (in_tag st stack n h pf H as) (in_tag TagNameAlmostComplete stack n h pf H (as @ [a]))"
proof -
  let ?q = "in_tag TagNameComplete stack n h pf H as"
  have "reads '' '' (in_tag st stack n h pf H as) ?q"
    by (rule reads_char) (use st in \<open>auto simp: looks_ahead_def parse_char_defs isWhitespace_def in_tag_def ctx\<close>)
  moreover have "reads (qname (at_prefix a) (at_name a)) ?q (named a ?q)"
    by (rule reads_attrib_qname [OF _ _ _ a]) (simp_all add: in_tag_def ctx)
  moreover have "reads ([CHR ''='', CHR 0x27] @ escape (at_value a) @ [CHR 0x27]) (named a ?q)
      (in_tag TagNameAlmostComplete stack n h pf H (as @ [a]))"
    unfolding add_named [OF a, symmetric] by (rule reads_quoted) (simp_all add: in_tag_def ctx)
  ultimately have "reads ('' '' @ qname (at_prefix a) (at_name a) @ [CHR ''='', CHR 0x27] @ escape (at_value a) @ [CHR 0x27])
      (in_tag st stack n h pf H as) (in_tag TagNameAlmostComplete stack n h pf H (as @ [a]))"
    using reads_append by blast
  moreover have "attribute_xml a = '' '' @ qname (at_prefix a) (at_name a) @ [CHR ''='', CHR 0x27] @ escape (at_value a) @ [CHR 0x27]"
    using a by (auto simp: attribute_xml_def qname_def attr_ok_def name_ok_def)
  ultimately show ?thesis by simp
qed

lemma reads_attributes:
  "list_all attr_ok bs \<Longrightarrow> st = TagNameCollect \<or> st = TagNameAlmostComplete \<Longrightarrow>
     reads (concat (map attribute_xml bs)) (in_tag st stack n h pf H as)
       (in_tag (if bs = [] then st else TagNameAlmostComplete) stack n h pf H (as @ bs))"
proof (induction bs arbitrary: as st)
  case (Cons b bs)
  have "(if bs = [] then TagNameAlmostComplete else TagNameAlmostComplete) = TagNameAlmostComplete" by simp
  with reads_append [OF reads_attribute [of st b] Cons.IH [of TagNameAlmostComplete "as @ [b]"]] Cons.prems
  show ?case by simp
qed simp

section \<open>Elements\<close>

lemma attr_xmlns_filter:
  "attr_xmlns as = (let bs = filter (\<lambda>a. at_name a = XMLNS) as in if bs = [] then '''' else at_value (last bs))"
  by (induction as rule: rev_induct) (auto simp: attr_xmlns_def Let_def)

lemma replace_same:
  "filter (\<lambda>a. at_name a = XMLNS) as = [a] \<Longrightarrow> same a \<Longrightarrow> (\<And>x. same x \<Longrightarrow> at_name x = XMLNS) \<Longrightarrow>
     replace_attribute a same as = as"
  by (induction as) (auto split: if_splits)

lemma setXmlns_same:
  assumes "list_all attr_ok as" "length (filter (\<lambda>a. at_name a = XMLNS) as) \<le> 1"
  shows "setXmlns (attr_xmlns as) '''' (XTag p n as x nss nodes # stack) = XTag p n as (attr_xmlns as) nss nodes # stack"
proof (cases "filter (\<lambda>a. at_name a = XMLNS) as")
  case Nil
  then have "attr_xmlns as = ''''" by (simp add: attr_xmlns_filter)
  then show ?thesis by (simp add: setXmlns_def addAttribute_def checkValidXMLChars_def Let_def)
next
  case (Cons a bs)
  with assms(2) have f: "filter (\<lambda>a. at_name a = XMLNS) as = [a]" by simp
  then have "a \<in> set (filter (\<lambda>a. at_name a = XMLNS) as)" by simp
  then have a: "attr_ok a" "at_name a = XMLNS" using assms(1) by (auto simp: list_all_iff)
  then have eq: "new_attribute XMLNS (at_value a) = a" and pf: "at_prefix a = ''''" and v: "checkValidXMLChars (at_value a)"
    by (auto simp: attr_ok_def new_attribute_def name_ok_valid [OF name_ok_XMLNS])
  have x: "attr_xmlns as = at_value a" using f by (simp add: attr_xmlns_filter)
  have "replace_attribute a (\<lambda>b. at_name b = at_name a \<and> (xmlns_of (at_prefix b) st = '''' \<or> at_prefix b = '''')) as = as" for st
    using f a pf by (intro replace_same) auto
  then show ?thesis
    using v eq by (simp add: setXmlns_def addAttribute_def checkValidXMLChars_def x setAttributes_def Let_def del: xmlns_of.simps)
qed

lemma in_tag_fields:
  "ps_state (in_tag st stack n h pf H as) = st" "ps_preamble (in_tag st stack n h pf H as) = 0"
  "ps_stack (in_tag st stack n h pf H as) = stack" "ps_tag (in_tag st stack n h pf H as) = n"
  "ps_haveTagPrefix (in_tag st stack n h pf H as) = h" "ps_tagPrefix (in_tag st stack n h pf H as) = pf"
  "ps_attribs (in_tag st stack n h pf H as) = as" "ps_xmlnss (in_tag st stack n h pf H as) = attr_nss as"
  "ps_xmlns (in_tag st stack n h pf H as) = attr_xmlns as"
  by (simp_all add: in_tag_def ctx)

lemma addTag_in_tag:
  assumes n: "name_ok n" "n \<noteq> ''stream''" and p: "p = [] \<or> name_ok p \<and> pf = p"
    and as: "list_all attr_ok as" "length (filter (\<lambda>a. at_name a = XMLNS) as) \<le> 1" and r: "stack = [] \<longrightarrow> pf \<noteq> ''stream''"
  shows "addTag (in_tag st stack n (p \<noteq> []) pf H as) =
    parser_at st (XTag p n as (attr_xmlns as) (attr_nss as) [] # stack) n '''' pf H"
proof -
  have t1: "(if p \<noteq> [] then setPrefix pf (new_tag n) else new_tag n) = XTag p n [] '''' [] []"
    using name_ok_valid n(1) p by (auto simp: new_tag_def setPrefix_def)
  have t2: "(if as \<noteq> [] then setAttributes as (XTag p n [] '''' [] []) else XTag p n [] '''' [] []) = XTag p n as '''' [] []"
    by (simp add: setAttributes_def)
  have t3: "(if attr_nss as \<noteq> [] then setXmlnsMap (attr_nss as) (XTag p n as '''' [] []) else XTag p n as '''' [] []) =
      XTag p n as '''' (attr_nss as) []"
    by (simp add: setXmlnsMap_def)
  show ?thesis
    unfolding addTag_def Let_def in_tag_fields t1 t2 t3 setXmlns_same [OF as]
    using n r by (auto simp: in_tag_def ctx)
qed

definition closed :: "xtag \<Rightarrow> xtag list \<Rightarrow> xtag list \<Rightarrow> parser" where
  "closed t stack H =
     (case stack of
        [] \<Rightarrow> parser_at Initial [] '''' '''' '''' (H @ [t])
      | s # ss \<Rightarrow> parser_at Initial (add_node (ElemNode t) s # ss) (x_name t) '''' '''' H)"

lemma closeTag_closed:
  "x_name t \<noteq> ''stream'' \<Longrightarrow> x_prefix t = [] \<or> x_prefix t = pf \<Longrightarrow>
     \<exists>q. closeTag ((parser_at st (t # stack) (x_name t) '''' pf H)\<lparr>ps_haveTagPrefix := h\<rparr>) = (True, q) \<and>
       q\<lparr>ps_state := Initial\<rparr> = closed t stack H"
  by (auto simp: closeTag_def ctx closed_def ps_cleanup_def streamEvent_def split: list.split)

lemma in_tag_state [simp]: "(in_tag st stack n h pf H as)\<lparr>ps_state := st'\<rparr> = in_tag st' stack n h pf H as"
  by (simp add: in_tag_def ctx)

lemma parser_at_state [simp]: "(parser_at st stack tag cd pf H)\<lparr>ps_state := st'\<rparr> = parser_at st' stack tag cd pf H"
  by (simp add: ctx)

lemma reads_tag_end:
  assumes st: "st = TagNameCollect \<or> st = TagNameAlmostComplete"
    and n: "name_ok n" "n \<noteq> ''stream''" and p: "p = [] \<or> name_ok p \<and> pf = p"
    and as: "list_all attr_ok as" "length (filter (\<lambda>a. at_name a = XMLNS) as) \<le> 1" and r: "stack = [] \<longrightarrow> pf \<noteq> ''stream''"
  shows "reads ''>'' (in_tag st stack n (p \<noteq> []) pf H as)
      (parser_at TagInside (XTag p n as (attr_xmlns as) (attr_nss as) [] # stack) n '''' pf H)"
    and "reads ''/>'' (in_tag st stack n (p \<noteq> []) pf H as) (closed (XTag p n as (attr_xmlns as) (attr_nss as) []) stack H)"
proof -
  note add = addTag_in_tag [OF n p as r]
  show "reads ''>'' (in_tag st stack n (p \<noteq> []) pf H as)
      (parser_at TagInside (XTag p n as (attr_xmlns as) (attr_nss as) [] # stack) n '''' pf H)"
    by (rule reads_char)
      (use st in \<open>auto simp: looks_ahead_def parse_char_defs tag_end_def isWhitespace_def in_tag_fields add\<close>)
  let ?t = "XTag p n as (attr_xmlns as) (attr_nss as) []"
  have "\<exists>q. closeTag ((parser_at TagOpeningSlash (?t # stack) n '''' pf H)\<lparr>ps_haveTagPrefix := False\<rparr>) = (True, q) \<and>
      q\<lparr>ps_state := Initial\<rparr> = closed ?t stack H"
    using closeTag_closed [where t = ?t and pf = pf and st = TagOpeningSlash and stack = stack and H = H and h = False] n p by auto
  moreover have "(parser_at TagOpeningSlash (?t # stack) n '''' pf H)\<lparr>ps_haveTagPrefix := False\<rparr> = parser_at TagOpeningSlash (?t # stack) n '''' pf H"
    by (simp add: ctx)
  ultimately obtain q where q: "closeTag (parser_at TagOpeningSlash (?t # stack) n '''' pf H) = (True, q)"
    "q\<lparr>ps_state := Initial\<rparr> = closed ?t stack H" by auto
  have "reads ''>'' (in_tag TagOpeningSlash stack n (p \<noteq> []) pf H as) (closed ?t stack H)"
    by (rule reads_char) (simp_all add: looks_ahead_def parse_char_defs isWhitespace_def in_tag_fields add q)
  moreover have "reads ''/'' (in_tag st stack n (p \<noteq> []) pf H as) (in_tag TagOpeningSlash stack n (p \<noteq> []) pf H as)"
    by (rule reads_char) (use st in \<open>auto simp: looks_ahead_def parse_char_defs isWhitespace_def in_tag_fields\<close>)
  ultimately show "reads ''/>'' (in_tag st stack n (p \<noteq> []) pf H as) (closed ?t stack H)"
    using reads_append [of "''/''" _ _ "''>''"] by simp
qed

lemma reads_end_tag:
  assumes n: "name_ok (x_name t)" "x_name t \<noteq> ''stream''" and p: "x_prefix t = [] \<or> name_ok (x_prefix t)"
  shows "reads (''/'' @ qname (x_prefix t) (x_name t) @ ''>'') (parser_at TagOpening (t # stack) '''' '''' pf H) (closed t stack H)"
proof -
  let ?pf = "if x_prefix t = [] then pf else x_prefix t"
  let ?q = "(parser_at TagClosing (t # stack) (x_name t) '''' ?pf H)\<lparr>ps_haveTagPrefix := (x_prefix t \<noteq> [])\<rparr>"
  have "reads ''/'' (parser_at TagOpening (t # stack) '''' '''' pf H) (parser_at TagClosingSlash (t # stack) '''' '''' pf H)"
    by (rule reads_char) (auto simp: looks_ahead_def parse_char_defs isWhitespace_def ctx)
  moreover have "reads (qname (x_prefix t) (x_name t)) (parser_at TagClosingSlash (t # stack) '''' '''' pf H) ?q"
    by (rule reads_end_name [OF n(1) p])
  moreover have pf: "x_prefix t = [] \<or> x_prefix t = ?pf" by simp
  obtain q where q: "closeTag ?q = (True, q)" "q\<lparr>ps_state := Initial\<rparr> = closed t stack H"
    using closeTag_closed [OF n(2) pf] by blast
  have "ps_state ?q = TagClosing" by (simp add: ctx)
  with q have "reads ''>'' ?q (closed t stack H)"
    by (intro reads_char) (simp_all add: looks_ahead_def parse_char_defs del: parser.simps)
  ultimately show ?thesis by (blast intro: reads_append)
qed

text \<open>Between the nodes of the tag \<open>t\<close>: at its start, or after a child.\<close>

definition between :: "bool \<Rightarrow> xtag \<Rightarrow> xtag list \<Rightarrow> xtag list \<Rightarrow> parser \<Rightarrow> bool" where
  "between after t stack H p \<longleftrightarrow>
     (\<exists>tag pf. p = parser_at (if after then Initial else TagInside) (t # stack) tag '''' pf H)"

lemma reads_lt:
  assumes "between after t stack H p"
  shows "\<exists>pf. reads ''<'' p (parser_at TagOpening (t # stack) '''' '''' pf H)"
proof -
  obtain tag pf where p: "p = parser_at (if after then Initial else TagInside) (t # stack) tag '''' pf H"
    using assms by (auto simp: between_def)
  have "reads ''<'' p (parser_at TagOpening (t # stack) '''' '''' pf H)"
    by (rule reads_char) (auto simp: p looks_ahead_def parse_char_defs isWhitespace_def ps_addCData_def ctx)
  then show ?thesis by blast
qed

lemma reads_text:
  assumes b: "between after t stack H p" and s: "s \<noteq> []" "checkValidXMLChars s" "after \<longrightarrow> plain_start s"
  shows "\<exists>pf. reads (escape s @ ''<'') p (parser_at TagOpening (add_node (TextNode s) t # stack) '''' '''' pf H)"
proof -
  obtain tag pf where p: "p = parser_at (if after then Initial else TagInside) (t # stack) tag '''' pf H"
    using b by (auto simp: between_def)
  have "reads (escape s) p (parser_at TagInside (t # stack) '''' s pf H)"
  proof (cases after)
    case False
    with reads_escape [of p s] p s(1) show ?thesis by (simp add: ctx)
  next
    case True
    obtain c cs where c: "s = c # cs" using s(1) by (cases s) auto
    with s(3) True have pl: "\<not> isWhitespace c" "escape_char c = [c]" by (simp_all add: plain_start_def)
    let ?q = "parser_at TagInside (t # stack) '''' [c] pf H"
    have "c \<noteq> CHR ''<''" using pl(2) by (auto simp: escape_char_def)
    then have "reads [c] p ?q"
      by (intro reads_char) (use p True pl(1) in \<open>simp_all add: looks_ahead_def parse_char_defs ctx\<close>)
    moreover have "reads (escape cs) ?q (parser_at TagInside (t # stack) '''' s pf H)"
    proof (cases "cs = []")
      case False
      with reads_escape [of ?q cs] c show ?thesis by (simp add: ctx)
    qed (use c in simp)
    ultimately show ?thesis using c pl(2) reads_append by fastforce
  qed
  moreover have "reads ''<'' (parser_at TagInside (t # stack) '''' s pf H)
      (parser_at TagOpening (add_node (TextNode s) t # stack) '''' '''' pf H)"
    by (rule reads_char)
      (use s in \<open>simp_all add: looks_ahead_def parse_char_defs ps_addCData_def addCData_def ctx\<close>)
  ultimately show ?thesis by (blast intro: reads_append)
qed

definition tag_body :: "xtag \<Rightarrow> string" where
  "tag_body t = tl (tag_xml t)"

lemma tag_xml_body: "name_ok (x_name t) \<Longrightarrow> tag_xml t = ''<'' @ tag_body t"
  by (cases t) (auto simp: tag_body_def name_ok_def)

definition element_read :: "xtag \<Rightarrow> bool" where
  "element_read t \<longleftrightarrow>
     (\<forall>stack pf H. (stack = [] \<longrightarrow> x_prefix t \<noteq> ''stream'' \<and> pf = '''') \<longrightarrow>
        reads (tag_body t) (parser_at TagOpening stack '''' '''' pf H) (closed t stack H))"

definition add_nodes :: "xtag \<Rightarrow> xnode list \<Rightarrow> xtag" where
  "add_nodes t ns = XTag (x_prefix t) (x_name t) (x_attribs t) (x_xmlns t) (x_xmlnss t) (x_nodes t @ ns)"

lemma add_nodes_simps [simp]: "add_nodes t [] = t" "add_nodes (add_node n t) ns = add_nodes t (n # ns)"
  by (simp_all add: add_nodes_def add_node_def)

lemma tag_ok_name: "tag_ok t \<Longrightarrow> name_ok (x_name t)"
  by (cases t) simp

lemma between_child: "between True (add_node (ElemNode c) t) stack H (closed c (t # stack) H)"
  by (auto simp: between_def closed_def)

lemma reads_nodes:
  "list_all (\<lambda>n. case n of ElemNode c \<Rightarrow> tag_ok c \<and> element_read c | TextNode s \<Rightarrow> True) ns \<Longrightarrow> texts_ok after ns \<Longrightarrow>
     between after t stack H p \<Longrightarrow>
     \<exists>pf. reads (concat (map node_xml ns) @ ''<'') p (parser_at TagOpening (add_nodes t ns # stack) '''' '''' pf H)"
proof (induction ns arbitrary: after t p rule: length_induct)
  case (1 ns)
  have child: "\<exists>pf. reads (tag_body c @ concat (map node_xml ns') @ ''<'') (parser_at TagOpening (u # stack) '''' '''' pf0 H)
        (parser_at TagOpening (add_nodes u (ElemNode c # ns') # stack) '''' '''' pf H)"
    if c: "element_read c" and l: "length ns' < length ns" "texts_ok True ns'"
      "list_all (\<lambda>n. case n of ElemNode c \<Rightarrow> tag_ok c \<and> element_read c | TextNode s \<Rightarrow> True) ns'" for c ns' u pf0
  proof -
    obtain pf where "reads (concat (map node_xml ns') @ ''<'') (closed c (u # stack) H)
        (parser_at TagOpening (add_nodes (add_node (ElemNode c) u) ns' # stack) '''' '''' pf H)"
      using "1.IH" l between_child by blast
    moreover have "reads (tag_body c) (parser_at TagOpening (u # stack) '''' '''' pf0 H) (closed c (u # stack) H)"
      using c by (simp add: element_read_def)
    ultimately show ?thesis using reads_append by fastforce
  qed
  consider (none) "ns = []" | (elem) c ns' where "ns = ElemNode c # ns'" | (single) s where "ns = [TextNode s]"
    | (both) s c ns' where "ns = TextNode s # ElemNode c # ns'" | (bad) s s' ns' where "ns = TextNode s # TextNode s' # ns'"
    by (metis list.exhaust xnode.exhaust)
  then show ?case
  proof cases
    case none
    with reads_lt [OF "1.prems"(3)] show ?thesis by simp
  next
    case elem
    obtain pf0 where lt: "reads ''<'' p (parser_at TagOpening (t # stack) '''' '''' pf0 H)" using reads_lt [OF "1.prems"(3)] by blast
    obtain pf where "reads (tag_body c @ concat (map node_xml ns') @ ''<'') (parser_at TagOpening (t # stack) '''' '''' pf0 H)
        (parser_at TagOpening (add_nodes t (ElemNode c # ns') # stack) '''' '''' pf H)"
      using child [of c ns' t pf0] "1.prems" elem by auto
    with reads_append [OF lt this] "1.prems"(1) elem show ?thesis
      by (auto simp: tag_xml_body tag_ok_name)
  next
    case single
    moreover have "add_nodes t [TextNode s] = add_node (TextNode s) t" by (simp add: add_nodes_def add_node_def)
    ultimately show ?thesis using reads_text [OF "1.prems"(3), of s] "1.prems"(2) by simp
  next
    case both
    then obtain pf0 where lt: "reads (escape s @ ''<'') p (parser_at TagOpening (add_node (TextNode s) t # stack) '''' '''' pf0 H)"
      using reads_text [OF "1.prems"(3), of s] "1.prems"(2) by auto
    obtain pf where "reads (tag_body c @ concat (map node_xml ns') @ ''<'') (parser_at TagOpening (add_node (TextNode s) t # stack) '''' '''' pf0 H)
        (parser_at TagOpening (add_nodes (add_node (TextNode s) t) (ElemNode c # ns') # stack) '''' '''' pf H)"
      using child [of c ns' "add_node (TextNode s) t" pf0] "1.prems" both by auto
    with reads_append [OF lt this] "1.prems"(1) both show ?thesis
      by (auto simp: tag_xml_body tag_ok_name)
  next
    case bad
    with "1.prems"(2) show ?thesis by simp
  qed
qed

lemma tag_read: "tag_ok t \<Longrightarrow> element_read t" and node_read: "node_ok n \<Longrightarrow> (case n of ElemNode c \<Rightarrow> tag_ok c \<and> element_read c | TextNode s \<Rightarrow> True)"
proof (induction t and n rule: tag_ok_node_ok.induct)
  case (1 p n as ns nss nodes)
  let ?t = "XTag p n as ns nss nodes" and ?start = "XTag p n as (attr_xmlns as) (attr_nss as) []"
  from "1.prems" have n: "name_ok n" "n \<noteq> ''stream''" and p: "p = [] \<or> name_ok p"
    and as: "list_all attr_ok as" "length (filter (\<lambda>a. at_name a = XMLNS) as) \<le> 1"
    and nss: "ns = attr_xmlns as" "nss = attr_nss as" and tx: "texts_ok False nodes" and nodes: "list_all node_ok nodes" by auto
  have nn: "n \<noteq> []" using n(1) by (simp add: name_ok_def)
  have kids: "list_all (\<lambda>n. case n of ElemNode c \<Rightarrow> tag_ok c \<and> element_read c | TextNode s \<Rightarrow> True) nodes"
    using nodes "1.IH" by (simp add: list_all_iff)
  show ?case unfolding element_read_def
  proof (intro allI impI)
    fix stack :: "xtag list" and pf :: string and H :: "xtag list"
    assume root: "stack = [] \<longrightarrow> x_prefix ?t \<noteq> ''stream'' \<and> pf = ''''"
    let ?pf = "if p = [] then pf else p" and ?st = "if as = [] then TagNameCollect else TagNameAlmostComplete"
    have st: "?st = TagNameCollect \<or> ?st = TagNameAlmostComplete" and pf: "p = [] \<or> name_ok p \<and> ?pf = p"
      and r: "stack = [] \<longrightarrow> ?pf \<noteq> ''stream''" using p root by auto
    have head: "reads (qname p n @ concat (map attribute_xml as)) (parser_at TagOpening stack '''' '''' pf H)
        (in_tag ?st stack n (p \<noteq> []) ?pf H as)"
      using reads_append [OF reads_start_name [OF n(1) p] reads_attributes [OF as(1), of TagNameCollect]] by simp
    note ends = reads_tag_end [OF st n pf as r, of H]
    show "reads (tag_body ?t) (parser_at TagOpening stack '''' '''' pf H) (closed ?t stack H)"
    proof (cases "nodes = []")
      case True
      with reads_append [OF head ends(2)] nss nn show ?thesis by (simp add: tag_body_def)
    next
      case False
      have "between False ?start stack H (parser_at TagInside (?start # stack) n '''' ?pf H)" by (auto simp: between_def)
      from reads_nodes [OF kids tx this] obtain pf2 where inner: "reads (concat (map node_xml nodes) @ ''<'')
          (parser_at TagInside (?start # stack) n '''' ?pf H) (parser_at TagOpening (add_nodes ?start nodes # stack) '''' '''' pf2 H)" by blast
      have "add_nodes ?start nodes = ?t" using nss by (simp add: add_nodes_def)
      with reads_end_tag [of ?t stack pf2 H] n p
      have "reads (''/'' @ qname p n @ ''>'') (parser_at TagOpening (add_nodes ?start nodes # stack) '''' '''' pf2 H) (closed ?t stack H)"
        by simp
      from reads_append [OF reads_append [OF reads_append [OF head ends(1)] inner] this] False nn show ?thesis
        by (simp add: tag_body_def)
    qed
  qed
qed auto

section \<open>Streams of stanzas\<close>

abbreviation awaiting_stanza :: "xtag list \<Rightarrow> parser" where
  "awaiting_stanza H \<equiv> new_parser\<lparr>ps_handled := H\<rparr>"

lemma awaiting_at: "awaiting_stanza H = parser_at Initial [] '''' '''' '''' H"
  by (simp add: ctx)

lemma reads_stanza: "stanza_ok t \<Longrightarrow> reads (tag_xml t) (awaiting_stanza H) (awaiting_stanza (H @ [t]))"
proof -
  assume ok: "stanza_ok t"
  then have "tag_ok t" by (simp add: stanza_ok_def)
  have "reads (tag_body t) (parser_at TagOpening [] '''' '''' '''' H) (awaiting_stanza (H @ [t]))"
    using tag_read [OF \<open>tag_ok t\<close>] ok unfolding element_read_def stanza_ok_def
    by (metis closed_def list.case(1) awaiting_at)
  moreover have "reads ''<'' (awaiting_stanza H) (parser_at TagOpening [] '''' '''' '''' H)"
    by (rule reads_char) (auto simp: looks_ahead_def parse_char_defs isWhitespace_def ctx)
  ultimately show ?thesis using tag_xml_body [OF tag_ok_name [OF \<open>tag_ok t\<close>]] reads_append by metis
qed

lemma reads_stanzas: "list_all stanza_ok ts \<Longrightarrow> reads (concat (map tag_xml ts)) (awaiting_stanza H) (awaiting_stanza (H @ ts))"
proof (induction ts arbitrary: H)
  case (Cons t ts)
  with reads_append [OF reads_stanza [of t H] Cons.IH [of "H @ [t]"]] show ?case by simp
qed simp

lemma feed_stanzas:
  assumes "list_all stanza_ok ts"
  shows "feed (concat (map tag_xml ts)) (awaiting_stanza H) = (- 1, awaiting_stanza (H @ ts))"
proof -
  obtain j where "feed_loop 0 (concat (map tag_xml ts) @ []) (awaiting_stanza H) = feed_loop j [] (awaiting_stanza (H @ ts))"
    using reads_stanzas [OF assms] unfolding reads_def by blast
  then show ?thesis by (simp add: feed_def new_parser_def)
qed

text \<open>
  C18. Round trip of the XML layer, whatever the packets: the stanzas that \<open>Tag::xml\<close> prints, one after the other on a
  connection and cut into packets anywhere (also inside a name or an entity), are handed on by the parser as the tags they were,
  in their order, none twice and none missing, and the parser is left ready for the next one. It holds for stanzas with names free
  of XML marks, namespaces as their attributes declare them, and texts that after a child element start with neither white
  space nor an escaped character (those the parser loses or takes literally, see \<open>entity_after_child\<close>).
\<close>

theorem stanzas_received:
  assumes "list_all stanza_ok ts" and "packets \<noteq> []" and "concat packets = concat (map tag_xml ts)"
  shows "feed_packets packets (new_parser\<lparr>ps_handled := H\<rparr>) = (True, new_parser\<lparr>ps_handled := H @ ts\<rparr>)"
  using packets_joined [OF assms(2), of "awaiting_stanza H"] feed_stanzas [OF assms(1), of H] assms(3) by simp

definition sample_stanzas :: "xtag list" where
  "sample_stanzas =
     [XTag '''' ''iq'' [\<lparr>at_prefix = '''', at_name = ''type'', at_value = ''set''\<rparr>] '''' []
        [ElemNode (XTag '''' ''query'' [\<lparr>at_prefix = '''', at_name = ''xmlns'', at_value = ''urn:x''\<rparr>] ''urn:x'' []
           [TextNode [CHR ''a'', CHR ''<'', CHR 0x27]])],
      XTag '''' ''message'' [\<lparr>at_prefix = ''xml'', at_name = ''lang'', at_value = ''a&b''\<rparr>] '''' []
        [ElemNode (XTag '''' ''body'' [] '''' [] []), TextNode ''x y'']]"

definition sample_packets :: "string list" where
  "sample_packets = (let s = concat (map tag_xml sample_stanzas) in [take 39 s, take 10 (drop 39 s), drop 49 s])"

theorem stanzas_received_witness:
  "feed_packets sample_packets new_parser = (True, new_parser\<lparr>ps_handled := sample_stanzas\<rparr>) \<and>
   drop 36 (hd sample_packets) = ''a&l'' "
proof -
  have ok: "list_all stanza_ok sample_stanzas" and e: "drop 36 (hd sample_packets) = ''a&l''" by code_simp+
  have c: "sample_packets \<noteq> []" "concat sample_packets = concat (map tag_xml sample_stanzas)" by code_simp+
  have "new_parser\<lparr>ps_handled := []\<rparr> = new_parser" by (simp add: new_parser_def)
  with stanzas_received [OF ok c, of "[]"] e show ?thesis by simp
qed

section \<open>Where the parser differs\<close>

text \<open>An entity right after a child element is not decoded: the state there does not look for one.\<close>

lemma entity_after_child:
  "reads ''&gt;'' (parser_at Initial (t # stack) tag '''' pf H) (parser_at TagInside (t # stack) '''' ''&gt;'' pf H)"
proof -
  have "reads ''&'' (parser_at Initial (t # stack) tag '''' pf H) (parser_at TagInside (t # stack) '''' ''&'' pf H)"
    by (rule reads_char) (simp_all add: looks_ahead_def parse_char_defs isWhitespace_def ctx)
  moreover have "reads ''gt;'' (parser_at TagInside (t # stack) '''' ''&'' pf H) (parser_at TagInside (t # stack) '''' ''&gt;'' pf H)"
    using reads_escape [of "parser_at TagInside (t # stack) '''' ''&'' pf H" "''gt;''"]
    by (simp add: escape_char_def ctx)
  ultimately show ?thesis using reads_append [of "''&''"] by fastforce
qed

text \<open>The numbers of the characters beyond the basic plane, up to the last one, are errors.\<close>

lemma supplementary_rejected:
  "0x10000 \<le> v \<Longrightarrow> v < 0x100000 \<Longrightarrow> utf8_of v = None"
  by (simp add: utf8_of_def)

end
