(* ===== verification/Device.thy ===== *)
theory Device
  imports Tapi
begin

text \<open>
  \<open>OnSipTAPI/device.cpp\<close>: the device of the driver. Its connection thread owns the engine: it connects and
  initialises it, polls it, hands the notifications on to the worker pool as events, reports to TAPI whether the
  device is in service, and reconnects. \<open>OpenDevice\<close> and \<open>CloseDevice\<close> start and stop that thread. The thread is
  a function of its place and of what happens while it is there; the stop event is only ever reset before a thread starts.
\<close>

section \<open>The connection thread\<close>

datatype thread_at = AtInit | AtLoop | AtConnecting | AtPoll | AtExiting | AtEnd

text \<open>
  \<open>SetDeviceStatus\<close>, \<open>ForceClose\<close> and \<open>m_mgrThreads.Add\<close> act on the lines of the TSP++ library: the calls are
  collected, in order. \<open>dv_line\<close> says whether the device has its line, \<open>dv_DisableTimeout\<close> is the registry value the engine reads.
\<close>

record device =
  dv_OnSipTapi :: "engine option"
  dv_DisableTimeout :: "dword option"
  dv_stop :: bool
  dv_opened :: bool
  dv_connected :: bool
  dv_initStateType :: init_states_type
  dv_line :: bool
  dv_status :: "bool list"
  dv_forced :: nat
  dv_added :: "onsip_event list"
  dv_deleted :: "onsip_event list"

text \<open>
  What happens during a step: whether the stop event is set before it waits, whether the TCP connection is made, the turns of
  the initialisation or of the shutdown, what a poll receives, and the clocks after a wait.
\<close>

record thread_input =
  ti_stop :: bool
  ti_connects :: bool
  ti_turns :: "turn list"
  ti_recv :: "recv_step list"
  ti_tick :: dword
  ti_clock :: long

definition new_device :: "dword option \<Rightarrow> bool \<Rightarrow> device" where
  "new_device disableTimeout line = \<lparr>dv_OnSipTapi = None, dv_DisableTimeout = disableTimeout, dv_stop = False, dv_opened = False, dv_connected = False,
     dv_initStateType = IT_NOTSET, dv_line = line, dv_status = [], dv_forced = 0, dv_added = [], dv_deleted = []\<rparr>"

definition OnConnect :: "bool \<Rightarrow> device \<Rightarrow> device" where
  "OnConnect bConnect d = d\<lparr>dv_status := dv_status d @ [bConnect]\<rparr>"

definition ForceClose :: "device \<Rightarrow> device" where
  "ForceClose d = (if dv_line d then d\<lparr>dv_forced := dv_forced d + 1\<rparr> else d)"

text \<open>The device has one line, the owner of every event.\<close>

definition processEvent :: "device \<Rightarrow> onsip_event \<Rightarrow> device" where
  "processEvent d ev =
     (if dv_line d then d\<lparr>dv_added := dv_added d @ [ev]\<rparr> else d\<lparr>dv_deleted := dv_deleted d @ [ev]\<rparr>)"

definition getCallEvents :: "(call_state \<times> call_data \<times> change_reason) list \<Rightarrow> onsip_event list" where
  "getCallEvents lst = map (\<lambda>(st, d, r). CallEvent st d r) lst"

definition getConnectEvents :: "(init_state \<times> change_reason) list \<Rightarrow> onsip_event list" where
  "getConnectEvents lst = map (\<lambda>(st, r). ConnectEvent st r) lst"

text \<open>The login read from the registry; the Base64 decoder is not under the repository.\<close>

definition read_login :: "(string \<Rightarrow> nat \<Rightarrow> bool \<times> string) \<Rightarrow> string \<Rightarrow> string \<Rightarrow> login option" where
  "read_login b64dec sipAddress obfuscated = do {
     (_, userName, domain) \<leftarrow> ParseSIP sipAddress '''' '''';
     Some \<lparr>li_name = userName, li_password = decryptString b64dec obfuscated ''JunctionNetworksOnSipHostPbx'', li_domain = domain\<rparr>
   }"

text \<open>A stop event that is set stays so: the turns behind it find it signalled.\<close>

definition turns_of :: "thread_input \<Rightarrow> device \<Rightarrow> turn list" where
  "turns_of i d = (if dv_stop d \<or> ti_stop i then map (\<lambda>t. t\<lparr>tn_stop := True\<rparr>) (ti_turns i) else ti_turns i)"

definition stop_seen :: "thread_input \<Rightarrow> device \<Rightarrow> bool" where
  "stop_seen i d \<longleftrightarrow> dv_stop d \<or> ti_stop i \<or> (\<exists>t \<in> set (ti_turns i). tn_stop t)"

definition wait_until :: "thread_input \<Rightarrow> engine \<Rightarrow> engine" where
  "wait_until i s = s\<lparr>en_world := (en_world s)\<lparr>w_tick := ti_tick i, w_clock := ti_clock i\<rparr>\<rparr>"

text \<open>
  The part of the loop behind a poll that succeeded. The first lists of \<open>GetCallEvents\<close> and \<open>GetInitEvents\<close> are
  those of the previous round, which are not looked at when nothing is new.
\<close>

definition handle_events :: "engine \<Rightarrow> device \<Rightarrow> device option" where
  "handle_events s d =
     (case GetCallEvents [] (en_world s) of (haveCalls, calls, w1) \<Rightarrow>
      case GetInitEvents [] w1 of (haveInits, inits, w2) \<Rightarrow>
        let s = s\<lparr>en_world := w2\<rparr>
        in if \<not> haveCalls \<and> \<not> haveInits then Some (d\<lparr>dv_OnSipTapi := Some s\<rparr>)
           else
             let d = foldl processEvent d (getCallEvents calls);
                 d = (foldl processEvent d (getConnectEvents inits))\<lparr>dv_OnSipTapi := Some s\<rparr>;
                 curStateType = GetInitStatesType (GetInitStateMachineState s)
             in if curStateType = dv_initStateType d then Some d
                else
                  let d = OnConnect (curStateType = IT_OK) (d\<lparr>dv_initStateType := curStateType\<rparr>)
                  in if curStateType = IT_DISCONNECTED
                     then map_option (\<lambda>(_, s'). d\<lparr>dv_OnSipTapi := Some s', dv_connected := False\<rparr>) (OnSipTapi_Disconnect False [] s)
                     else Some d)"

definition stopping :: "thread_input \<Rightarrow> device \<Rightarrow> device" where
  "stopping i d = d\<lparr>dv_stop := stop_seen i d\<rparr>"

text \<open>The engine; the step \<open>AtInit\<close> creates it.\<close>

definition engine_of :: "thread_input \<Rightarrow> device \<Rightarrow> engine" where
  "engine_of i d =
     (case dv_OnSipTapi d of Some s \<Rightarrow> s | None \<Rightarrow> new_OnSipXmpp True (ti_tick i) (ti_clock i) (dv_DisableTimeout d))"

text \<open>
  \<open>ConnectionThread\<close>. \<^const>\<open>None\<close>: an engine fault, or an input that does not reach to the end of the step. In the step
  \<^const>\<open>AtInit\<close> the engine is created and the first initialisation made; \<^const>\<open>AtConnecting\<close> is one round of the inner loop.
\<close>

fun thread_step :: "login \<Rightarrow> thread_input \<Rightarrow> thread_at \<times> device \<Rightarrow> (thread_at \<times> device) option" where
  "thread_step loginInfo i (AtInit, d) = do {
     (ok, ty, s1) \<leftarrow> InitOnSipTapi loginInfo (ti_connects i) (turns_of i d) (engine_of i d);
     (case ok of
        None \<Rightarrow> None
      | Some True \<Rightarrow>
          Some (AtLoop, (stopping i d)\<lparr>dv_OnSipTapi := Some s1, dv_initStateType := ty, dv_opened := True, dv_connected := True\<rparr>)
      | Some False \<Rightarrow> do {
          _ \<leftarrow> OnSipTapi_Disconnect False [] s1;
          Some (AtEnd, (stopping i d)\<lparr>dv_OnSipTapi := None, dv_initStateType := ty\<rparr>)
        })
   }"
| "thread_step loginInfo i (AtLoop, d) =
     Some (if stop_seen i d then AtExiting else if dv_connected d then AtPoll else AtConnecting, stopping i d)"
| "thread_step loginInfo i (AtConnecting, d) = do {
     (ok, ty, s1) \<leftarrow> InitOnSipTapi loginInfo (ti_connects i) (turns_of i d) (engine_of i d);
     (case ok of
        None \<Rightarrow> None
      | Some True \<Rightarrow>
          Some (AtPoll, OnConnect True ((stopping i d)\<lparr>dv_OnSipTapi := Some s1, dv_initStateType := ty, dv_connected := True\<rparr>))
      | Some False \<Rightarrow>
          let d1 = (stopping i d)\<lparr>dv_OnSipTapi := Some (wait_until i s1), dv_initStateType := ty\<rparr>;
              d2 = (if ty = IT_FATAL then ForceClose d1 else d1)
          in Some (if stop_seen i d then AtLoop else AtConnecting, d2))
   }"
| "thread_step loginInfo i (AtPoll, d) = do {
     (r, s1) \<leftarrow> OnSipTapi_Poll (ti_recv i) (engine_of i d);
     (case r of
        None \<Rightarrow> None
      | Some True \<Rightarrow> map_option (Pair AtLoop) (handle_events s1 (stopping i d))
      | Some False \<Rightarrow>
          Some (if stop_seen i d then AtExiting else AtLoop,
            OnConnect False ((stopping i d)\<lparr>dv_OnSipTapi := Some (wait_until i s1), dv_connected := False\<rparr>)))
   }"
| "thread_step loginInfo i (AtExiting, d) = do {
     (done, s1) \<leftarrow> OnSipTapi_Disconnect (dv_connected d) (ti_turns i) (engine_of i d);
     if done then Some (AtEnd, (stopping i d)\<lparr>dv_OnSipTapi := None\<rparr>) else None
   }"
| "thread_step loginInfo i (AtEnd, d) = Some (AtEnd, stopping i d)"

text \<open>The requests of the line (\<open>DRV_MakeCall\<close>, \<open>DRV_DropCall\<close>) come between the steps; without an engine they are refused.\<close>

datatype device_act = ThreadStep thread_input | DialRequest tstring | DropRequest long

definition request_engine :: "device_act \<Rightarrow> engine \<Rightarrow> engine" where
  "request_engine a s =
     (case a of DialRequest number \<Rightarrow> snd (OnSipXmpp_MakeCall number s) | DropRequest callId \<Rightarrow> OnSipXmpp_DropCall callId s
      | ThreadStep _ \<Rightarrow> s)"

fun device_step :: "login \<Rightarrow> device_act \<Rightarrow> thread_at \<times> device \<Rightarrow> (thread_at \<times> device) option" where
  "device_step l (ThreadStep i) x = thread_step l i x"
| "device_step l a (pos, d) = Some (pos, d\<lparr>dv_OnSipTapi := map_option (request_engine a) (dv_OnSipTapi d)\<rparr>)"

fun device_run :: "login \<Rightarrow> device_act list \<Rightarrow> thread_at \<times> device \<Rightarrow> (thread_at \<times> device) option" where
  "device_run l [] x = Some x"
| "device_run l (a # as) x = do { y \<leftarrow> device_step l a x; device_run l as y }"

section \<open>Opening and closing\<close>

text \<open>
  The thread handle and the threads that run. The outcome of \<open>WaitForMultipleObjects\<close> and \<open>WaitForSingleObject\<close> is an input.
\<close>

datatype wait_result = WAIT_OBJECT_0 | WAIT_OBJECT_1 | WAIT_TIMEOUT

record device_threads =
  dt_hConnThread :: "nat option"
  dt_running :: "nat list"
  dt_next :: nat
  dt_stopSet :: bool

text \<open>A thread whose handle the wait finds signalled has ended.\<close>

definition killThreads :: "wait_result \<Rightarrow> device_threads \<Rightarrow> device_threads" where
  "killThreads wait t =
     (case dt_hConnThread t of
        None \<Rightarrow> t
      | Some h \<Rightarrow> t\<lparr>dt_stopSet := True, dt_hConnThread := None,
          dt_running := (if wait = WAIT_OBJECT_0 then remove1 h (dt_running t) else dt_running t)\<rparr>)"

definition OpenDevice :: "bool \<Rightarrow> wait_result \<Rightarrow> wait_result \<Rightarrow> device_threads \<Rightarrow> bool \<times> device_threads" where
  "OpenDevice created wait kill_wait t =
     (if dt_hConnThread t \<noteq> None then (False, t)
      else
        let t = t\<lparr>dt_stopSet := False\<rparr>
        in if \<not> created then (False, t)
           else
             let h = dt_next t;
                 t = t\<lparr>dt_hConnThread := Some h, dt_running := dt_running t @ [h], dt_next := h + 1\<rparr>
             in case wait of
                  WAIT_OBJECT_0 \<Rightarrow> (True, t)
                | WAIT_OBJECT_1 \<Rightarrow> (False, t\<lparr>dt_hConnThread := None, dt_running := remove1 h (dt_running t)\<rparr>)
                | WAIT_TIMEOUT \<Rightarrow> (False, killThreads kill_wait t))"

definition CloseDevice :: "wait_result \<Rightarrow> device_threads \<Rightarrow> bool \<times> device_threads" where
  "CloseDevice kill_wait t = (True, killThreads kill_wait t)"

section \<open>What the steps keep\<close>

lemma init_loop_true:
  "init_loop ts ty s = Some (Some True, ty', s') \<Longrightarrow>
     ty' = IT_OK \<and> w_lstCallEvents (en_world s') = [] \<and> w_lstInitEvents (en_world s') = []"
  by (induction ts arbitrary: ty s)
    (auto simp: bind_eq_Some_conv Let_def clear_events_def ClearEvents_def split: if_splits option.splits)

lemma InitOnSipTapi_true:
  "InitOnSipTapi l c ts s = Some (Some True, ty, s') \<Longrightarrow>
     ty = IT_OK \<and> w_lstCallEvents (en_world s') = [] \<and> w_lstInitEvents (en_world s') = []"
  using init_loop_true by (auto simp: InitOnSipTapi_def bind_eq_Some_conv split: if_splits)

text \<open>The last report to TAPI; a device that was opened is in service.\<close>

definition in_service :: "device \<Rightarrow> bool" where
  "in_service d \<longleftrightarrow> dv_status d = [] \<or> last (dv_status d)"

definition nothing_pending :: "device \<Rightarrow> bool" where
  "nothing_pending d \<longleftrightarrow>
     (\<forall>s. dv_OnSipTapi d = Some s \<longrightarrow> w_lstCallEvents (en_world s) = [] \<and> w_lstInitEvents (en_world s) = [])"

definition reports_ok :: "device \<Rightarrow> bool" where
  "reports_ok d \<longleftrightarrow> (in_service d \<longleftrightarrow> dv_connected d \<and> dv_initStateType d = IT_OK)"

definition device_inv :: "thread_at \<Rightarrow> device \<Rightarrow> bool" where
  "device_inv pos d \<longleftrightarrow>
     (case pos of
        AtInit \<Rightarrow> dv_OnSipTapi d = None \<and> \<not> dv_opened d \<and> dv_status d = []
      | AtEnd \<Rightarrow> dv_OnSipTapi d = None
      | _ \<Rightarrow> dv_OnSipTapi d \<noteq> None \<and> dv_opened d \<and> reports_ok d \<and>
          (pos = AtPoll \<longrightarrow> dv_connected d) \<and> (pos = AtConnecting \<longrightarrow> \<not> dv_connected d) \<and>
          (dv_connected d \<longrightarrow> nothing_pending d))"

lemma processEvents:
  "foldl processEvent d evs = (if dv_line d then d\<lparr>dv_added := dv_added d @ evs\<rparr> else d\<lparr>dv_deleted := dv_deleted d @ evs\<rparr>)"
  by (induction evs arbitrary: d) (simp_all add: processEvent_def)

text \<open>The events of a poll, as they are handed on.\<close>

definition poll_events :: "engine \<Rightarrow> onsip_event list" where
  "poll_events s = getCallEvents (w_lstCallEvents (en_world s)) @ getConnectEvents (w_lstInitEvents (en_world s))"

definition events_taken :: "engine \<Rightarrow> engine" where
  "events_taken s = s\<lparr>en_world := ClearEvents (en_world s)\<rparr>"

definition handed_on :: "engine \<Rightarrow> device \<Rightarrow> device" where
  "handed_on s d = (foldl processEvent d (poll_events s))\<lparr>dv_OnSipTapi := Some (events_taken s)\<rparr>"

lemma events_taken_lists [simp]: "w_lstCallEvents (en_world (events_taken s)) = []" "w_lstInitEvents (en_world (events_taken s)) = []"
  by (simp_all add: events_taken_def ClearEvents_def)

lemma handed_on_simps [simp]:
  "dv_OnSipTapi (handed_on s d) = Some (events_taken s)" "dv_status (handed_on s d) = dv_status d"
  "dv_connected (handed_on s d) = dv_connected d" "dv_initStateType (handed_on s d) = dv_initStateType d"
  "dv_opened (handed_on s d) = dv_opened d" "dv_stop (handed_on s d) = dv_stop d" "dv_line (handed_on s d) = dv_line d"
  "dv_forced (handed_on s d) = dv_forced d"
  by (simp_all add: handed_on_def processEvents)

lemma handle_events_eq:
  "handle_events s d =
     (if poll_events s = [] then Some (handed_on s d)
      else
        let ty = GetInitStatesType (GetInitStateMachineState (events_taken s));
            d1 = OnConnect (ty = IT_OK) ((handed_on s d)\<lparr>dv_initStateType := ty\<rparr>)
        in if ty = dv_initStateType d then Some (handed_on s d)
           else if ty = IT_DISCONNECTED
             then map_option (\<lambda>(_, s'). d1\<lparr>dv_OnSipTapi := Some s', dv_connected := False\<rparr>) (OnSipTapi_Disconnect False [] (events_taken s))
             else Some d1)"
proof -
  let ?w = "en_world s"
  have w: "w_lstCallEvents ?w = [] \<Longrightarrow> ?w\<lparr>w_lstCallEvents := []\<rparr> = ?w"
    "w_lstInitEvents w = [] \<Longrightarrow> w\<lparr>w_lstInitEvents := []\<rparr> = w" for w by simp_all
  have s: "s\<lparr>en_world := en_world s\<rparr> = s" by simp
  have g: "GetCallEvents [] ?w = (w_lstCallEvents ?w \<noteq> [], w_lstCallEvents ?w, ?w\<lparr>w_lstCallEvents := []\<rparr>)"
    using w(1) by (simp add: GetCallEvents_def)
  have h: "GetInitEvents [] (?w\<lparr>w_lstCallEvents := []\<rparr>) = (w_lstInitEvents ?w \<noteq> [], w_lstInitEvents ?w, ClearEvents ?w)"
    by (simp add: GetInitEvents_def ClearEvents_def)
  have n: "\<not> w_lstCallEvents ?w \<noteq> [] \<and> \<not> w_lstInitEvents ?w \<noteq> [] \<longleftrightarrow> poll_events s = []"
    by (auto simp: poll_events_def getCallEvents_def getConnectEvents_def)
  have f: "foldl processEvent (foldl processEvent d (getCallEvents (w_lstCallEvents ?w))) (getConnectEvents (w_lstInitEvents ?w)) =
      foldl processEvent d (poll_events s)" by (simp add: poll_events_def)
  have t: "dv_initStateType (foldl processEvent d evs) = dv_initStateType d" for evs by (simp add: processEvents)
  show ?thesis
    unfolding handle_events_def g h prod.case n f Let_def events_taken_def [symmetric] handed_on_def by (simp add: t)
qed

lemma handle_events_spec:
  assumes "handle_events s d = Some d'" and "dv_line d"
  shows "dv_added d' = dv_added d @ poll_events s \<and> dv_deleted d' = dv_deleted d \<and> dv_stop d' = dv_stop d \<and> dv_line d'"
proof -
  have "dv_added (handed_on s d) = dv_added d @ poll_events s" "dv_deleted (handed_on s d) = dv_deleted d"
    using assms(2) by (simp_all add: handed_on_def processEvents)
  with assms show ?thesis by (auto simp: handle_events_eq OnConnect_def Let_def split: if_splits)
qed

lemma in_service_simps [simp]:
  "in_service (OnConnect b d) = b" "in_service (d\<lparr>dv_initStateType := ty\<rparr>) = in_service d"
  "in_service (d\<lparr>dv_OnSipTapi := x\<rparr>) = in_service d" "in_service (d\<lparr>dv_connected := c\<rparr>) = in_service d"
  "in_service (d\<lparr>dv_stop := b\<rparr>) = in_service d" "in_service (d\<lparr>dv_opened := b\<rparr>) = in_service d"
  "in_service (ForceClose d) = in_service d" "in_service (handed_on s d) = in_service d"
  by (simp_all add: in_service_def OnConnect_def ForceClose_def)

lemma OnConnect_simps [simp]:
  "dv_OnSipTapi (OnConnect b d) = dv_OnSipTapi d" "dv_connected (OnConnect b d) = dv_connected d"
  "dv_initStateType (OnConnect b d) = dv_initStateType d" "dv_opened (OnConnect b d) = dv_opened d" "dv_stop (OnConnect b d) = dv_stop d"
  by (simp_all add: OnConnect_def)

lemma ForceClose_simps [simp]:
  "dv_OnSipTapi (ForceClose d) = dv_OnSipTapi d" "dv_connected (ForceClose d) = dv_connected d"
  "dv_initStateType (ForceClose d) = dv_initStateType d" "dv_opened (ForceClose d) = dv_opened d" "dv_stop (ForceClose d) = dv_stop d"
  by (simp_all add: ForceClose_def)

lemma handle_events_inv:
  assumes "handle_events s d = Some d'" and "dv_connected d" and "reports_ok d" and "dv_opened d"
  shows "device_inv AtLoop d'"
proof -
  let ?ty = "GetInitStatesType (GetInitStateMachineState (events_taken s))"
  have same: ?thesis if "d' = handed_on s d"
    using that assms by (simp add: device_inv_def reports_ok_def nothing_pending_def)
  consider (same) "poll_events s = [] \<or> ?ty = dv_initStateType d" | (lost) "poll_events s \<noteq> []" "?ty \<noteq> dv_initStateType d" "?ty = IT_DISCONNECTED"
    | (change) "poll_events s \<noteq> []" "?ty \<noteq> dv_initStateType d" "?ty \<noteq> IT_DISCONNECTED" by blast
  then show ?thesis
  proof cases
    case same
    with assms(1) \<open>d' = handed_on s d \<Longrightarrow> ?thesis\<close> show ?thesis by (auto simp: handle_events_eq Let_def split: if_splits)
  next
    case lost
    with assms(1,4) show ?thesis by (auto simp: handle_events_eq Let_def device_inv_def reports_ok_def)
  next
    case change
    with assms(1) have "d' = OnConnect (?ty = IT_OK) ((handed_on s d)\<lparr>dv_initStateType := ?ty\<rparr>)"
      by (simp add: handle_events_eq Let_def)
    with assms(2,4) show ?thesis by (simp add: device_inv_def reports_ok_def nothing_pending_def)
  qed
qed

lemma init_cases:
  assumes "InitOnSipTapi l c ts s = Some (Some True, ty, s1)"
  shows "ty = IT_OK" "w_lstCallEvents (en_world s1) = []" "w_lstInitEvents (en_world s1) = []"
  using InitOnSipTapi_true [OF assms] by auto

lemma device_inv_running:
  assumes "dv_OnSipTapi d = Some s" "dv_opened d" "in_service d \<longleftrightarrow> dv_connected d \<and> dv_initStateType d = IT_OK"
    and "dv_connected d \<Longrightarrow> w_lstCallEvents (en_world s) = [] \<and> w_lstInitEvents (en_world s) = []"
  shows "device_inv AtLoop d" "device_inv AtExiting d" "dv_connected d \<Longrightarrow> device_inv AtPoll d"
    "\<not> dv_connected d \<Longrightarrow> device_inv AtConnecting d"
  using assms by (simp_all add: device_inv_def reports_ok_def nothing_pending_def)

lemma device_inv_parts:
  assumes "device_inv pos d" and "pos \<notin> {AtInit, AtEnd}"
  obtains s where "dv_OnSipTapi d = Some s" "dv_opened d" "in_service d \<longleftrightarrow> dv_connected d \<and> dv_initStateType d = IT_OK"
    "dv_connected d \<Longrightarrow> w_lstCallEvents (en_world s) = [] \<and> w_lstInitEvents (en_world s) = []"
    "pos = AtPoll \<Longrightarrow> dv_connected d" "pos = AtConnecting \<Longrightarrow> \<not> dv_connected d"
  using assms by (cases pos) (auto simp: device_inv_def reports_ok_def nothing_pending_def)

lemma thread_step_cases:
  assumes "thread_step l i (pos, d) = Some (pos', d')"
  defines "stop \<equiv> stop_seen i d" and "e \<equiv> d\<lparr>dv_stop := stop_seen i d\<rparr>"
    and "s \<equiv> (case dv_OnSipTapi d of Some s \<Rightarrow> s | None \<Rightarrow> new_OnSipXmpp True (ti_tick i) (ti_clock i) (dv_DisableTimeout d))"
  obtains
    (init) ty s1 where "pos = AtInit" "InitOnSipTapi l (ti_connects i) (turns_of i d) s = Some (Some True, ty, s1)" "pos' = AtLoop"
      "d' = e\<lparr>dv_OnSipTapi := Some s1, dv_initStateType := ty, dv_opened := True, dv_connected := True\<rparr>"
  | (init_failed) ty s1 where "pos = AtInit" "InitOnSipTapi l (ti_connects i) (turns_of i d) s = Some (Some False, ty, s1)"
      "pos' = AtEnd" "d' = e\<lparr>dv_OnSipTapi := None, dv_initStateType := ty\<rparr>"
  | (loop) "pos = AtLoop" "pos' = (if stop then AtExiting else if dv_connected d then AtPoll else AtConnecting)" "d' = e"
  | (reconnected) ty s1 where "pos = AtConnecting" "InitOnSipTapi l (ti_connects i) (turns_of i d) s = Some (Some True, ty, s1)"
      "pos' = AtPoll" "d' = OnConnect True (e\<lparr>dv_OnSipTapi := Some s1, dv_initStateType := ty, dv_connected := True\<rparr>)"
  | (failed) ty s1 where "pos = AtConnecting" "InitOnSipTapi l (ti_connects i) (turns_of i d) s = Some (Some False, ty, s1)"
      "pos' = (if stop then AtLoop else AtConnecting)"
      "d' = (if ty = IT_FATAL then ForceClose (e\<lparr>dv_OnSipTapi := Some (wait_until i s1), dv_initStateType := ty\<rparr>)
             else e\<lparr>dv_OnSipTapi := Some (wait_until i s1), dv_initStateType := ty\<rparr>)"
  | (polled) s1 where "pos = AtPoll" "OnSipTapi_Poll (ti_recv i) s = Some (Some True, s1)" "pos' = AtLoop" "handle_events s1 e = Some d'"
  | (poll_failed) s1 where "pos = AtPoll" "OnSipTapi_Poll (ti_recv i) s = Some (Some False, s1)" "pos' = (if stop then AtExiting else AtLoop)"
      "d' = OnConnect False (e\<lparr>dv_OnSipTapi := Some (wait_until i s1), dv_connected := False\<rparr>)"
  | (exiting) s1 where "pos = AtExiting" "OnSipTapi_Disconnect (dv_connected d) (ti_turns i) s = Some (True, s1)" "pos' = AtEnd"
      "d' = e\<lparr>dv_OnSipTapi := None\<rparr>"
  | (ended) "pos = AtEnd" "pos' = AtEnd" "d' = e"
proof (cases pos)
  case AtInit
  with assms(1) init init_failed show ?thesis
    by (auto simp: stopping_def engine_of_def Let_def bind_eq_Some_conv stop_def e_def s_def split: option.splits bool.splits)
next
  case AtConnecting
  with assms(1) reconnected failed show ?thesis
    by (auto simp: stopping_def engine_of_def Let_def bind_eq_Some_conv stop_def e_def s_def split: option.splits bool.splits)
next
  case AtPoll
  with assms(1) polled poll_failed show ?thesis
    by (auto simp: stopping_def engine_of_def Let_def bind_eq_Some_conv stop_def e_def s_def split: option.splits bool.splits)
next
  case AtExiting
  with assms(1) exiting show ?thesis
    by (auto simp: stopping_def engine_of_def Let_def bind_eq_Some_conv stop_def e_def s_def split: option.splits if_splits)
qed (use assms(1) loop ended in \<open>auto simp: stopping_def engine_of_def Let_def stop_def e_def\<close>)

lemma thread_step_inv:
  assumes inv: "device_inv pos d" and st: "thread_step l i (pos, d) = Some (pos', d')"
  shows "device_inv pos' d'"
  using st
proof (cases rule: thread_step_cases)
  case (init ty s1)
  moreover have "in_service d" using inv init(1) by (simp add: device_inv_def in_service_def)
  ultimately show ?thesis using init_cases [OF init(2)] device_inv_running(1) [of d' s1] by simp
next
  case init_failed
  then show ?thesis by (simp add: device_inv_def)
next
  case loop
  with inv obtain s where s: "dv_OnSipTapi d = Some s" "dv_opened d" "in_service d \<longleftrightarrow> dv_connected d \<and> dv_initStateType d = IT_OK"
    "dv_connected d \<Longrightarrow> w_lstCallEvents (en_world s) = [] \<and> w_lstInitEvents (en_world s) = []"
    by (elim device_inv_parts) auto
  note r = device_inv_running [of d' s]
  from loop s show ?thesis using r by auto
next
  case (reconnected ty s1)
  with inv obtain "dv_opened d" by (elim device_inv_parts) auto
  with reconnected init_cases [OF reconnected(2)] device_inv_running(3) [of d' s1] show ?thesis by simp
next
  case (failed ty s1)
  with inv obtain "dv_opened d" "\<not> in_service d" "\<not> dv_connected d" by (elim device_inv_parts) auto
  with failed device_inv_running(1,4) [of d' "wait_until i s1"] show ?thesis by (cases "ty = IT_FATAL") auto
next
  case (polled s1)
  with inv obtain "dv_opened d" "in_service d \<longleftrightarrow> dv_connected d \<and> dv_initStateType d = IT_OK" "dv_connected d"
    by (elim device_inv_parts) auto
  with polled handle_events_inv [OF polled(4)] show ?thesis by (simp add: reports_ok_def)
next
  case (poll_failed s1)
  with inv obtain "dv_opened d" by (elim device_inv_parts) auto
  with poll_failed device_inv_running(1,2) [of d' "wait_until i s1"] show ?thesis by auto
next
  case exiting
  then show ?thesis by (simp add: device_inv_def)
next
  case ended
  with inv show ?thesis by (simp add: device_inv_def)
qed

lemma device_step_inv:
  assumes "device_inv pos d" and "device_step l a (pos, d) = Some (pos', d')"
  shows "device_inv pos' d'"
proof (cases a)
  case (ThreadStep i)
  with assms thread_step_inv show ?thesis by simp
next
  case (DialRequest number)
  have k: "w_lstCallEvents (en_world (snd (OnSipXmpp_MakeCall number s))) = w_lstCallEvents (en_world s) \<and>
      w_lstInitEvents (en_world (snd (OnSipXmpp_MakeCall number s))) = w_lstInitEvents (en_world s)" for s
    by (auto simp: OnSipXmpp_MakeCall_def MakeCallAsync_def Let_def getUniqueId_def new_MakeCall_def split: prod.split)
  show ?thesis
    using assms DialRequest k
    by (cases pos) (auto simp: device_inv_def reports_ok_def in_service_def nothing_pending_def request_engine_def)
next
  case (DropRequest callId)
  show ?thesis
    using assms DropRequest
    by (cases pos) (auto simp: device_inv_def reports_ok_def in_service_def nothing_pending_def request_engine_def OnSipXmpp_DropCall_def)
qed

lemma device_run_inv:
  "device_inv pos d \<Longrightarrow> device_run l as (pos, d) = Some (pos', d') \<Longrightarrow> device_inv pos' d'"
proof (induction as arbitrary: pos d)
  case (Cons a as)
  then obtain p1 d1 where "device_step l a (pos, d) = Some (p1, d1)" "device_run l as (p1, d1) = Some (pos', d')"
    by (auto simp: bind_eq_Some_conv)
  with Cons.IH device_step_inv [OF Cons.prems(1)] show ?case by blast
qed simp

lemma new_device_inv: "device_inv AtInit (new_device t line)"
  by (simp add: device_inv_def new_device_def)

text \<open>
  C13. What TAPI is told about the device: in any run of the connection thread, with the requests of the line between its
  steps, once the device was opened the last report to TAPI says that it is in service exactly when the thread counts itself connected
  and the last type of state it knows is \<open>OK\<close>; there is an engine until the thread has ended and none after; the thread polls only
  when it counts itself connected and connects only when it does not; and between the polls of a connected thread no
  notification is left unread.
\<close>

theorem device_status_reported:
  assumes "device_run l as (AtInit, new_device t line) = Some (pos, d)"
  shows "(pos \<notin> {AtInit, AtEnd} \<longrightarrow>
       dv_opened d \<and> ((dv_status d = [] \<or> last (dv_status d)) \<longleftrightarrow> dv_connected d \<and> dv_initStateType d = IT_OK) \<and>
       (\<exists>s. dv_OnSipTapi d = Some s \<and>
          (dv_connected d \<longrightarrow> w_lstCallEvents (en_world s) = [] \<and> w_lstInitEvents (en_world s) = []))) \<and>
     (pos = AtPoll \<longrightarrow> dv_connected d) \<and> (pos = AtConnecting \<longrightarrow> \<not> dv_connected d) \<and>
     (pos = AtEnd \<longrightarrow> dv_OnSipTapi d = None)"
  using device_run_inv [OF new_device_inv assms]
  by (cases pos) (simp_all add: device_inv_def reports_ok_def in_service_def nothing_pending_def del: not_None_eq, blast+)

definition idle_input :: thread_input where
  "idle_input = \<lparr>ti_stop = False, ti_connects = True, ti_turns = [], ti_recv = [], ti_tick = 0, ti_clock = 0\<rparr>"

text \<open>The thread opens the device with a login and goes on to its first poll.\<close>

definition sample_opening :: "device_act list" where
  "sample_opening = [ThreadStep (idle_input\<lparr>ti_turns := [sample_login_turn 0]\<rparr>), ThreadStep idle_input]"

definition sample_opened :: device where
  "sample_opened = snd (the (device_run sample_login sample_opening (AtInit, new_device None True)))"

lemma sample_opened_run: "device_run sample_login sample_opening (AtInit, new_device None True) = Some (AtPoll, sample_opened)"
proof -
  have "map_option fst (device_run sample_login sample_opening (AtInit, new_device None True)) = Some AtPoll" by code_simp
  then show ?thesis by (auto simp: sample_opened_def)
qed

theorem device_status_reported_witness:
  "dv_opened sample_opened \<and> (dv_status sample_opened = [] \<or> last (dv_status sample_opened)) \<and> dv_connected sample_opened \<and>
   dv_initStateType sample_opened = IT_OK \<and> dv_OnSipTapi sample_opened \<noteq> None"
proof -
  have "dv_initStateType sample_opened = IT_OK" by code_simp
  with device_status_reported [OF sample_opened_run] show ?thesis by auto
qed

section \<open>Stopping\<close>

lemma init_loop_stopped: "\<forall>t \<in> set ts. tn_stop t \<Longrightarrow> init_loop ts ty s \<noteq> Some (Some True, ty', s')"
  by (cases ts) auto

lemma InitOnSipTapi_stopped:
  "dv_stop d \<or> ti_stop i \<Longrightarrow> InitOnSipTapi l c (turns_of i d) s \<noteq> Some (Some True, ty, s')"
  using init_loop_stopped by (auto simp: InitOnSipTapi_def bind_eq_Some_conv turns_of_def split: if_splits)

text \<open>The steps a stopped thread has left.\<close>

fun steps_left :: "thread_at \<Rightarrow> nat" where
  "steps_left AtConnecting = 3"
| "steps_left AtPoll = 3"
| "steps_left AtLoop = 2"
| "steps_left AtExiting = 1"
| "steps_left AtInit = 1"
| "steps_left AtEnd = 0"

lemma handle_events_stop: "handle_events s d = Some d' \<Longrightarrow> dv_stop d' = dv_stop d"
  by (auto simp: handle_events_eq Let_def split: if_splits)

lemma stopped_step:
  assumes "thread_step l i (pos, d) = Some (pos', d')" and stop: "dv_stop d"
  shows "dv_stop d' \<and> steps_left pos' \<le> steps_left pos - 1"
proof -
  have s: "stop_seen i d" using stop by (simp add: stop_seen_def)
  from assms(1) show ?thesis
    by (cases rule: thread_step_cases) (use s stop InitOnSipTapi_stopped handle_events_stop in auto)
qed

definition thread_steps :: "device_act list \<Rightarrow> nat" where
  "thread_steps as = length (filter (\<lambda>a. case a of ThreadStep _ \<Rightarrow> True | _ \<Rightarrow> False) as)"

lemma stopped_run:
  "device_run l as (pos, d) = Some (pos', d') \<Longrightarrow> dv_stop d \<Longrightarrow>
     dv_stop d' \<and> steps_left pos' \<le> steps_left pos - thread_steps as"
proof (induction as arbitrary: pos d)
  case (Cons a as)
  then obtain p1 d1 where s: "device_step l a (pos, d) = Some (p1, d1)" "device_run l as (p1, d1) = Some (pos', d')"
    by (auto simp: bind_eq_Some_conv)
  show ?case
  proof (cases a)
    case (ThreadStep i)
    with s stopped_step [of l i pos d p1 d1] Cons have "dv_stop d1" "steps_left p1 \<le> steps_left pos - 1" by auto
    with Cons.IH [OF s(2)] ThreadStep show ?thesis by (auto simp: thread_steps_def)
  qed (use s Cons in \<open>auto simp: thread_steps_def\<close>)
qed (simp add: thread_steps_def)

lemma steps_left_0: "steps_left pos = 0 \<longleftrightarrow> pos = AtEnd"
  by (cases pos) simp_all


definition sample_stop :: "device_act list" where
  "sample_stop = [ThreadStep (idle_input\<lparr>ti_stop := True, ti_recv := [(recv_at [] 1300)\<lparr>rs_result := ConnIoError\<rparr>]\<rparr>),
     ThreadStep idle_input, ThreadStep idle_input, DropRequest 1, ThreadStep idle_input]"


text \<open>Finding: a stop during a reconnect is taken for a fatal error, and the line is forced to close.\<close>

lemma stop_forces_close:
  assumes "dv_OnSipTapi d = Some s" and "dv_stop d" and "dv_line d" and "ti_turns i \<noteq> []"
    and "OnSipTapi_Connect l (ti_connects i) s = Some (True, ce, s1)"
  shows "\<exists>d'. thread_step l i (AtConnecting, d) = Some (AtLoop, d') \<and> dv_forced d' = dv_forced d + 1"
proof -
  obtain t ts where "ti_turns i = t # ts" using assms(4) by (cases "ti_turns i") auto
  then have "InitOnSipTapi l (ti_connects i) (turns_of i d) s = Some (Some False, IT_FATAL, s1)"
    using assms(2,5) by (simp add: InitOnSipTapi_def turns_of_def)
  with assms(1-3) show ?thesis by (simp add: stopping_def engine_of_def stop_seen_def Let_def ForceClose_def)
qed

section \<open>A lost connection\<close>

lemma Start_no_calls: "Start l c s = Some (ConnNoError, s') \<Longrightarrow> sm_handlers (en_call s') = []"
  by (auto simp: Start_def BaseStart_def RemoveStateHandlers_def Let_def bind_eq_Some_conv split: prod.splits if_splits)

text \<open>
  C16. Finding: a lost connection leaves the calls of TAPI as they are. When a poll of the connected thread fails and the next attempt to
  connect succeeds, what TAPI hears is that the device went out of service and came back: the notifications that poll has still
  collected are not handed on as events, they are cleared before the connect, and the connect deletes the call handlers, so
  that no later event ends the calls they were for.
\<close>

theorem lost_calls_unreported:
  assumes "dv_OnSipTapi d = Some s" and "OnSipTapi_Poll (ti_recv i1) s = Some (Some False, s1)"
    and "device_run l [ThreadStep i1, ThreadStep i2, ThreadStep i3] (AtPoll, d) = Some (AtPoll, d')"
  shows "dv_added d' = dv_added d \<and> dv_deleted d' = dv_deleted d \<and> dv_status d' = dv_status d @ [False, True] \<and>
    dv_initStateType d' = IT_OK \<and>
    (\<exists>s2 s3. Start l (ti_connects i3) (clear_events (wait_until i1 s1)) = Some (ConnNoError, s2) \<and>
       sm_handlers (en_call s2) = [] \<and>
       dv_OnSipTapi d' = Some s3 \<and> w_lstCallEvents (en_world s3) = [] \<and> w_lstInitEvents (en_world s3) = [])"
proof -
  obtain p1 d1 p2 d2 where r: "thread_step l i1 (AtPoll, d) = Some (p1, d1)" "thread_step l i2 (p1, d1) = Some (p2, d2)"
    "thread_step l i3 (p2, d2) = Some (AtPoll, d')" using assms(3) by (auto simp: bind_eq_Some_conv)
  have f1: "p1 = (if stop_seen i1 d then AtExiting else AtLoop)"
    "d1 = OnConnect False (d\<lparr>dv_stop := stop_seen i1 d, dv_OnSipTapi := Some (wait_until i1 s1), dv_connected := False\<rparr>)"
    using r(1) assms(1,2) by (auto simp: stopping_def engine_of_def Let_def)
  have l1: "p1 = AtLoop"
  proof (rule ccontr)
    assume "p1 \<noteq> AtLoop"
    with f1 have e: "p1 = AtExiting" by (simp split: if_splits)
    from r(2) e have "p2 = AtEnd" by (cases rule: thread_step_cases) auto
    from r(3) this show False by (cases rule: thread_step_cases) auto
  qed
  from r(2) l1 have d2: "d2 = d1\<lparr>dv_stop := stop_seen i2 d1\<rparr>" "p2 = (if stop_seen i2 d1 then AtExiting else if dv_connected d1 then AtPoll else AtConnecting)"
    by (auto simp: stopping_def engine_of_def Let_def)
  from r(3) show ?thesis
  proof (cases rule: thread_step_cases)
    case (reconnected ty s3)
    have e: "(case dv_OnSipTapi d2 of Some s \<Rightarrow> s | None \<Rightarrow> new_OnSipXmpp True (ti_tick i3) (ti_clock i3) (dv_DisableTimeout d2)) = wait_until i1 s1"
      using d2(1) f1(2) by simp
    note init = reconnected(2) [unfolded e]
    then obtain s2 where "Start l (ti_connects i3) (clear_events (wait_until i1 s1)) = Some (ConnNoError, s2)"
      by (auto simp: InitOnSipTapi_def OnSipTapi_Connect_def bind_eq_Some_conv split: if_splits)
    with Start_no_calls init_cases [OF init] reconnected(4) d2(1) f1(2) show ?thesis by (auto simp: OnConnect_def)
  qed (use d2 f1 in \<open>auto split: if_splits\<close>)
qed

text \<open>A call is dialled; its first notifications come with the poll in which the connection is lost.\<close>

definition sample_dialled :: device where
  "sample_dialled = (new_device None True)\<lparr>dv_OnSipTapi := Some (snd (OnSipXmpp_MakeCall ''5551234'' sample_polled)),
     dv_opened := True, dv_connected := True, dv_initStateType := IT_OK\<rparr>"

definition losing_input :: thread_input where
  "losing_input = idle_input\<lparr>ti_recv := [recv_at [] 300, (recv_at [In_Disconnect] 400)\<lparr>rs_result := ConnStreamClosed\<rparr>],
     ti_tick := 10400, ti_clock := 10400\<rparr>"

definition sample_reconnect :: "device_act list" where
  "sample_reconnect = [ThreadStep losing_input, ThreadStep idle_input,
     ThreadStep (idle_input\<lparr>ti_turns := [sample_login_turn 10400]\<rparr>)]"

theorem lost_calls_unreported_witness:
  "\<exists>s s1 d'. dv_OnSipTapi sample_dialled = Some s \<and> OnSipTapi_Poll (ti_recv losing_input) s = Some (Some False, s1) \<and>
     length (w_lstCallEvents (en_world s1)) = 1 \<and> length (sm_handlers (en_call s1)) = 1 \<and>
     device_run sample_login sample_reconnect (AtPoll, sample_dialled) = Some (AtPoll, d') \<and>
     dv_added d' = [] \<and> dv_status d' = [False, True]"
proof -
  have "map_option (\<lambda>s. map_option (\<lambda>(r, s1). (r, length (w_lstCallEvents (en_world s1)), length (sm_handlers (en_call s1))))
      (OnSipTapi_Poll (ti_recv losing_input) s)) (dv_OnSipTapi sample_dialled) = Some (Some (Some False, 1, 1))" by code_simp
  then obtain s s1 where s: "dv_OnSipTapi sample_dialled = Some s" "OnSipTapi_Poll (ti_recv losing_input) s = Some (Some False, s1)"
    "length (w_lstCallEvents (en_world s1)) = 1" "length (sm_handlers (en_call s1)) = 1" by auto
  have "map_option fst (device_run sample_login sample_reconnect (AtPoll, sample_dialled)) = Some AtPoll" by code_simp
  then obtain d' where r: "device_run sample_login sample_reconnect (AtPoll, sample_dialled) = Some (AtPoll, d')" by auto
  have "dv_added sample_dialled = [] \<and> dv_status sample_dialled = []" by code_simp
  with lost_calls_unreported [OF s(1,2), of sample_login idle_input "idle_input\<lparr>ti_turns := [sample_login_turn 10400]\<rparr>" d'] s r
  show ?thesis by (auto simp: sample_reconnect_def)
qed

section \<open>Threads\<close>

datatype device_op = Open bool wait_result wait_result | Close wait_result | ThreadEnds nat

definition do_device_op :: "device_op \<Rightarrow> device_threads \<Rightarrow> device_threads" where
  "do_device_op a t =
     (case a of Open created wait kill_wait \<Rightarrow> snd (OpenDevice created wait kill_wait t)
      | Close kill_wait \<Rightarrow> snd (CloseDevice kill_wait t)
      | ThreadEnds h \<Rightarrow> t\<lparr>dt_running := remove1 h (dt_running t)\<rparr>)"

definition in_time :: "device_op \<Rightarrow> bool" where
  "in_time a \<longleftrightarrow> (case a of Open _ _ kill_wait \<Rightarrow> kill_wait = WAIT_OBJECT_0 | Close kill_wait \<Rightarrow> kill_wait = WAIT_OBJECT_0 | _ \<Rightarrow> True)"

definition no_threads :: device_threads where
  "no_threads = \<lparr>dt_hConnThread = None, dt_running = [], dt_next = 0, dt_stopSet = False\<rparr>"

lemma threads_inv:
  "\<forall>a \<in> set ops. in_time a \<Longrightarrow>
     (let t = foldl (\<lambda>t a. do_device_op a t) no_threads ops in dt_running t = [] \<or> (\<exists>h. dt_running t = [h] \<and> dt_hConnThread t = Some h))"
proof (induction ops rule: rev_induct)
  case (snoc a ops)
  then show ?case
    by (cases a) (auto simp: do_device_op_def in_time_def OpenDevice_def CloseDevice_def killThreads_def Let_def
        split: option.splits wait_result.splits if_splits)
qed (simp add: no_threads_def)

text \<open>
  C15. One connection thread: as long as every wait of \<open>_killThreads\<close> for the end of the thread comes back in time, no history
  of opening and closing the device, with failing thread creations, failing and late initialisations and threads that end by themselves, has
  two connection threads running; and the one that runs is the one whose handle is kept.
\<close>

theorem one_connection_thread:
  assumes "\<forall>a \<in> set ops. in_time a"
  shows "length (dt_running (foldl (\<lambda>t a. do_device_op a t) no_threads ops)) \<le> 1 \<and>
    set (dt_running (foldl (\<lambda>t a. do_device_op a t) no_threads ops)) \<subseteq>
      set_option (dt_hConnThread (foldl (\<lambda>t a. do_device_op a t) no_threads ops))"
  using threads_inv [OF assms] by (auto simp: Let_def)

definition sample_ops :: "device_op list" where
  "sample_ops = [Open True WAIT_OBJECT_0 WAIT_OBJECT_0, Close WAIT_OBJECT_0, Open True WAIT_TIMEOUT WAIT_OBJECT_0,
     Open True WAIT_OBJECT_0 WAIT_OBJECT_0]"

theorem one_connection_thread_witness:
  "dt_running (foldl (\<lambda>t a. do_device_op a t) no_threads sample_ops) = [2] \<and>
   [2] \<noteq> [] \<and> set [2] \<subseteq> set_option (dt_hConnThread (foldl (\<lambda>t a. do_device_op a t) no_threads sample_ops))"
proof -
  have ops: "\<forall>a \<in> set sample_ops. in_time a"
    and r: "dt_running (foldl (\<lambda>t a. do_device_op a t) no_threads sample_ops) = [2]" by code_simp+
  from one_connection_thread [OF ops, THEN conjunct2] show ?thesis unfolding r by blast
qed

text \<open>Finding: the result of the wait is not looked at; when it is too late the next open starts a second thread.\<close>

lemma late_close_two_threads:
  assumes "dt_hConnThread t = Some h" and "dt_running t = [h]"
  shows "OpenDevice True WAIT_OBJECT_0 kill_wait (snd (CloseDevice WAIT_TIMEOUT t)) =
    (True, t\<lparr>dt_hConnThread := Some (dt_next t), dt_running := [h, dt_next t], dt_next := dt_next t + 1, dt_stopSet := False\<rparr>)"
  using assms by (simp add: OpenDevice_def CloseDevice_def killThreads_def Let_def)

end
