(* ===== verification/XmppThread.thy ===== *)
theory XmppThread
  imports Tapi
begin

text \<open>
  \<open>OnSipCore/OnSipThread.cpp\<close>: a thread around the engine, as the test program uses it. Its requests are refused when the thread is not
  running or has no engine; its \<open>Run\<close> starts the engine, polls it until an error or the stop signal, shuts it down and
  releases it. A turn is here the sleep and the poll behind it.
\<close>

record xmpp_thread =
  xt_inThread :: bool
  xt_xmpp :: "engine option"
  xt_loginInfo :: login

definition OnSipThread_MakeCall :: "tstring \<Rightarrow> xmpp_thread \<Rightarrow> long \<times> xmpp_thread" where
  "OnSipThread_MakeCall number t =
     (if \<not> xt_inThread t then (0, t)
      else case xt_xmpp t of
          None \<Rightarrow> (0, t)
        | Some s \<Rightarrow> (case OnSipXmpp_MakeCall number s of (callId, s') \<Rightarrow> (callId, t\<lparr>xt_xmpp := Some s'\<rparr>)))"

definition OnSipThread_DropCall :: "long \<Rightarrow> xmpp_thread \<Rightarrow> xmpp_thread" where
  "OnSipThread_DropCall callId t =
     (if \<not> xt_inThread t then t
      else case xt_xmpp t of None \<Rightarrow> t | Some s \<Rightarrow> t\<lparr>xt_xmpp := Some (OnSipXmpp_DropCall callId s)\<rparr>)"

text \<open>
  Both loops of \<open>Run\<close>, with what ends them besides an error; it is looked at before each turn. The first component of the
  result is \<^const>\<open>None\<close> when the turns do not reach to the end.
\<close>

fun poll_until :: "(turn \<Rightarrow> engine \<Rightarrow> bool) \<Rightarrow> turn list \<Rightarrow> engine \<Rightarrow> (conn_error option \<times> engine \<times> turn list) option" where
  "poll_until ends [] s = Some (None, s, [])"
| "poll_until ends (t # ts) s =
     (if ends t s then Some (Some ConnNoError, s, t # ts)
      else do {
        (r, s1, _) \<leftarrow> PollXMPP 1000 (tn_recv t) (after_sleep t s);
        (case r of
           None \<Rightarrow> Some (None, s1, ts)
         | Some ce \<Rightarrow> if ce = ConnNoError then poll_until ends ts s1 else Some (Some ce, s1, ts))
      })"

definition shutdown_ends :: "timeout \<Rightarrow> turn \<Rightarrow> engine \<Rightarrow> bool" where
  "shutdown_ends tmout t s \<longleftrightarrow> IsShutdownComplete s \<or> IsExpired tmout (w_clock (en_world s))"

definition signal_stop :: "turn list \<Rightarrow> bool" where
  "signal_stop ts = (case ts of [] \<Rightarrow> False | t # _ \<Rightarrow> tn_stop t)"

text \<open>What follows the first loop; the stop signal is that of the next turn.\<close>

definition finish :: "conn_error \<Rightarrow> turn list \<Rightarrow> engine \<Rightarrow> (conn_error option \<times> engine) option" where
  "finish ce ts s = do {
     (r, s1, _) \<leftarrow>
       (if \<not> signal_stop ts then Some (Some ce, s, ts)
        else if ce \<noteq> ConnNoError then Some (Some ce, AsyncShutdown s, ts)
        else poll_until (shutdown_ends (TimeOut 5000 (w_clock (en_world s)))) ts (AsyncShutdown s));
     if r = None then Some (None, s1) else map_option (Pair r) (Cleanup s1)
   }"

text \<open>\<open>Run\<close> on the engine \<open>CreateOnSipXMPP\<close> makes.\<close>

definition Run :: "engine \<Rightarrow> bool \<Rightarrow> turn list \<Rightarrow> xmpp_thread \<Rightarrow> (conn_error option \<times> xmpp_thread) option" where
  "Run s0 connects ts t = do {
     (ce, s1) \<leftarrow> Start (xt_loginInfo t) connects s0;
     if ce \<noteq> ConnNoError then Some (Some ce, t\<lparr>xt_xmpp := Some s1\<rparr>)
     else do {
       (r, s2, rest) \<leftarrow> poll_until (\<lambda>t s. tn_stop t) ts s1;
       if r = None then Some (None, t\<lparr>xt_xmpp := Some s2\<rparr>)
       else do {
         (r', s3) \<leftarrow> finish (the r) rest s2;
         Some (r', t\<lparr>xt_xmpp := (if r' = None then Some s3 else None)\<rparr>)
       }
     }
   }"

text \<open>A run that returns has released its engine, unless the engine could not be started: then it keeps it.\<close>

lemma Run_releases:
  assumes "Run s0 connects ts t = Some (Some ce, t')"
  shows "xt_xmpp t' = None \<or> (\<exists>s1. Start (xt_loginInfo t) connects s0 = Some (ce, s1) \<and> ce \<noteq> ConnNoError \<and> xt_xmpp t' = Some s1)"
  using assms by (auto simp: Run_def bind_eq_Some_conv dest: arg_cong [of _ _ xt_xmpp] split: if_splits)

text \<open>No request reaches an engine that is released, and none is answered with the identity of a call.\<close>

lemma requests_refused:
  "\<not> xt_inThread t \<or> xt_xmpp t = None \<Longrightarrow> OnSipThread_MakeCall number t = (0, t) \<and> OnSipThread_DropCall callId t = t"
  by (auto simp: OnSipThread_MakeCall_def OnSipThread_DropCall_def split: option.split)

text \<open>Deliveries of every turn within the contract, as long as the first loop runs.\<close>

fun polls_ok :: "(turn \<Rightarrow> engine \<Rightarrow> bool) \<Rightarrow> turn list \<Rightarrow> engine \<Rightarrow> bool" where
  "polls_ok ends [] s = True"
| "polls_ok ends (t # ts) s =
     (ends t s \<or>
      schedule_ok (TimeOut 1000 (tn_clock t)) (tn_recv t) ConnNoError (after_sleep t s) \<and>
      (case PollXMPP 1000 (tn_recv t) (after_sleep t s) of
         Some (Some ConnNoError, s1, _) \<Rightarrow> polls_ok ends ts s1 | _ \<Rightarrow> True))"

lemma poll_until_run:
  "engine_run s \<Longrightarrow> polls_ok ends ts s \<Longrightarrow> \<exists>r s' rest. poll_until ends ts s = Some (r, s', rest) \<and> engine_run s'"
proof (induction ts arbitrary: s)
  case (Cons t ts)
  show ?case
  proof (cases "ends t s")
    case False
    have run: "engine_run (after_sleep t s)" by (rule after_sleep_run [OF Cons.prems(1)])
    have "schedule_ok (TimeOut 1000 (w_clock (en_world (after_sleep t s)))) (tn_recv t) ConnNoError (after_sleep t s)"
      using Cons.prems(2) False by (simp add: after_sleep_def)
    from polling_loop_run [OF run this] obtain r s1 rest
      where p: "PollXMPP 1000 (tn_recv t) (after_sleep t s) = Some (r, s1, rest)" "engine_run s1"
      by (auto simp: PollXMPP_def AsyncPolling_def)
    show ?thesis
    proof (cases "r = Some ConnNoError")
      case True
      with p Cons.prems(2) False Cons.IH [OF p(2)] show ?thesis by simp
    next
      case no: False
      with p False show ?thesis by (cases r) auto
    qed
  qed (use Cons.prems in auto)
qed auto

text \<open>A run on a new engine never faults.\<close>

lemma Run_never_faults:
  assumes "startable s0" and s1: "Start (xt_loginInfo t) connects s0 = Some (ce, s1)" and ok1: "polls_ok (\<lambda>t s. tn_stop t) ts s1"
    and ok2: "\<And>s2 rest. poll_until (\<lambda>t s. tn_stop t) ts s1 = Some (Some ConnNoError, s2, rest) \<Longrightarrow>
      polls_ok (shutdown_ends (TimeOut 5000 (w_clock (en_world s2)))) rest (AsyncShutdown s2)"
  shows "\<exists>r t'. Run s0 connects ts t = Some (r, t')"
proof -
  note run1 = engine_run.started [OF assms(1) s1]
  from poll_until_run [OF run1 ok1] obtain r s2 rest
    where p: "poll_until (\<lambda>t s. tn_stop t) ts s1 = Some (r, s2, rest)" "engine_run s2" by blast
  have c: "\<exists>s'. Cleanup s = Some s'" if "engine_run s" for s using Cleanup_inv [OF engine_run_inv [OF that]] by blast
  have a: "engine_run (AsyncShutdown s2)" by (rule engine_run.shutdown [OF p(2)])
  have f: "\<exists>x. finish e rest s2 = Some x" if e: "r = Some e" for e
  proof (cases "e = ConnNoError")
    case True
    with e p(1) ok2 have "polls_ok (shutdown_ends (TimeOut 5000 (w_clock (en_world s2)))) rest (AsyncShutdown s2)" by simp
    from poll_until_run [OF a this] obtain x s3 vs
      where l: "poll_until (shutdown_ends (TimeOut 5000 (w_clock (en_world s2)))) rest (AsyncShutdown s2) = Some (x, s3, vs)"
        "engine_run s3" by blast
    then show ?thesis using c [OF p(2)] c [OF l(2)] True by (auto simp: finish_def)
  qed (use c [OF p(2)] c [OF a] in \<open>auto simp: finish_def\<close>)
  show ?thesis
  proof (cases r)
    case (Some e)
    with f obtain r' s3 where "finish e rest s2 = Some (r', s3)" by fastforce
    with s1 p Some show ?thesis by (simp add: Run_def)
  qed (use s1 p in \<open>simp add: Run_def\<close>)
qed

end
