(* ===== verification/Spec2Isabelle.thy ===== *)
theory Spec2Isabelle
  imports OnSip_Prelude Utils Gloox XmppEvents CallData StateMachine Timers Xmpp
    CallHandlers CallMachine CallProtocol Workers InitMachine InitProtocol Engine
    MachineFrame EngineFrame EngineInv EngineProtocol Polling Tapi Tsp TspFrame Line LineCalls LineProtocol Pool
    GlooxXml XmlPackets XmlRoundtrip Device XmppThread
begin

text \<open>
  A verification library of the OnSIP TAPI driver: a Windows telephony service provider that talks
  to the OnSIP hosted PBX over XMPP, with the vendored libraries \<open>gloox\<close> (XMPP) and \<open>TspLib3\<close>
  (TAPI).

  \<^bold>\<open>The program.\<close> \<open>OnSipXmpp\<close> (\<open>OnSipCore/OnSipXmpp.cpp\<close>, over \<open>OnSipXmppBase.cpp\<close>) is the engine. Its
  polling loop reads the socket through gloox, which calls the engine back with connects, messages
  and IQ results. The engine turns a stanza into an \<open>XmppEvent\<close> (\<open>OnSipXmppEvents.cpp\<close>) and offers it
  to two state machines, each an instance of the template \<open>OnSipStateMachineBase.h\<close> over
  \<open>StateMachine.h\<close>: the init machine (\<open>OnSipInitStateMachine.cpp\<close>), whose one handler logs in,
  subscribes to the call events, renews both and shuts down, and the call machine
  (\<open>OnSipCallStateMachine.cpp\<close>), with one handler per call. Other threads reach the machines
  through their queues only (\<open>AddEvent\<close>, \<open>AddStateHandler\<close>).

  The driver proper (\<open>OnSipTAPI/\<close>) puts the engine behind TAPI. \<open>OnSipTapi\<close> wraps it: it collects the
  notifications of calls and of the login in lists. The connection thread of \<open>COnSipDevice\<close> owns it, polls it, reconnects, and
  hands each notification on, as an event, to the worker pool of TSP++ (\<open>TspLib3/Include/PoolMgr.h\<close>), which runs
  \<open>COnSipLine::ReceiveData\<close>. The line translates the events into TAPI call states, and the requests of TAPI (make
  call, dial, drop) into requests of the engine; a request waits in the queue of TSP++ until an event, or the timer,
  completes it.

  \<^bold>\<open>The theories\<close>, in the order of their imports:

  \<^item> \<open>OnSip_Prelude\<close>: word and string types, the searches of \<open>std::string\<close>, number formatting.
  \<^item> \<open>Utils\<close>: \<open>Strings\<close>, \<open>Utils::ParseSIP\<close>, the unique ids (\<open>OnSipCommon/Utils.cpp\<close>, \<open>Utils.h\<close>).
  \<^item> \<open>Timers\<close>: \<open>TimeElapsed\<close>, \<open>TimeOut\<close> (\<open>Utils.h\<close>), with the roundings of the double arithmetic.
  \<^item> \<open>Gloox\<close>: the part of gloox whose code the OnSIP layer reads: tags, \<open>JID\<close>, data forms, commands,
    PubSub events.
  \<^item> \<open>XmppEvents\<close>: the events and their factories.
  \<^item> \<open>CallData\<close>: call states, call data and the branch list of a call.
  \<^item> \<open>StateMachine\<close>: \<open>StateItem\<close>, \<open>StateMachine\<close> and \<open>OnSipStateMachineBase\<close> over a record of the
    operations a handler class implements. Two locales state what the machine asks of its handlers:
    \<open>event_owner\<close> (every event has one owner) and \<open>handler_safe\<close> (no method faults).
  \<^item> \<open>Xmpp\<close>: the engine's state and its requests. The record \<open>world\<close> is what the handlers act on.
  \<^item> \<open>CallHandlers\<close>, \<open>CallMachine\<close>: the three call handlers and their machine; both locales are
    interpreted on it. \<open>CallProtocol\<close>: the properties of the call machine.
  \<^item> \<open>Workers\<close>, \<open>InitMachine\<close>: the renewal workers, the init handler and its machine, with both locales
    interpreted. \<open>InitProtocol\<close>: the properties of the init machine.
  \<^item> \<open>Engine\<close>: \<open>OnSipXmpp\<close> with both machines, the dispatch of inbound stanzas by the gloox client, and
    the polling loop.
  \<^item> \<open>MachineFrame\<close>: a third locale, \<open>world_frame\<close> (what every handler method keeps of the world, the whole
    machine keeps); \<open>EngineFrame\<close> interprets it on both machines.
  \<^item> \<open>EngineInv\<close>: the invariant of the engine, which links the handlers and workers to what gloox
    tracks for them, and its preservation by every operation. \<open>EngineProtocol\<close>: the histories of the
    engine (\<open>engine_run\<close>) and the properties of all of them. \<open>Polling\<close>: the polling loop, and a start after a
    failed start.
  \<^item> \<open>Tapi\<close>: \<open>OnSipTAPI/OnSipTapi.cpp\<close>: connect, \<open>InitOnSipTapi\<close>, poll, disconnect, the TAPI state of a call.
  \<^item> \<open>Tsp\<close>: the asynchronous requests and the call appearances of TSP++ (\<open>Conn.cpp\<close>, \<open>Request.cpp\<close>, \<open>Call.cpp\<close>,
    \<open>Address.cpp\<close>), with what TAPI is told as a list. \<open>TspFrame\<close>: what these operations keep; its locale \<open>line_frame\<close>
    states it for any operation of a line.
  \<^item> \<open>Line\<close>: the request handlers of \<open>COnSipLine\<close>, its timer, the handling of events (\<open>line.cpp\<close>, \<open>makecall.cpp\<close>,
    \<open>dropcall.cpp\<close>, \<open>unsolicited.cpp\<close>); \<open>LineCalls\<close>: the TAPI operations on it. \<open>LineProtocol\<close>: the properties of the histories of a line.
  \<^item> \<open>Pool\<close>: the worker pool, its threads as interleaved steps: a step is a stay in the critical section or a signal.
  \<^item> \<open>GlooxXml\<close>: the incremental parser and the printer of gloox (\<open>parser.cpp\<close>, \<open>tag.cpp\<close>, \<open>util.cpp\<close>).
    \<open>XmlPackets\<close>: how the packets of the connection are cut does not matter. \<open>XmlRoundtrip\<close>: printed stanzas are received as they
    were sent.
  \<^item> \<open>Device\<close>: \<open>OnSipTAPI/device.cpp\<close>: the connection thread as steps, opening and closing of the device.
  \<^item> \<open>XmppThread\<close>: \<open>OnSipCore/OnSipThread.cpp\<close>: the thread of the test program.

  \<^bold>\<open>How the code is translated.\<close> A C++ object is a record, an enum a datatype, \<open>long\<close> and \<open>DWORD\<close> are
  32-bit words. A method takes the world and answers the new one. A null dereference is the result
  \<open>None\<close> of a method, or \<open>w_fault\<close> of a destructor. \<open>delete\<close> of an event appends it to \<open>w_deleted\<close>, so that leaks
  and double deletions can be stated. A handler is a value in the list of its machine: nothing
  else in the code points to it, except the workers that gloox calls back, which the engine finds
  through their handler. The clocks stand still while a method runs and change between calls. A
  schedule (\<open>recv_step list\<close>) gives what each call of \<open>recv\<close> delivers; the polling loop recurses
  over it, so no fuel is needed: the loop either ends before the schedule does or consumes it.

  \<^bold>\<open>What is shown\<close>: the string routines against reference definitions and round trips; the
  exactness of the timeouts over the wrapping clock; the type safety of the events and exactly when
  the factories fault; the refinement of the branch list to a finite map; for both machines that no
  event is lost or deleted twice, that no method faults, that a call is only reported connected, and
  the login only reported ready, after the whole protocol, that a silent server cannot keep a
  call or a login waiting; the routing of drop requests; what each step of login, renewal
  and shutdown sends. For the TAPI side: that every request is answered at most once, and when all is
  completed exactly once, that an idle call stays idle, when a stale request fails, which events the pool keeps in order and that it
  drains, what \<open>InitOnSipTapi\<close> answers, that the device is reported in service exactly while it is connected and
  logged in, that the connection thread obeys the stop event. For the XML: that a list of printed stanzas, cut into any
  packets, gives the stanzas back, and for which stanzas. Several theorems state defects of the code, and say so.

  \<^bold>\<open>Bounds.\<close> The state machines need no fuel: their loops run over lists. The parser recurses over the input, and its search for
  entities is bounded by the length of the packet. The pool's liveness has an explicit measure (\<open>pool_weight\<close>), and a stopped
  connection thread at most three steps left (\<open>steps_left\<close>). A schedule or a list of turns that is too short is
  visible in the result, never taken for an answer of the code.

  \<^bold>\<open>Not modelled\<close>: of gloox the connections, TLS, SASL and the extensions the driver does not read; of \<open>TspLib3\<close> the
  phones, conferences, consultation calls, media, call features, the entry points (\<open>Spdll.cpp\<close>, \<open>TSPLayer.cpp\<close>, \<open>Sp.cpp\<close>), which pass TAPI's calls
  on and (un)marshal its structures, and the deletion of the pool (thread handles). Dialogs, installers, samples, the log, files and
  the thread checks (they only log) are user interface or I/O. Base64 (of the ATL library) and the registry are
  parameters. \<open>stringFormat\<close> is modelled at the formats the code uses. A critical section is not a state: what it
  encloses is one step.
\<close>

end
